theory Spec2Isabelle
  imports Complex_Main
begin

section \<open>Wall distance of the DG-FEM mesh: \<^verbatim>\<open>CMeshFEM_DG::ComputeWall_Distance\<close>\<close>

text \<open>
  The development embeds \<^verbatim>\<open>Common/src/fem_wall_distance.cpp\<close>. The member function
  works on the mesh object (\<^verbatim>\<open>*this\<close>), a configuration object and a number of local
  vectors; it is modelled by explicit state passing.

  Integers. \<^verbatim>\<open>unsigned short\<close> is 16 bits wide: the three places where the source
  narrows a value to it (the marker counter \<^verbatim>\<open>iMarker\<close>, the running index \<^verbatim>\<open>ii\<close>
  into the sub-face connectivity and the row offset \<^verbatim>\<open>jj = i*nDOFs\<close>) are written
  with \<open>mod 65536\<close>. \<^verbatim>\<open>unsigned long\<close> counters count entries of vectors held in
  memory and are natural numbers. \<^verbatim>\<open>su2double\<close> is modelled by the reals (rounding is
  not modelled).

  Pointers. \<^verbatim>\<open>wallDistance\<close> of an element or face points into the flat buffer of its
  category: it is the offset into that buffer, \<open>None\<close> while it has not been set.
\<close>

subsection \<open>Data model\<close>

text \<open>
  Modelled from the spec: the enumeration of boundary-condition kinds
  (\<^verbatim>\<open>option_structure.hpp\<close>) is not part of the sources. The function only compares
  against \<^verbatim>\<open>HEAT_FLUX\<close> and \<^verbatim>\<open>ISOTHERMAL\<close>; every other classification is
  \<open>OTHER_BC\<close> with its number.
\<close>

datatype BC_KIND = HEAT_FLUX | ISOTHERMAL | OTHER_BC nat

record CConfig =
  Marker_All_KindBC :: "nat \<Rightarrow> BC_KIND"

definition GetMarker_All_KindBC :: "CConfig \<Rightarrow> nat \<Rightarrow> BC_KIND" where
  "GetMarker_All_KindBC config iMarker = Marker_All_KindBC config iMarker"

record CPointFEM =
  coor :: "real list"

text \<open>The standard elements: what their getters return.\<close>

record FEMStandardBoundaryFaceClass =
  GetVTK_Type :: nat
  GetNSubFaces :: nat
  GetNDOFsPerSubFace :: nat
  GetSubFaceConn :: "nat list"
  GetNIntegration :: nat
  GetBasisFaceIntegration :: "real list"

record FEMStandardElementClass =
  elem_GetNIntegration :: nat
  GetBasisFunctionsIntegration :: "real list"

record FEMStandardInternalFaceClass =
  face_GetNIntegration :: nat
  GetNDOFsFaceSide0 :: nat
  GetBasisFaceIntegrationSide0 :: "real list"

record CSurfaceElementFEM =
  indStandardElement :: nat
  nDOFsGrid :: nat
  DOFsGridFace :: "nat list"
  wallDistance :: "nat option"

record CBoundaryFEM =
  periodicBoundary :: bool
  surfElem :: "CSurfaceElementFEM list"
  VecWallDistanceBoundaryFaces :: "real list"

record CVolumeElementFEM =
  elem_indStandardElement :: nat
  elem_nDOFsGrid :: nat
  nodeIDsGrid :: "nat list"
  elem_wallDistance :: "nat option"

record CInternalFaceElementFEM =
  face_indStandardElement :: nat
  DOFsGridFaceSide0 :: "nat list"
  face_wallDistance :: "nat option"

record CMeshFEM_DG =
  nDim :: nat
  meshPoints :: "CPointFEM list"
  boundaries :: "CBoundaryFEM list"
  standardBoundaryFacesGrid :: "FEMStandardBoundaryFaceClass list"
  standardElementsGrid :: "FEMStandardElementClass list"
  standardMatchingFacesGrid :: "FEMStandardInternalFaceClass list"
  nVolElemOwned :: nat
  volElem :: "CVolumeElementFEM list"
  matchingFaces :: "CInternalFaceElementFEM list"
  VecWallDistanceElements :: "real list"
  VecWallDistanceInternalMatchingFaces :: "real list"

subsection \<open>Step 1: the linear sub-elements of the viscous walls\<close>

text \<open>
  The state of step 1: the mesh object and the local vectors of the function.
\<close>

record ExtractorState =
  this :: CMeshFEM_DG
  meshToSurface :: "nat list"
  surfaceConn :: "nat list"
  elemIDs :: "nat list"
  VTK_TypeElem :: "nat list"
  markerIDs :: "nat list"
  surfaceCoor :: "real list"
  nVertex_SolidWall :: nat

definition InitExtractor :: "CMeshFEM_DG \<Rightarrow> ExtractorState" where
  "InitExtractor mesh =
     \<lparr>this = mesh, meshToSurface = replicate (length (meshPoints mesh)) 0,
      surfaceConn = [], elemIDs = [], VTK_TypeElem = [], markerIDs = [],
      surfaceCoor = [], nVertex_SolidWall = 0\<rparr>"

text \<open>Lines 76-77: flag the grid DOFs of a surface element.\<close>

definition FlagDOF :: "CSurfaceElementFEM \<Rightarrow> nat \<Rightarrow> ExtractorState \<Rightarrow> ExtractorState" where
  "FlagDOF e j s = s\<lparr>meshToSurface := (meshToSurface s)[DOFsGridFace e ! j := 1]\<rparr>"

definition FlagDOFs :: "CSurfaceElementFEM \<Rightarrow> ExtractorState \<Rightarrow> ExtractorState" where
  "FlagDOFs e s = fold (FlagDOF e) [0..<nDOFsGrid e] s"

text \<open>
  Lines 95-96: the DOFs of one sub-face; \<open>ii\<close> is the \<^verbatim>\<open>unsigned short\<close> running
  index into the connectivity of the standard face.
\<close>

fun PushSubFaceDOF ::
  "CSurfaceElementFEM \<Rightarrow> nat list \<Rightarrow> nat \<Rightarrow> nat \<times> ExtractorState \<Rightarrow> nat \<times> ExtractorState" where
  "PushSubFaceDOF e connSubFaces k (ii, s) =
     ((ii + 1) mod 65536,
      s\<lparr>surfaceConn := surfaceConn s @ [DOFsGridFace e ! (connSubFaces ! ii)]\<rparr>)"

text \<open>Lines 90-97: one sub-face of surface element \<open>i\<close> of marker \<open>iMarker\<close>.\<close>

fun PushSubFace ::
  "nat \<Rightarrow> nat \<Rightarrow> CSurfaceElementFEM \<Rightarrow> FEMStandardBoundaryFaceClass \<Rightarrow> nat \<Rightarrow>
   nat \<times> ExtractorState \<Rightarrow> nat \<times> ExtractorState" where
  "PushSubFace iMarker i e std j (ii, s) =
     fold (PushSubFaceDOF e (GetSubFaceConn std)) [0..<GetNDOFsPerSubFace std]
       (ii, s\<lparr>markerIDs := markerIDs s @ [iMarker],
              VTK_TypeElem := VTK_TypeElem s @ [GetVTK_Type std],
              elemIDs := elemIDs s @ [i]\<rparr>)"

definition PushSubFaces ::
  "nat \<Rightarrow> nat \<Rightarrow> CSurfaceElementFEM \<Rightarrow> FEMStandardBoundaryFaceClass \<Rightarrow>
   ExtractorState \<Rightarrow> ExtractorState" where
  "PushSubFaces iMarker i e std s =
     snd (fold (PushSubFace iMarker i e std) [0..<GetNSubFaces std] (0, s))"

text \<open>Lines 73-98: one surface element of a wall marker.\<close>

definition ExtractSurfElem :: "nat \<Rightarrow> nat \<Rightarrow> ExtractorState \<Rightarrow> ExtractorState" where
  "ExtractSurfElem iMarker i s =
     (let e = surfElem (boundaries (this s) ! iMarker) ! i;
          s1 = FlagDOFs e s;
          ind = indStandardElement e
      in PushSubFaces iMarker i e (standardBoundaryFacesGrid (this s1) ! ind) s1)"

definition ViscousWall :: "CConfig \<Rightarrow> nat \<Rightarrow> bool" where
  "ViscousWall config iMarker \<longleftrightarrow>
     GetMarker_All_KindBC config iMarker = HEAT_FLUX \<or>
     GetMarker_All_KindBC config iMarker = ISOTHERMAL"

text \<open>Lines 65-100: the body of the loop over the markers.\<close>

definition ExtractMarker :: "CConfig \<Rightarrow> nat \<Rightarrow> ExtractorState \<Rightarrow> ExtractorState" where
  "ExtractMarker config iMarker s =
     (if \<not> periodicBoundary (boundaries (this s) ! iMarker) then
        if ViscousWall config iMarker then
          fold (ExtractSurfElem iMarker)
               [0..<length (surfElem (boundaries (this s) ! iMarker))] s
        else s
      else s)"

text \<open>
  Line 64: the loop over the markers. The counter is an \<^verbatim>\<open>unsigned short\<close>, so with
  65536 markers or more it wraps to 0 before it reaches the bound and the loop does not
  end: the loop is a partial function and \<open>None\<close> is "does not return".
\<close>

partial_function (option) ExtractMarkers ::
  "CConfig \<Rightarrow> nat \<Rightarrow> ExtractorState \<Rightarrow> ExtractorState option" where
  "ExtractMarkers config iMarker s =
     (if iMarker < length (boundaries (this s))
      then ExtractMarkers config ((iMarker + 1) mod 65536) (ExtractMarker config iMarker s)
      else Some s)"

declare ExtractMarkers.simps [code]

text \<open>Lines 109-116: the coordinates of the wall points and the final mapping.\<close>

definition PushCoor :: "nat \<Rightarrow> nat \<Rightarrow> ExtractorState \<Rightarrow> ExtractorState" where
  "PushCoor i k s = s\<lparr>surfaceCoor := surfaceCoor s @ [coor (meshPoints (this s) ! i) ! k]\<rparr>"

definition NumberWallPoint :: "nat \<Rightarrow> ExtractorState \<Rightarrow> ExtractorState" where
  "NumberWallPoint i s =
     (if meshToSurface s ! i \<noteq> 0 then
        fold (PushCoor i) [0..<nDim (this s)]
          (s\<lparr>meshToSurface := (meshToSurface s)[i := nVertex_SolidWall s],
             nVertex_SolidWall := nVertex_SolidWall s + 1\<rparr>)
      else s)"

definition CreateSurfaceCoor :: "ExtractorState \<Rightarrow> ExtractorState" where
  "CreateSurfaceCoor s = fold NumberWallPoint [0..<length (meshPoints (this s))] s"

text \<open>Lines 120-121: the connectivity in terms of the entries of \<open>surfaceCoor\<close>.\<close>

definition RemapConn :: "nat \<Rightarrow> ExtractorState \<Rightarrow> ExtractorState" where
  "RemapConn i s = s\<lparr>surfaceConn := (surfaceConn s)[i := meshToSurface s ! (surfaceConn s ! i)]\<rparr>"

definition RemapSurfaceConn :: "ExtractorState \<Rightarrow> ExtractorState" where
  "RemapSurfaceConn s = fold RemapConn [0..<length (surfaceConn s)] s"

text \<open>Step 1 as a whole (lines 54-121).\<close>

definition Step1 :: "CConfig \<Rightarrow> CMeshFEM_DG \<Rightarrow> ExtractorState option" where
  "Step1 config mesh =
     (case ExtractMarkers config 0 (InitExtractor mesh) of
        None \<Rightarrow> None
      | Some s \<Rightarrow> Some (RemapSurfaceConn (CreateSurfaceCoor s)))"

subsection \<open>Step 2: the tree of bounding boxes\<close>

text \<open>
  \<^verbatim>\<open>su2_adtElemClass\<close> (\<^verbatim>\<open>adt_structure.hpp\<close>) is not part of the sources. The object
  is modelled by the arguments of its constructor.
\<close>

record su2_adtElemClass =
  adt_nDim :: nat
  adt_coor :: "real list"
  adt_connElem :: "nat list"
  adt_VTK_TypeElem :: "nat list"
  adt_markerID :: "nat list"
  adt_elemID :: "nat list"

text \<open>
  Modelled from the spec: \<^verbatim>\<open>su2_adtElemClass::IsEmpty\<close> is not part of the sources.
  Section 4.2: "Degenerate input (zero sub-elements) yields an explicitly empty index;
  the index exposes a boolean is-empty predicate". There is one type tag for every
  sub-element.
\<close>

definition IsEmpty :: "su2_adtElemClass \<Rightarrow> bool" where
  "IsEmpty adt \<longleftrightarrow> adt_VTK_TypeElem adt = []"

text \<open>
  \<^verbatim>\<open>su2_adtElemClass::DetermineNearestElement\<close> is not part of the sources either: the
  distance it returns for a tree and a point is a parameter of the model. The marker, the
  element and the rank it also returns are not used by the caller.
\<close>

type_synonym NearestElementQuery = "su2_adtElemClass \<Rightarrow> real list \<Rightarrow> real"

definition BuildWallADT :: "ExtractorState \<Rightarrow> su2_adtElemClass" where
  "BuildWallADT s =
     \<lparr>adt_nDim = nDim (this s), adt_coor = surfaceCoor s, adt_connElem = surfaceConn s,
      adt_VTK_TypeElem = VTK_TypeElem s, adt_markerID = markerIDs s,
      adt_elemID = elemIDs s\<rparr>"

subsection \<open>Steps 3 to 5: the wall distance of the integration points\<close>

text \<open>
  The calls of \<^verbatim>\<open>DetermineNearestElement\<close> are recorded: who asked (the element or
  face), for which integration point, and with which coordinates.
\<close>

datatype Entity = VolumeElement nat | MatchingFace nat | BoundaryFace nat nat

type_synonym QueryLog = "(Entity \<times> nat \<times> real list) list"

record PopulatorState =
  thisMesh :: CMeshFEM_DG
  queryLog :: QueryLog

text \<open>\<^verbatim>\<open>std::vector::resize\<close>: new entries are value-initialised.\<close>

definition resize :: "nat \<Rightarrow> real list \<Rightarrow> real list" where
  "resize n buf = take n buf @ replicate (n - length buf) 0"

text \<open>
  Lines 191-198 (and 261-268, 342-349): the coordinates of integration point \<open>i\<close>.
  \<open>jj\<close> is an \<^verbatim>\<open>unsigned short\<close>; the sum \<open>jj+k\<close> is computed in \<^verbatim>\<open>int\<close>.
\<close>

definition IntegrationPointCoor ::
  "CMeshFEM_DG \<Rightarrow> real list \<Rightarrow> nat \<Rightarrow> nat list \<Rightarrow> nat \<Rightarrow> real list" where
  "IntegrationPointCoor mesh lag nDOFs DOFs i =
     (let jj = (i * nDOFs) mod 65536
      in map (\<lambda>j. fold (\<lambda>k c. c + lag ! (jj + k) * coor (meshPoints mesh ! (DOFs ! k)) ! j)
                        [0..<nDOFs] 0)
             [0..<nDim mesh])"

text \<open>
  Lines 177-178 (and 248-249, 328-329): zero for the \<open>nInt\<close> integration points of the
  entity whose pointer is \<open>buf + off\<close>.
\<close>

definition SetZeroPoint :: "nat \<Rightarrow> nat \<Rightarrow> real list \<Rightarrow> real list" where
  "SetZeroPoint off i buf = buf[off + i := 0]"

definition SetZeroWallDistance :: "nat \<Rightarrow> nat \<Rightarrow> real list \<Rightarrow> real list" where
  "SetZeroWallDistance off nInt buf = fold (SetZeroPoint off) [0..<nInt] buf"

text \<open>
  Lines 188-208 (and 258-278, 339-359): the distance of every integration point of the
  entity to the walls.
\<close>

fun QueryPoint ::
  "NearestElementQuery \<Rightarrow> su2_adtElemClass \<Rightarrow> CMeshFEM_DG \<Rightarrow> Entity \<Rightarrow> real list \<Rightarrow> nat \<Rightarrow>
   nat list \<Rightarrow> nat \<Rightarrow> nat \<Rightarrow> real list \<times> QueryLog \<Rightarrow> real list \<times> QueryLog" where
  "QueryPoint DetermineNearestElement WallADT mesh ent lag nDOFs DOFs off i (buf, qlog) =
     (let coor = IntegrationPointCoor mesh lag nDOFs DOFs i;
          dist = DetermineNearestElement WallADT coor
      in (buf[off + i := dist], qlog @ [(ent, i, coor)]))"

definition QueryWallDistance ::
  "NearestElementQuery \<Rightarrow> su2_adtElemClass \<Rightarrow> CMeshFEM_DG \<Rightarrow> Entity \<Rightarrow> real list \<Rightarrow> nat \<Rightarrow>
   nat list \<Rightarrow> nat \<Rightarrow> nat \<Rightarrow> real list \<times> QueryLog \<Rightarrow> real list \<times> QueryLog" where
  "QueryWallDistance DetermineNearestElement WallADT mesh ent lag nDOFs DOFs off nInt =
     fold (QueryPoint DetermineNearestElement WallADT mesh ent lag nDOFs DOFs off) [0..<nInt]"

text \<open>Lines 151-154: the number of integration points of the owned elements.\<close>

definition VolElemNInt :: "CMeshFEM_DG \<Rightarrow> nat \<Rightarrow> nat" where
  "VolElemNInt mesh l =
     elem_GetNIntegration (standardElementsGrid mesh ! elem_indStandardElement (volElem mesh ! l))"

definition CountVolElemIntPoints :: "CMeshFEM_DG \<Rightarrow> nat" where
  "CountVolElemIntPoints mesh =
     fold (\<lambda>l nIntPoints. nIntPoints + VolElemNInt mesh l) [0..<nVolElemOwned mesh] 0"

text \<open>Lines 162-210: the body of the loop over the owned elements.\<close>

fun VolElemBody ::
  "NearestElementQuery \<Rightarrow> su2_adtElemClass \<Rightarrow> nat \<Rightarrow> nat \<times> PopulatorState \<Rightarrow>
   nat \<times> PopulatorState" where
  "VolElemBody DetermineNearestElement WallADT l (nIntPoints, s) =
    (let mesh = thisMesh s;
         ind = elem_indStandardElement (volElem mesh ! l);
         nInt = elem_GetNIntegration (standardElementsGrid mesh ! ind);
         lag = GetBasisFunctionsIntegration (standardElementsGrid mesh ! ind);
         mesh1 = mesh\<lparr>volElem :=
                   (volElem mesh)[l := (volElem mesh ! l)\<lparr>elem_wallDistance := Some nIntPoints\<rparr>]\<rparr>;
         (buf, qlog) =
           (if IsEmpty WallADT then
              (SetZeroWallDistance nIntPoints nInt (VecWallDistanceElements mesh1), queryLog s)
            else
              QueryWallDistance DetermineNearestElement WallADT mesh1 (VolumeElement l) lag
                (elem_nDOFsGrid (volElem mesh1 ! l)) (nodeIDsGrid (volElem mesh1 ! l))
                nIntPoints nInt (VecWallDistanceElements mesh1, queryLog s))
     in (nIntPoints + nInt,
         s\<lparr>thisMesh := mesh1\<lparr>VecWallDistanceElements := buf\<rparr>, queryLog := qlog\<rparr>))"

text \<open>Step 3 (lines 150-210).\<close>

definition Step3 ::
  "NearestElementQuery \<Rightarrow> su2_adtElemClass \<Rightarrow> PopulatorState \<Rightarrow> PopulatorState" where
  "Step3 DetermineNearestElement WallADT s =
     (let mesh = thisMesh s;
          nIntPoints = CountVolElemIntPoints mesh;
          s1 = s\<lparr>thisMesh := mesh\<lparr>VecWallDistanceElements :=
                                    resize nIntPoints (VecWallDistanceElements mesh)\<rparr>\<rparr>
      in snd (fold (VolElemBody DetermineNearestElement WallADT)
                   [0..<nVolElemOwned mesh] (0, s1)))"

text \<open>Lines 220-224: the number of integration points of the matching faces.\<close>

definition MatchingFaceNInt :: "CMeshFEM_DG \<Rightarrow> nat \<Rightarrow> nat" where
  "MatchingFaceNInt mesh l =
     face_GetNIntegration
       (standardMatchingFacesGrid mesh ! face_indStandardElement (matchingFaces mesh ! l))"

definition CountMatchingFaceIntPoints :: "CMeshFEM_DG \<Rightarrow> nat" where
  "CountMatchingFaceIntPoints mesh =
     fold (\<lambda>l nIntPoints. nIntPoints + MatchingFaceNInt mesh l)
          [0..<length (matchingFaces mesh)] 0"

text \<open>Lines 232-280: the body of the loop over the internal matching faces.\<close>

fun MatchingFaceBody ::
  "NearestElementQuery \<Rightarrow> su2_adtElemClass \<Rightarrow> nat \<Rightarrow> nat \<times> PopulatorState \<Rightarrow>
   nat \<times> PopulatorState" where
  "MatchingFaceBody DetermineNearestElement WallADT l (nIntPoints, s) =
    (let mesh = thisMesh s;
         ind = face_indStandardElement (matchingFaces mesh ! l);
         nInt = face_GetNIntegration (standardMatchingFacesGrid mesh ! ind);
         nDOFs = GetNDOFsFaceSide0 (standardMatchingFacesGrid mesh ! ind);
         lag = GetBasisFaceIntegrationSide0 (standardMatchingFacesGrid mesh ! ind);
         mesh1 = mesh\<lparr>matchingFaces :=
                   (matchingFaces mesh)[l := (matchingFaces mesh ! l)
                                               \<lparr>face_wallDistance := Some nIntPoints\<rparr>]\<rparr>;
         (buf, qlog) =
           (if IsEmpty WallADT then
              (SetZeroWallDistance nIntPoints nInt (VecWallDistanceInternalMatchingFaces mesh1),
               queryLog s)
            else
              QueryWallDistance DetermineNearestElement WallADT mesh1 (MatchingFace l) lag
                nDOFs (DOFsGridFaceSide0 (matchingFaces mesh1 ! l))
                nIntPoints nInt (VecWallDistanceInternalMatchingFaces mesh1, queryLog s))
     in (nIntPoints + nInt,
         s\<lparr>thisMesh := mesh1\<lparr>VecWallDistanceInternalMatchingFaces := buf\<rparr>,
           queryLog := qlog\<rparr>))"

text \<open>Step 4 (lines 220-280).\<close>

definition Step4 ::
  "NearestElementQuery \<Rightarrow> su2_adtElemClass \<Rightarrow> PopulatorState \<Rightarrow> PopulatorState" where
  "Step4 DetermineNearestElement WallADT s =
     (let mesh = thisMesh s;
          nIntPoints = CountMatchingFaceIntPoints mesh;
          s1 = s\<lparr>thisMesh := mesh\<lparr>VecWallDistanceInternalMatchingFaces :=
                                    resize nIntPoints (VecWallDistanceInternalMatchingFaces mesh)\<rparr>\<rparr>
      in snd (fold (MatchingFaceBody DetermineNearestElement WallADT)
                   [0..<length (matchingFaces mesh)] (0, s1)))"

text \<open>
  Lines 294-299: the number of integration points of the faces of a boundary. In step 5
  \<open>surfElem\<close> is a reference to the surface elements of the marker: the model works on
  the boundary \<open>bnd\<close> and stores it back into the mesh.
\<close>

definition SurfElemNInt :: "CMeshFEM_DG \<Rightarrow> CBoundaryFEM \<Rightarrow> nat \<Rightarrow> nat" where
  "SurfElemNInt mesh bnd l =
     GetNIntegration (standardBoundaryFacesGrid mesh ! indStandardElement (surfElem bnd ! l))"

definition CountSurfElemIntPoints :: "CMeshFEM_DG \<Rightarrow> CBoundaryFEM \<Rightarrow> nat" where
  "CountSurfElemIntPoints mesh bnd =
     fold (\<lambda>l nIntPoints. nIntPoints + SurfElemNInt mesh bnd l) [0..<length (surfElem bnd)] 0"

text \<open>Lines 311-361: the body of the loop over the faces of marker \<open>iMarker\<close>.\<close>

fun SurfElemBody ::
  "NearestElementQuery \<Rightarrow> su2_adtElemClass \<Rightarrow> CMeshFEM_DG \<Rightarrow> nat \<Rightarrow> bool \<Rightarrow> nat \<Rightarrow>
   nat \<times> CBoundaryFEM \<times> QueryLog \<Rightarrow> nat \<times> CBoundaryFEM \<times> QueryLog" where
  "SurfElemBody DetermineNearestElement WallADT mesh iMarker viscousWall l
     (nIntPoints, bnd, qlog0) =
    (let ind = indStandardElement (surfElem bnd ! l);
         nInt = GetNIntegration (standardBoundaryFacesGrid mesh ! ind);
         nDOFs = nDOFsGrid (surfElem bnd ! l);
         lag = GetBasisFaceIntegration (standardBoundaryFacesGrid mesh ! ind);
         bnd1 = bnd\<lparr>surfElem :=
                  (surfElem bnd)[l := (surfElem bnd ! l)\<lparr>wallDistance := Some nIntPoints\<rparr>]\<rparr>;
         (buf, qlog) =
           (if IsEmpty WallADT \<or> viscousWall then
              (SetZeroWallDistance nIntPoints nInt (VecWallDistanceBoundaryFaces bnd1), qlog0)
            else
              QueryWallDistance DetermineNearestElement WallADT mesh (BoundaryFace iMarker l)
                lag nDOFs (DOFsGridFace (surfElem bnd1 ! l))
                nIntPoints nInt (VecWallDistanceBoundaryFaces bnd1, qlog0))
     in (nIntPoints + nInt, bnd1\<lparr>VecWallDistanceBoundaryFaces := buf\<rparr>, qlog))"

text \<open>Lines 291-362: the body of the loop over the markers.\<close>

definition BoundaryMarkerBody ::
  "NearestElementQuery \<Rightarrow> su2_adtElemClass \<Rightarrow> CConfig \<Rightarrow> nat \<Rightarrow> PopulatorState \<Rightarrow>
   PopulatorState" where
  "BoundaryMarkerBody DetermineNearestElement WallADT config iMarker s =
     (let mesh = thisMesh s; bnd = boundaries mesh ! iMarker in
      if \<not> periodicBoundary bnd then
        let nIntPoints = CountSurfElemIntPoints mesh bnd;
            bnd1 = bnd\<lparr>VecWallDistanceBoundaryFaces :=
                         resize nIntPoints (VecWallDistanceBoundaryFaces bnd)\<rparr>;
            viscousWall = ViscousWall config iMarker;
            (n, bnd2, qlog) =
               fold (SurfElemBody DetermineNearestElement WallADT mesh iMarker viscousWall)
                    [0..<length (surfElem bnd1)] (0, bnd1, queryLog s)
        in s\<lparr>thisMesh := mesh\<lparr>boundaries := (boundaries mesh)[iMarker := bnd2]\<rparr>,
             queryLog := qlog\<rparr>
      else s)"

text \<open>
  Line 290: the loop over the markers of step 5, with its \<^verbatim>\<open>unsigned short\<close> counter.
\<close>

partial_function (option) Step5 ::
  "NearestElementQuery \<Rightarrow> su2_adtElemClass \<Rightarrow> CConfig \<Rightarrow> nat \<Rightarrow> PopulatorState \<Rightarrow>
   PopulatorState option" where
  "Step5 DetermineNearestElement WallADT config iMarker s =
     (if iMarker < length (boundaries (thisMesh s))
      then Step5 DetermineNearestElement WallADT config ((iMarker + 1) mod 65536)
             (BoundaryMarkerBody DetermineNearestElement WallADT config iMarker s)
      else Some s)"

declare Step5.simps [code]

text \<open>
  The function (lines 42-364). The result is the mesh object after the call, together with
  the record of the queries; \<open>None\<close> when the call does not return.
\<close>

definition ComputeWall_Distance ::
  "NearestElementQuery \<Rightarrow> CConfig \<Rightarrow> CMeshFEM_DG \<Rightarrow> PopulatorState option" where
  "ComputeWall_Distance DetermineNearestElement config mesh =
     (case Step1 config mesh of
        None \<Rightarrow> None
      | Some e \<Rightarrow>
          let WallADT = BuildWallADT e;
              s3 = Step3 DetermineNearestElement WallADT \<lparr>thisMesh = this e, queryLog = []\<rparr>;
              s4 = Step4 DetermineNearestElement WallADT s3
          in Step5 DetermineNearestElement WallADT config 0 s4)"

section \<open>What the function computes\<close>

text \<open>
  The definitions of this section describe the results of the loops without the loops: as
  lists built by \<open>map\<close>, \<open>filter\<close> and \<open>concat\<close> from the mesh. The lemmas of the
  next section show that the loops compute them.
\<close>

subsection \<open>Step 1\<close>

text \<open>
  The effect of a piece of step 1 on the local vectors: it flags the mesh points \<open>W\<close> and
  appends \<open>C\<close>, \<open>E\<close>, \<open>V\<close> and \<open>M\<close> to the connectivity, the element IDs, the element
  types and the marker IDs.
\<close>

definition Emit ::
  "nat list \<Rightarrow> nat list \<Rightarrow> nat list \<Rightarrow> nat list \<Rightarrow> nat list \<Rightarrow> ExtractorState \<Rightarrow> ExtractorState" where
  "Emit W C E V M s =
     s\<lparr>meshToSurface := fold (\<lambda>p mts. mts[p := 1]) W (meshToSurface s),
       surfaceConn := surfaceConn s @ C, elemIDs := elemIDs s @ E,
       VTK_TypeElem := VTK_TypeElem s @ V, markerIDs := markerIDs s @ M\<rparr>"

text \<open>The markers step 1 takes its sub-elements from (lines 65-69).\<close>

definition WallMarker :: "CConfig \<Rightarrow> CMeshFEM_DG \<Rightarrow> nat \<Rightarrow> bool" where
  "WallMarker config mesh iMarker \<longleftrightarrow>
     \<not> periodicBoundary (boundaries mesh ! iMarker) \<and> ViscousWall config iMarker"

definition StdFace :: "CMeshFEM_DG \<Rightarrow> CSurfaceElementFEM \<Rightarrow> FEMStandardBoundaryFaceClass" where
  "StdFace mesh e = standardBoundaryFacesGrid mesh ! indStandardElement e"

text \<open>
  What the surface elements of a marker, and of all markers, contribute to a vector when
  element \<open>i\<close> of marker \<open>iMarker\<close> contributes \<open>f iMarker i e\<close>.
\<close>

definition OverWallElems ::
  "CConfig \<Rightarrow> CMeshFEM_DG \<Rightarrow> (nat \<Rightarrow> nat \<Rightarrow> CSurfaceElementFEM \<Rightarrow> 'a list) \<Rightarrow> nat \<Rightarrow> 'a list" where
  "OverWallElems config mesh f iMarker =
     (if WallMarker config mesh iMarker
      then concat (map (\<lambda>i. f iMarker i (surfElem (boundaries mesh ! iMarker) ! i))
                       [0..<length (surfElem (boundaries mesh ! iMarker))])
      else [])"

definition OverWalls ::
  "CConfig \<Rightarrow> CMeshFEM_DG \<Rightarrow> (nat \<Rightarrow> nat \<Rightarrow> CSurfaceElementFEM \<Rightarrow> 'a list) \<Rightarrow> 'a list" where
  "OverWalls config mesh f =
     concat (map (OverWallElems config mesh f) [0..<length (boundaries mesh)])"

text \<open>
  The grid DOFs of a surface element, and the connectivity of its linear sub-faces in terms
  of the mesh points, with the wrap-around of the index \<open>ii\<close>.
\<close>

definition ElemPoints :: "CSurfaceElementFEM \<Rightarrow> nat list" where
  "ElemPoints e = map (\<lambda>j. DOFsGridFace e ! j) [0..<nDOFsGrid e]"

definition ElemConn :: "CMeshFEM_DG \<Rightarrow> CSurfaceElementFEM \<Rightarrow> nat list" where
  "ElemConn mesh e =
     map (\<lambda>t. DOFsGridFace e ! (GetSubFaceConn (StdFace mesh e) ! (t mod 65536)))
         [0..<GetNSubFaces (StdFace mesh e) * GetNDOFsPerSubFace (StdFace mesh e)]"

text \<open>The vectors after the loop over the markers.\<close>

definition WallPoints :: "CConfig \<Rightarrow> CMeshFEM_DG \<Rightarrow> nat list" where
  "WallPoints config mesh = OverWalls config mesh (\<lambda>iMarker i e. ElemPoints e)"

definition WallConn :: "CConfig \<Rightarrow> CMeshFEM_DG \<Rightarrow> nat list" where
  "WallConn config mesh = OverWalls config mesh (\<lambda>iMarker i e. ElemConn mesh e)"

definition WallElemIDs :: "CConfig \<Rightarrow> CMeshFEM_DG \<Rightarrow> nat list" where
  "WallElemIDs config mesh =
     OverWalls config mesh (\<lambda>iMarker i e. replicate (GetNSubFaces (StdFace mesh e)) i)"

definition WallVTK_Types :: "CConfig \<Rightarrow> CMeshFEM_DG \<Rightarrow> nat list" where
  "WallVTK_Types config mesh =
     OverWalls config mesh
       (\<lambda>iMarker i e. replicate (GetNSubFaces (StdFace mesh e)) (GetVTK_Type (StdFace mesh e)))"

definition WallMarkerIDs :: "CConfig \<Rightarrow> CMeshFEM_DG \<Rightarrow> nat list" where
  "WallMarkerIDs config mesh =
     OverWalls config mesh (\<lambda>iMarker i e. replicate (GetNSubFaces (StdFace mesh e)) iMarker)"

text \<open>
  A mesh point is on a wall when the loop over the markers has flagged it. Its local index
  is the number of wall points before it.
\<close>

definition OnWall :: "CConfig \<Rightarrow> CMeshFEM_DG \<Rightarrow> nat \<Rightarrow> bool" where
  "OnWall config mesh p \<longleftrightarrow> p < length (meshPoints mesh) \<and> p \<in> set (WallPoints config mesh)"

definition LocalIndex :: "CConfig \<Rightarrow> CMeshFEM_DG \<Rightarrow> nat \<Rightarrow> nat" where
  "LocalIndex config mesh p = length (filter (OnWall config mesh) [0..<p])"

definition WallPointList :: "CConfig \<Rightarrow> CMeshFEM_DG \<Rightarrow> nat list" where
  "WallPointList config mesh = filter (OnWall config mesh) [0..<length (meshPoints mesh)]"

definition PointCoor :: "CMeshFEM_DG \<Rightarrow> nat \<Rightarrow> real list" where
  "PointCoor mesh p = map (\<lambda>k. coor (meshPoints mesh ! p) ! k) [0..<nDim mesh]"

definition FinalMeshToSurface :: "CConfig \<Rightarrow> CMeshFEM_DG \<Rightarrow> nat list" where
  "FinalMeshToSurface config mesh =
     map (\<lambda>p. if OnWall config mesh p then LocalIndex config mesh p else 0)
         [0..<length (meshPoints mesh)]"

text \<open>The state after step 1.\<close>

definition Step1Result :: "CConfig \<Rightarrow> CMeshFEM_DG \<Rightarrow> ExtractorState" where
  "Step1Result config mesh =
     \<lparr>this = mesh,
      meshToSurface = FinalMeshToSurface config mesh,
      surfaceConn = map (\<lambda>c. FinalMeshToSurface config mesh ! c) (WallConn config mesh),
      elemIDs = WallElemIDs config mesh,
      VTK_TypeElem = WallVTK_Types config mesh,
      markerIDs = WallMarkerIDs config mesh,
      surfaceCoor = concat (map (PointCoor mesh) (WallPointList config mesh)),
      nVertex_SolidWall = length (WallPointList config mesh)\<rparr>"

subsection \<open>Steps 3 to 5\<close>

text \<open>
  The distances of the integration points of one entity, and the queries made for it;
  \<open>zero\<close> is the condition of the zero branch. \<open>PopulateEntity\<close> is the if-then-else
  of lines 174-209 (and 245-279, 325-360).
\<close>

definition EntityDistances ::
  "NearestElementQuery \<Rightarrow> su2_adtElemClass \<Rightarrow> CMeshFEM_DG \<Rightarrow> bool \<Rightarrow> real list \<Rightarrow> nat \<Rightarrow>
   nat list \<Rightarrow> nat \<Rightarrow> real list" where
  "EntityDistances DetermineNearestElement WallADT mesh zero lag nDOFs DOFs nInt =
     (if zero then replicate nInt 0
      else map (\<lambda>i. DetermineNearestElement WallADT (IntegrationPointCoor mesh lag nDOFs DOFs i))
               [0..<nInt])"

definition EntityQueries ::
  "CMeshFEM_DG \<Rightarrow> bool \<Rightarrow> Entity \<Rightarrow> real list \<Rightarrow> nat \<Rightarrow> nat list \<Rightarrow> nat \<Rightarrow> QueryLog" where
  "EntityQueries mesh zero ent lag nDOFs DOFs nInt =
     (if zero then []
      else map (\<lambda>i. (ent, i, IntegrationPointCoor mesh lag nDOFs DOFs i)) [0..<nInt])"

definition PopulateEntity ::
  "NearestElementQuery \<Rightarrow> su2_adtElemClass \<Rightarrow> CMeshFEM_DG \<Rightarrow> bool \<Rightarrow> Entity \<Rightarrow> real list \<Rightarrow>
   nat \<Rightarrow> nat list \<Rightarrow> nat \<Rightarrow> nat \<Rightarrow> real list \<times> QueryLog \<Rightarrow> real list \<times> QueryLog" where
  "PopulateEntity DetermineNearestElement WallADT mesh zero ent lag nDOFs DOFs off nInt bq =
     (if zero then (SetZeroWallDistance off nInt (fst bq), snd bq)
      else QueryWallDistance DetermineNearestElement WallADT mesh ent lag nDOFs DOFs off nInt bq)"

text \<open>
  The owned volume elements: the offset of element \<open>l\<close> in the buffer, its weights, its
  distances and queries, and the elements with the pointers of the first \<open>L\<close> set.
\<close>

definition VolElemOffset :: "CMeshFEM_DG \<Rightarrow> nat \<Rightarrow> nat" where
  "VolElemOffset mesh l = sum_list (map (VolElemNInt mesh) [0..<l])"

definition VolElemLag :: "CMeshFEM_DG \<Rightarrow> nat \<Rightarrow> real list" where
  "VolElemLag mesh l =
     GetBasisFunctionsIntegration
       (standardElementsGrid mesh ! elem_indStandardElement (volElem mesh ! l))"

definition VolElemDistances ::
  "NearestElementQuery \<Rightarrow> su2_adtElemClass \<Rightarrow> CMeshFEM_DG \<Rightarrow> nat \<Rightarrow> real list" where
  "VolElemDistances DetermineNearestElement WallADT mesh l =
     EntityDistances DetermineNearestElement WallADT mesh (IsEmpty WallADT) (VolElemLag mesh l)
       (elem_nDOFsGrid (volElem mesh ! l)) (nodeIDsGrid (volElem mesh ! l)) (VolElemNInt mesh l)"

definition VolElemQueries :: "su2_adtElemClass \<Rightarrow> CMeshFEM_DG \<Rightarrow> nat \<Rightarrow> QueryLog" where
  "VolElemQueries WallADT mesh l =
     EntityQueries mesh (IsEmpty WallADT) (VolumeElement l) (VolElemLag mesh l)
       (elem_nDOFsGrid (volElem mesh ! l)) (nodeIDsGrid (volElem mesh ! l)) (VolElemNInt mesh l)"

definition VolElemPointers :: "CMeshFEM_DG \<Rightarrow> nat \<Rightarrow> CVolumeElementFEM list" where
  "VolElemPointers mesh L =
     map (\<lambda>l. if l < L then (volElem mesh ! l)\<lparr>elem_wallDistance := Some (VolElemOffset mesh l)\<rparr>
              else volElem mesh ! l)
         [0..<length (volElem mesh)]"

text \<open>The same for the internal matching faces.\<close>

definition MatchingFaceOffset :: "CMeshFEM_DG \<Rightarrow> nat \<Rightarrow> nat" where
  "MatchingFaceOffset mesh l = sum_list (map (MatchingFaceNInt mesh) [0..<l])"

definition MatchingFaceStd :: "CMeshFEM_DG \<Rightarrow> nat \<Rightarrow> FEMStandardInternalFaceClass" where
  "MatchingFaceStd mesh l =
     standardMatchingFacesGrid mesh ! face_indStandardElement (matchingFaces mesh ! l)"

definition MatchingFaceDistances ::
  "NearestElementQuery \<Rightarrow> su2_adtElemClass \<Rightarrow> CMeshFEM_DG \<Rightarrow> nat \<Rightarrow> real list" where
  "MatchingFaceDistances DetermineNearestElement WallADT mesh l =
     EntityDistances DetermineNearestElement WallADT mesh (IsEmpty WallADT)
       (GetBasisFaceIntegrationSide0 (MatchingFaceStd mesh l))
       (GetNDOFsFaceSide0 (MatchingFaceStd mesh l))
       (DOFsGridFaceSide0 (matchingFaces mesh ! l)) (MatchingFaceNInt mesh l)"

definition MatchingFaceQueries :: "su2_adtElemClass \<Rightarrow> CMeshFEM_DG \<Rightarrow> nat \<Rightarrow> QueryLog" where
  "MatchingFaceQueries WallADT mesh l =
     EntityQueries mesh (IsEmpty WallADT) (MatchingFace l)
       (GetBasisFaceIntegrationSide0 (MatchingFaceStd mesh l))
       (GetNDOFsFaceSide0 (MatchingFaceStd mesh l))
       (DOFsGridFaceSide0 (matchingFaces mesh ! l)) (MatchingFaceNInt mesh l)"

definition MatchingFacePointers :: "CMeshFEM_DG \<Rightarrow> nat \<Rightarrow> CInternalFaceElementFEM list" where
  "MatchingFacePointers mesh L =
     map (\<lambda>l. if l < L
              then (matchingFaces mesh ! l)\<lparr>face_wallDistance := Some (MatchingFaceOffset mesh l)\<rparr>
              else matchingFaces mesh ! l)
         [0..<length (matchingFaces mesh)]"

text \<open>
  The same for the faces of a boundary \<open>bnd\<close>, and the boundary of a marker after step 5
  with the queries made for it.
\<close>

definition SurfElemOffset :: "CMeshFEM_DG \<Rightarrow> CBoundaryFEM \<Rightarrow> nat \<Rightarrow> nat" where
  "SurfElemOffset mesh bnd l = sum_list (map (SurfElemNInt mesh bnd) [0..<l])"

definition SurfElemLag :: "CMeshFEM_DG \<Rightarrow> CBoundaryFEM \<Rightarrow> nat \<Rightarrow> real list" where
  "SurfElemLag mesh bnd l =
     GetBasisFaceIntegration
       (standardBoundaryFacesGrid mesh ! indStandardElement (surfElem bnd ! l))"

definition SurfElemDistances ::
  "NearestElementQuery \<Rightarrow> su2_adtElemClass \<Rightarrow> CMeshFEM_DG \<Rightarrow> bool \<Rightarrow> CBoundaryFEM \<Rightarrow> nat \<Rightarrow>
   real list" where
  "SurfElemDistances DetermineNearestElement WallADT mesh zero bnd l =
     EntityDistances DetermineNearestElement WallADT mesh zero (SurfElemLag mesh bnd l)
       (nDOFsGrid (surfElem bnd ! l)) (DOFsGridFace (surfElem bnd ! l)) (SurfElemNInt mesh bnd l)"

definition SurfElemQueries ::
  "CMeshFEM_DG \<Rightarrow> nat \<Rightarrow> bool \<Rightarrow> CBoundaryFEM \<Rightarrow> nat \<Rightarrow> QueryLog" where
  "SurfElemQueries mesh iMarker zero bnd l =
     EntityQueries mesh zero (BoundaryFace iMarker l) (SurfElemLag mesh bnd l)
       (nDOFsGrid (surfElem bnd ! l)) (DOFsGridFace (surfElem bnd ! l)) (SurfElemNInt mesh bnd l)"

definition SurfElemPointers :: "CMeshFEM_DG \<Rightarrow> CBoundaryFEM \<Rightarrow> nat \<Rightarrow> CSurfaceElementFEM list" where
  "SurfElemPointers mesh bnd L =
     map (\<lambda>l. if l < L
              then (surfElem bnd ! l)\<lparr>wallDistance := Some (SurfElemOffset mesh bnd l)\<rparr>
              else surfElem bnd ! l)
         [0..<length (surfElem bnd)]"

definition ZeroBoundary :: "su2_adtElemClass \<Rightarrow> CConfig \<Rightarrow> nat \<Rightarrow> bool" where
  "ZeroBoundary WallADT config iMarker \<longleftrightarrow> IsEmpty WallADT \<or> ViscousWall config iMarker"

definition BoundaryResult ::
  "NearestElementQuery \<Rightarrow> su2_adtElemClass \<Rightarrow> CConfig \<Rightarrow> CMeshFEM_DG \<Rightarrow> nat \<Rightarrow> CBoundaryFEM" where
  "BoundaryResult DetermineNearestElement WallADT config mesh iMarker =
     (let bnd = boundaries mesh ! iMarker in
      if periodicBoundary bnd then bnd
      else bnd\<lparr>surfElem := SurfElemPointers mesh bnd (length (surfElem bnd)),
               VecWallDistanceBoundaryFaces :=
                 concat (map (SurfElemDistances DetermineNearestElement WallADT mesh
                                (ZeroBoundary WallADT config iMarker) bnd)
                             [0..<length (surfElem bnd)])\<rparr>)"

definition BoundaryQueries ::
  "su2_adtElemClass \<Rightarrow> CConfig \<Rightarrow> CMeshFEM_DG \<Rightarrow> nat \<Rightarrow> QueryLog" where
  "BoundaryQueries WallADT config mesh iMarker =
     (let bnd = boundaries mesh ! iMarker in
      if periodicBoundary bnd then []
      else concat (map (SurfElemQueries mesh iMarker (ZeroBoundary WallADT config iMarker) bnd)
                       [0..<length (surfElem bnd)]))"

text \<open>The tree of step 2 and the state after the call.\<close>

definition WallADT_of :: "CConfig \<Rightarrow> CMeshFEM_DG \<Rightarrow> su2_adtElemClass" where
  "WallADT_of config mesh = BuildWallADT (Step1Result config mesh)"

definition ComputeWall_DistanceResult ::
  "NearestElementQuery \<Rightarrow> CConfig \<Rightarrow> CMeshFEM_DG \<Rightarrow> PopulatorState" where
  "ComputeWall_DistanceResult DetermineNearestElement config mesh =
     (let WallADT = WallADT_of config mesh in
      \<lparr>thisMesh = mesh
         \<lparr>volElem := VolElemPointers mesh (nVolElemOwned mesh),
          VecWallDistanceElements :=
            concat (map (VolElemDistances DetermineNearestElement WallADT mesh)
                        [0..<nVolElemOwned mesh]),
          matchingFaces := MatchingFacePointers mesh (length (matchingFaces mesh)),
          VecWallDistanceInternalMatchingFaces :=
            concat (map (MatchingFaceDistances DetermineNearestElement WallADT mesh)
                        [0..<length (matchingFaces mesh)]),
          boundaries :=
            map (BoundaryResult DetermineNearestElement WallADT config mesh)
                [0..<length (boundaries mesh)]\<rparr>,
       queryLog =
         concat (map (VolElemQueries WallADT mesh) [0..<nVolElemOwned mesh]) @
         concat (map (MatchingFaceQueries WallADT mesh) [0..<length (matchingFaces mesh)]) @
         concat (map (BoundaryQueries WallADT config mesh) [0..<length (boundaries mesh)])\<rparr>)"

subsection \<open>Reading a wall distance\<close>

text \<open>
  \<^verbatim>\<open>wallDistance[i]\<close> read through the pointer of an entity: \<open>None\<close> when the pointer
  is not set or points outside the buffer. \<open>FromBoundary\<close> holds for the queries made for
  the faces of a marker.
\<close>

definition WallDistanceAt :: "real list \<Rightarrow> nat option \<Rightarrow> nat \<Rightarrow> real option" where
  "WallDistanceAt buf ptr i =
     (case ptr of
        None \<Rightarrow> None
      | Some off \<Rightarrow> if off + i < length buf then Some (buf ! (off + i)) else None)"

definition VolElemWallDistance :: "CMeshFEM_DG \<Rightarrow> nat \<Rightarrow> nat \<Rightarrow> real option" where
  "VolElemWallDistance mesh l i =
     WallDistanceAt (VecWallDistanceElements mesh) (elem_wallDistance (volElem mesh ! l)) i"

definition MatchingFaceWallDistance :: "CMeshFEM_DG \<Rightarrow> nat \<Rightarrow> nat \<Rightarrow> real option" where
  "MatchingFaceWallDistance mesh l i =
     WallDistanceAt (VecWallDistanceInternalMatchingFaces mesh)
       (face_wallDistance (matchingFaces mesh ! l)) i"

definition SurfElemWallDistance :: "CMeshFEM_DG \<Rightarrow> nat \<Rightarrow> nat \<Rightarrow> nat \<Rightarrow> real option" where
  "SurfElemWallDistance mesh iMarker l i =
     WallDistanceAt (VecWallDistanceBoundaryFaces (boundaries mesh ! iMarker))
       (wallDistance (surfElem (boundaries mesh ! iMarker) ! l)) i"

definition FromBoundary :: "nat \<Rightarrow> Entity \<Rightarrow> bool" where
  "FromBoundary iMarker ent = (case ent of BoundaryFace m l \<Rightarrow> m = iMarker | _ \<Rightarrow> False)"

subsection \<open>Example meshes\<close>

text \<open>
  A channel of two quadrilaterals of degree 1: the points 0, 1, 2 at \<open>y = 0\<close> and
  3, 4, 5 at \<open>y = 1\<close>. Marker 0 is the lower side, marker 1 the upper side, markers 2 and
  3 are the periodic left and right sides, marker 4 has no face on this mesh. In
  \<open>WallConfig\<close> the lower side is a heat-flux wall and marker 4 an isothermal wall; in
  \<open>NoWallConfig\<close> there is no wall; in \<open>PeriodicWallConfig\<close> the periodic marker 2 has
  the kind of a wall. \<open>ExampleQuery\<close> is the distance to the lower side.
\<close>

definition LineFace :: FEMStandardBoundaryFaceClass where
  "LineFace =
     \<lparr>GetVTK_Type = 3, GetNSubFaces = 1, GetNDOFsPerSubFace = 2, GetSubFaceConn = [0, 1],
      GetNIntegration = 2, GetBasisFaceIntegration = [3/4, 1/4, 1/4, 3/4]\<rparr>"

definition ChannelMesh :: CMeshFEM_DG where
  "ChannelMesh =
     \<lparr>nDim = 2,
      meshPoints = [\<lparr>coor = [0, 0]\<rparr>, \<lparr>coor = [1, 0]\<rparr>, \<lparr>coor = [2, 0]\<rparr>,
                    \<lparr>coor = [0, 1]\<rparr>, \<lparr>coor = [1, 1]\<rparr>, \<lparr>coor = [2, 1]\<rparr>],
      boundaries =
        [\<lparr>periodicBoundary = False,
          surfElem = [\<lparr>indStandardElement = 0, nDOFsGrid = 2, DOFsGridFace = [0, 1],
                       wallDistance = None\<rparr>,
                      \<lparr>indStandardElement = 0, nDOFsGrid = 2, DOFsGridFace = [1, 2],
                       wallDistance = None\<rparr>],
          VecWallDistanceBoundaryFaces = []\<rparr>,
         \<lparr>periodicBoundary = False,
          surfElem = [\<lparr>indStandardElement = 0, nDOFsGrid = 2, DOFsGridFace = [3, 4],
                       wallDistance = None\<rparr>,
                      \<lparr>indStandardElement = 0, nDOFsGrid = 2, DOFsGridFace = [4, 5],
                       wallDistance = None\<rparr>],
          VecWallDistanceBoundaryFaces = []\<rparr>,
         \<lparr>periodicBoundary = True,
          surfElem = [\<lparr>indStandardElement = 0, nDOFsGrid = 2, DOFsGridFace = [0, 3],
                       wallDistance = None\<rparr>],
          VecWallDistanceBoundaryFaces = []\<rparr>,
         \<lparr>periodicBoundary = True,
          surfElem = [\<lparr>indStandardElement = 0, nDOFsGrid = 2, DOFsGridFace = [2, 5],
                       wallDistance = None\<rparr>],
          VecWallDistanceBoundaryFaces = []\<rparr>,
         \<lparr>periodicBoundary = False, surfElem = [], VecWallDistanceBoundaryFaces = []\<rparr>],
      standardBoundaryFacesGrid = [LineFace],
      standardElementsGrid =
        [\<lparr>elem_GetNIntegration = 1,
          GetBasisFunctionsIntegration = [1/4, 1/4, 1/4, 1/4]\<rparr>],
      standardMatchingFacesGrid =
        [\<lparr>face_GetNIntegration = 1, GetNDOFsFaceSide0 = 2,
          GetBasisFaceIntegrationSide0 = [1/2, 1/2]\<rparr>],
      nVolElemOwned = 2,
      volElem = [\<lparr>elem_indStandardElement = 0, elem_nDOFsGrid = 4, nodeIDsGrid = [0, 1, 3, 4],
                  elem_wallDistance = None\<rparr>,
                 \<lparr>elem_indStandardElement = 0, elem_nDOFsGrid = 4, nodeIDsGrid = [1, 2, 4, 5],
                  elem_wallDistance = None\<rparr>],
      matchingFaces = [\<lparr>face_indStandardElement = 0, DOFsGridFaceSide0 = [1, 4],
                        face_wallDistance = None\<rparr>],
      VecWallDistanceElements = [],
      VecWallDistanceInternalMatchingFaces = []\<rparr>"

definition WallConfig :: CConfig where
  "WallConfig =
     \<lparr>Marker_All_KindBC = (\<lambda>iMarker. if iMarker = 0 then HEAT_FLUX
                                    else if iMarker = 4 then ISOTHERMAL
                                    else OTHER_BC iMarker)\<rparr>"

definition NoWallConfig :: CConfig where
  "NoWallConfig = \<lparr>Marker_All_KindBC = OTHER_BC\<rparr>"

definition PeriodicWallConfig :: CConfig where
  "PeriodicWallConfig =
     \<lparr>Marker_All_KindBC = (\<lambda>iMarker. if iMarker = 2 then HEAT_FLUX else OTHER_BC iMarker)\<rparr>"

definition ExampleQuery :: NearestElementQuery where
  "ExampleQuery WallADT x = \<bar>x ! 1\<bar>"

subsection \<open>Slices of a buffer\<close>

text \<open>
  The entities with the integration-point counts \<open>counts\<close> and the pointers \<open>ptrs\<close> tile
  a buffer of length \<open>len\<close>: the length is the sum of the counts, every pointer is the sum
  of the counts before it, two slices do not overlap, and every entry is in a slice.
\<close>

definition SlicesTile :: "nat list \<Rightarrow> nat option list \<Rightarrow> nat \<Rightarrow> bool" where
  "SlicesTile counts ptrs len \<longleftrightarrow>
     length ptrs = length counts \<and> len = sum_list counts \<and>
     (\<forall>l<length counts. ptrs ! l = Some (sum_list (take l counts))) \<and>
     (\<forall>l<length counts. \<forall>k<l. \<forall>a b.
        ptrs ! k = Some a \<and> ptrs ! l = Some b \<longrightarrow> a + counts ! k \<le> b) \<and>
     (\<forall>x<len. \<exists>l<length counts. \<exists>a. ptrs ! l = Some a \<and> a \<le> x \<and> x < a + counts ! l)"

subsection \<open>Well-formed wall elements\<close>

text \<open>
  What lines 77 and 96 need to read inside their arrays: the element has \<open>nDOFsGrid\<close> grid
  DOFs, they are mesh points, its standard face exists, and every entry of the sub-face
  connectivity the loops read is a local index of the element.
\<close>

definition WellFormedSurfElem :: "CMeshFEM_DG \<Rightarrow> CSurfaceElementFEM \<Rightarrow> bool" where
  "WellFormedSurfElem mesh e \<longleftrightarrow>
     nDOFsGrid e \<le> length (DOFsGridFace e) \<and>
     (\<forall>j<nDOFsGrid e. DOFsGridFace e ! j < length (meshPoints mesh)) \<and>
     indStandardElement e < length (standardBoundaryFacesGrid mesh) \<and>
     (\<forall>t<GetNSubFaces (StdFace mesh e) * GetNDOFsPerSubFace (StdFace mesh e).
        t mod 65536 < length (GetSubFaceConn (StdFace mesh e)) \<and>
        GetSubFaceConn (StdFace mesh e) ! (t mod 65536) < nDOFsGrid e)"

definition WellFormedWalls :: "CConfig \<Rightarrow> CMeshFEM_DG \<Rightarrow> bool" where
  "WellFormedWalls config mesh \<longleftrightarrow>
     (\<forall>iMarker<length (boundaries mesh).
        WallMarker config mesh iMarker \<longrightarrow>
        (\<forall>e \<in> set (surfElem (boundaries mesh ! iMarker)). WellFormedSurfElem mesh e))"

text \<open>
  A wall of one quadratic line element (grid DOFs 0, 1, 2, the middle one lifted) whose
  standard face has one linear sub-face, between its end points.
\<close>

definition CoarseLineFace :: FEMStandardBoundaryFaceClass where
  "CoarseLineFace =
     \<lparr>GetVTK_Type = 3, GetNSubFaces = 1, GetNDOFsPerSubFace = 2, GetSubFaceConn = [0, 2],
      GetNIntegration = 2, GetBasisFaceIntegration = [1/2, 1/4, 1/4, 1/4, 1/4, 1/2]\<rparr>"

definition CoarseWallMesh :: CMeshFEM_DG where
  "CoarseWallMesh =
     \<lparr>nDim = 2,
      meshPoints = [\<lparr>coor = [0, 0]\<rparr>, \<lparr>coor = [1/2, 1/10]\<rparr>, \<lparr>coor = [1, 0]\<rparr>],
      boundaries =
        [\<lparr>periodicBoundary = False,
          surfElem = [\<lparr>indStandardElement = 0, nDOFsGrid = 3, DOFsGridFace = [0, 1, 2],
                       wallDistance = None\<rparr>],
          VecWallDistanceBoundaryFaces = []\<rparr>],
      standardBoundaryFacesGrid = [CoarseLineFace],
      standardElementsGrid = [],
      standardMatchingFacesGrid = [],
      nVolElemOwned = 0,
      volElem = [],
      matchingFaces = [],
      VecWallDistanceElements = [],
      VecWallDistanceInternalMatchingFaces = []\<rparr>"

text \<open>
  One hexahedron of degree 5 (216 grid DOFs, 512 integration points) on top of a wall
  face. The weights of integration point \<open>i\<close> are 1 for node \<open>i mod 216\<close> and 0 for the
  other nodes, so the weights of every integration point sum to 1; node \<open>p\<close> is at
  \<open>[1 + p, 2, 3]\<close>.
\<close>

definition HexLag :: "real list" where
  "HexLag = map (\<lambda>t. if t mod 216 = (t div 216) mod 216 then 1 else 0) [0..<512 * 216]"

definition HexMesh :: CMeshFEM_DG where
  "HexMesh =
     \<lparr>nDim = 3,
      meshPoints = map (\<lambda>p. \<lparr>coor = [1 + real p, 2, 3]\<rparr>) [0..<216],
      boundaries =
        [\<lparr>periodicBoundary = False,
          surfElem = [\<lparr>indStandardElement = 0, nDOFsGrid = 4, DOFsGridFace = [0, 1, 6, 7],
                       wallDistance = None\<rparr>],
          VecWallDistanceBoundaryFaces = []\<rparr>],
      standardBoundaryFacesGrid =
        [\<lparr>GetVTK_Type = 9, GetNSubFaces = 1, GetNDOFsPerSubFace = 4,
          GetSubFaceConn = [0, 1, 3, 2], GetNIntegration = 1,
          GetBasisFaceIntegration = [1/4, 1/4, 1/4, 1/4]\<rparr>],
      standardElementsGrid =
        [\<lparr>elem_GetNIntegration = 512, GetBasisFunctionsIntegration = HexLag\<rparr>],
      standardMatchingFacesGrid = [],
      nVolElemOwned = 1,
      volElem = [\<lparr>elem_indStandardElement = 0, elem_nDOFsGrid = 216, nodeIDsGrid = [0..<216],
                  elem_wallDistance = None\<rparr>],
      matchingFaces = [],
      VecWallDistanceElements = [],
      VecWallDistanceInternalMatchingFaces = []\<rparr>"

section \<open>The loops in closed form\<close>

subsection \<open>Step 1\<close>

lemma fold_upt_Suc: "fold f [0..<Suc n] s = f n (fold f [0..<n] s)"
  by simp

lemma map_upt_add: "map f [0..<a + b] = map f [0..<a] @ map (\<lambda>k. f (a + k)) [0..<b]"
proof -
  have "[a..<a + b] = map (\<lambda>k. a + k) [0..<b]"
    using map_add_upt [of a b] by (simp add: add.commute)
  then show ?thesis
    by (simp add: upt_add_eq_append [of 0 a b] o_def)
qed

lemma Emit_nothing: "Emit [] [] [] [] [] s = s"
  by (simp add: Emit_def)

lemma Emit_Emit:
  "Emit W2 C2 E2 V2 M2 (Emit W1 C1 E1 V1 M1 s) =
   Emit (W1 @ W2) (C1 @ C2) (E1 @ E2) (V1 @ V2) (M1 @ M2) s"
  by (simp add: Emit_def)

lemma this_Emit: "this (Emit W C E V M s) = this s"
  by (simp add: Emit_def)

lemma fold_Emit:
  assumes "\<And>x s. this s = mesh \<Longrightarrow> f x s = Emit (W x) (C x) (E x) (V x) (M x) s"
    and "this s = mesh"
  shows "fold f xs s =
         Emit (concat (map W xs)) (concat (map C xs)) (concat (map E xs))
              (concat (map V xs)) (concat (map M xs)) s"
  using assms(2)
proof (induction xs arbitrary: s)
  case Nil
  then show ?case by (simp add: Emit_nothing)
next
  case (Cons x xs)
  have "this (Emit (W x) (C x) (E x) (V x) (M x) s) = mesh"
    using Cons.prems by (simp add: this_Emit)
  then show ?case
    using Cons.IH [of "Emit (W x) (C x) (E x) (V x) (M x) s"] Cons.prems
    by (simp add: assms(1) Emit_Emit)
qed

lemma concat_map_Nil: "concat (map (\<lambda>x. []) xs) = []"
  by (induction xs) simp_all

lemma FlagDOFs_Emit: "FlagDOFs e s = Emit (ElemPoints e) [] [] [] [] s"
proof -
  have "fold (FlagDOF e) xs s =
        Emit (concat (map (\<lambda>j. [DOFsGridFace e ! j]) xs)) (concat (map (\<lambda>j. []) xs))
          (concat (map (\<lambda>j. []) xs)) (concat (map (\<lambda>j. []) xs)) (concat (map (\<lambda>j. []) xs)) s" for xs
    by (rule fold_Emit [where mesh = "this s"]) (simp_all add: FlagDOF_def Emit_def)
  then show ?thesis
    by (simp add: FlagDOFs_def ElemPoints_def concat_map_singleton concat_map_Nil)
qed

lemma PushSubFaceDOFs_Emit:
  "ii < 65536 \<Longrightarrow>
   fold (PushSubFaceDOF e conn) [0..<n] (ii, s) =
     ((ii + n) mod 65536,
      Emit [] (map (\<lambda>k. DOFsGridFace e ! (conn ! ((ii + k) mod 65536))) [0..<n]) [] [] [] s)"
proof (induction n)
  case 0
  then show ?case by (simp add: Emit_nothing)
next
  case (Suc n)
  then show ?case
    by (simp add: Emit_def mod_Suc_eq)
qed

lemma PushSubFaces_Emit:
  "PushSubFaces iMarker i e std s =
     Emit [] (map (\<lambda>t. DOFsGridFace e ! (GetSubFaceConn std ! (t mod 65536)))
                  [0..<GetNSubFaces std * GetNDOFsPerSubFace std])
          (replicate (GetNSubFaces std) i) (replicate (GetNSubFaces std) (GetVTK_Type std))
          (replicate (GetNSubFaces std) iMarker) s"
proof -
  have "fold (PushSubFace iMarker i e std) [0..<n] (0, s) =
        ((n * GetNDOFsPerSubFace std) mod 65536,
         Emit [] (map (\<lambda>t. DOFsGridFace e ! (GetSubFaceConn std ! (t mod 65536)))
                      [0..<n * GetNDOFsPerSubFace std])
              (replicate n i) (replicate n (GetVTK_Type std)) (replicate n iMarker) s)" for n
  proof (induction n)
    case 0
    then show ?case by (simp add: Emit_nothing)
  next
    case (Suc n)
    have step: "fold (PushSubFaceDOF e (GetSubFaceConn std)) [0..<GetNDOFsPerSubFace std]
            ((n * GetNDOFsPerSubFace std) mod 65536, s') =
          (((n * GetNDOFsPerSubFace std) mod 65536 + GetNDOFsPerSubFace std) mod 65536,
           Emit [] (map (\<lambda>k. DOFsGridFace e ! (GetSubFaceConn std !
                      (((n * GetNDOFsPerSubFace std) mod 65536 + k) mod 65536)))
              [0..<GetNDOFsPerSubFace std]) [] [] [] s')" for s'
      by (rule PushSubFaceDOFs_Emit) simp
    have app: "Emit [] C [] [] [] (s'\<lparr>markerIDs := markerIDs s' @ [iMarker],
                 VTK_TypeElem := VTK_TypeElem s' @ [GetVTK_Type std],
                 elemIDs := elemIDs s' @ [i]\<rparr>) = Emit [] C [i] [GetVTK_Type std] [iMarker] s'" for C s'
      by (simp add: Emit_def)
    have idx: "((n * GetNDOFsPerSubFace std) mod 65536 + k) mod 65536 =
               (n * GetNDOFsPerSubFace std + k) mod 65536" for k
      by (rule mod_add_left_eq)
    have upt: "map g [0..<Suc n * GetNDOFsPerSubFace std] =
               map g [0..<n * GetNDOFsPerSubFace std] @
               map (\<lambda>k. g (n * GetNDOFsPerSubFace std + k)) [0..<GetNDOFsPerSubFace std]" for g :: "nat \<Rightarrow> nat"
      using map_upt_add [of g "n * GetNDOFsPerSubFace std" "GetNDOFsPerSubFace std"]
      by (simp add: add.commute)
    have rep: "replicate n x @ [x] = replicate (Suc n) x" for x :: nat
      by (simp add: replicate_append_same)
    show ?case
      unfolding fold_upt_Suc Suc.IH PushSubFace.simps step app Emit_Emit idx upt rep
      by (simp only: append_Nil mult_Suc add.commute)
  qed
  then show ?thesis by (simp add: PushSubFaces_def)
qed

lemma ExtractSurfElem_Emit:
  "this s = mesh \<Longrightarrow> e = surfElem (boundaries mesh ! iMarker) ! i \<Longrightarrow>
   ExtractSurfElem iMarker i s =
      Emit (ElemPoints e) (ElemConn mesh e)
        (replicate (GetNSubFaces (StdFace mesh e)) i)
        (replicate (GetNSubFaces (StdFace mesh e)) (GetVTK_Type (StdFace mesh e)))
        (replicate (GetNSubFaces (StdFace mesh e)) iMarker) s"
  by (simp add: ExtractSurfElem_def Let_def FlagDOFs_Emit PushSubFaces_Emit Emit_Emit this_Emit
      ElemConn_def StdFace_def)

lemma ExtractMarker_Emit:
  assumes "this s = mesh"
  shows "ExtractMarker config iMarker s =
     Emit (OverWallElems config mesh (\<lambda>iMarker i e. ElemPoints e) iMarker)
          (OverWallElems config mesh (\<lambda>iMarker i e. ElemConn mesh e) iMarker)
          (OverWallElems config mesh
             (\<lambda>iMarker i e. replicate (GetNSubFaces (StdFace mesh e)) i) iMarker)
          (OverWallElems config mesh
             (\<lambda>iMarker i e. replicate (GetNSubFaces (StdFace mesh e))
                               (GetVTK_Type (StdFace mesh e))) iMarker)
          (OverWallElems config mesh
             (\<lambda>iMarker i e. replicate (GetNSubFaces (StdFace mesh e)) iMarker) iMarker) s"
proof (cases "WallMarker config mesh iMarker")
  case True
  have "fold (ExtractSurfElem iMarker) xs s =
        Emit (concat (map (\<lambda>i. ElemPoints (surfElem (boundaries mesh ! iMarker) ! i)) xs))
          (concat (map (\<lambda>i. ElemConn mesh (surfElem (boundaries mesh ! iMarker) ! i)) xs))
          (concat (map (\<lambda>i. replicate (GetNSubFaces (StdFace mesh
                                (surfElem (boundaries mesh ! iMarker) ! i))) i) xs))
          (concat (map (\<lambda>i. replicate (GetNSubFaces (StdFace mesh
                                (surfElem (boundaries mesh ! iMarker) ! i)))
                              (GetVTK_Type (StdFace mesh
                                (surfElem (boundaries mesh ! iMarker) ! i)))) xs))
          (concat (map (\<lambda>i. replicate (GetNSubFaces (StdFace mesh
                                (surfElem (boundaries mesh ! iMarker) ! i))) iMarker) xs)) s" for xs
    by (rule fold_Emit [where mesh = mesh]) (simp_all add: ExtractSurfElem_Emit assms)
  with True show ?thesis
    using assms by (simp add: ExtractMarker_def OverWallElems_def WallMarker_def)
next
  case False
  then show ?thesis
    using assms by (auto simp add: ExtractMarker_def OverWallElems_def WallMarker_def Emit_nothing)
qed

lemma this_ExtractMarker: "this (ExtractMarker config iMarker s) = this s"
  by (simp add: ExtractMarker_Emit [OF refl] this_Emit)

lemma fold_ExtractMarker:
  assumes "this s = mesh"
  shows "fold (ExtractMarker config) [0..<length (boundaries mesh)] s =
         Emit (WallPoints config mesh) (WallConn config mesh) (WallElemIDs config mesh)
              (WallVTK_Types config mesh) (WallMarkerIDs config mesh) s"
  unfolding WallPoints_def WallConn_def WallElemIDs_def WallVTK_Types_def WallMarkerIDs_def
    OverWalls_def
  by (rule fold_Emit [where mesh = mesh]) (simp_all add: ExtractMarker_Emit assms)

lemma this_fold_ExtractMarker: "this (fold (ExtractMarker config) xs s) = this s"
  by (induction xs arbitrary: s) (simp_all add: this_ExtractMarker)

lemma ExtractMarkers_fold:
  assumes "length (boundaries (this s)) \<le> 65535"
    and "iMarker \<le> length (boundaries (this s))"
  shows "ExtractMarkers config iMarker s =
         Some (fold (ExtractMarker config) [iMarker..<length (boundaries (this s))] s)"
  using assms
proof (induction "length (boundaries (this s)) - iMarker" arbitrary: iMarker s)
  case 0
  then show ?case
    by (subst ExtractMarkers.simps) simp
next
  case (Suc d)
  from Suc.hyps(2) have lt: "iMarker < length (boundaries (this s))" by simp
  with Suc.prems have wrap: "Suc iMarker mod 65536 = Suc iMarker" by simp
  have "ExtractMarkers config (Suc iMarker) (ExtractMarker config iMarker s) =
        Some (fold (ExtractMarker config)
                [Suc iMarker..<length (boundaries (this (ExtractMarker config iMarker s)))]
                (ExtractMarker config iMarker s))"
    using Suc.hyps(2) Suc.prems lt
    by (intro Suc.hyps(1)) (simp_all add: this_ExtractMarker)
  then show ?case
    using lt by (subst ExtractMarkers.simps) (simp add: wrap this_ExtractMarker upt_conv_Cons)
qed

lemma fold_flag_length: "length (fold (\<lambda>p mts. mts[p := v]) W mts) = length mts"
  by (induction W arbitrary: mts) simp_all

lemma fold_flag_nth:
  "q < length mts \<Longrightarrow>
   fold (\<lambda>p mts. mts[p := v]) W mts ! q = (if q \<in> set W then v else mts ! q)"
  by (induction W arbitrary: mts) (auto simp add: nth_list_update)

lemma fold_PushCoor_upto:
  "fold (PushCoor i) [0..<d] s =
   s\<lparr>surfaceCoor := surfaceCoor s @ map (\<lambda>k. coor (meshPoints (this s) ! i) ! k) [0..<d]\<rparr>"
  by (induction d) (simp_all add: PushCoor_def)

lemma fold_PushCoor:
  "this s = mesh \<Longrightarrow>
   fold (PushCoor i) [0..<nDim mesh] s = s\<lparr>surfaceCoor := surfaceCoor s @ PointCoor mesh i\<rparr>"
  by (simp add: fold_PushCoor_upto PointCoor_def)

lemma fold_NumberWallPoint:
  assumes "length (meshToSurface s) = length (meshPoints (this s))"
    and "nVertex_SolidWall s = 0" and "surfaceCoor s = []"
    and "n \<le> length (meshPoints (this s))"
  shows "fold NumberWallPoint [0..<n] s =
         s\<lparr>meshToSurface :=
             map (\<lambda>p. if p < n \<and> meshToSurface s ! p \<noteq> 0
                      then length (filter (\<lambda>q. meshToSurface s ! q \<noteq> 0) [0..<p])
                      else meshToSurface s ! p) [0..<length (meshPoints (this s))],
           surfaceCoor :=
             concat (map (PointCoor (this s)) (filter (\<lambda>q. meshToSurface s ! q \<noteq> 0) [0..<n])),
           nVertex_SolidWall := length (filter (\<lambda>q. meshToSurface s ! q \<noteq> 0) [0..<n])\<rparr>"
  using assms(4)
proof (induction n)
  case 0
  have "map (\<lambda>p. meshToSurface s ! p) [0..<length (meshPoints (this s))] = meshToSurface s"
    using assms(1) map_nth [of "meshToSurface s"] by simp
  then show ?case using assms(2,3) by simp
next
  case (Suc n)
  define F where "F = meshToSurface s"
  define N where "N = length (meshPoints (this s))"
  let ?rk = "\<lambda>p. length (filter (\<lambda>q. F ! q \<noteq> 0) [0..<p])"
  have n: "n < N" using Suc.prems by (simp add: N_def)
  have upd: "(map (\<lambda>p. if p < n \<and> F ! p \<noteq> 0 then ?rk p else F ! p) [0..<N])[n := ?rk n] =
             map (\<lambda>p. if p < Suc n \<and> F ! p \<noteq> 0 then ?rk p else F ! p) [0..<N]"
    if "F ! n \<noteq> 0"
    using that n by (intro nth_equalityI) (auto simp add: nth_list_update less_Suc_eq)
  have same: "map (\<lambda>p. if p < n \<and> F ! p \<noteq> 0 then ?rk p else F ! p) [0..<N] =
              map (\<lambda>p. if p < Suc n \<and> F ! p \<noteq> 0 then ?rk p else F ! p) [0..<N]"
    if "F ! n = 0"
    using that by (auto simp add: less_Suc_eq)
  have IH: "fold NumberWallPoint [0..<n] s =
         s\<lparr>meshToSurface := map (\<lambda>p. if p < n \<and> F ! p \<noteq> 0 then ?rk p else F ! p) [0..<N],
           surfaceCoor := concat (map (PointCoor (this s)) (filter (\<lambda>q. F ! q \<noteq> 0) [0..<n])),
           nVertex_SolidWall := ?rk n\<rparr>"
    using Suc by (simp add: F_def N_def)
  show ?case
  proof (cases "F ! n = 0")
    case True
    then show ?thesis
      unfolding fold_upt_Suc IH F_def [symmetric] N_def [symmetric]
      using n same [OF True]
      by (simp add: NumberWallPoint_def)
  next
    case False
    then show ?thesis
      unfolding fold_upt_Suc IH F_def [symmetric] N_def [symmetric]
      using n upd [OF False]
      by (simp add: NumberWallPoint_def fold_PushCoor)
  qed
qed

lemma fold_RemapConn:
  "n \<le> length (surfaceConn s) \<Longrightarrow>
   fold RemapConn [0..<n] s =
   s\<lparr>surfaceConn := map (\<lambda>c. meshToSurface s ! c) (take n (surfaceConn s)) @
                     drop n (surfaceConn s)\<rparr>"
proof (induction n)
  case 0
  then show ?case by simp
next
  case (Suc n)
  then have n: "n < length (surfaceConn s)" by simp
  have "(map (\<lambda>c. meshToSurface s ! c) (take n (surfaceConn s)) @ drop n (surfaceConn s))
          [n := meshToSurface s ! (surfaceConn s ! n)] =
        map (\<lambda>c. meshToSurface s ! c) (take (Suc n) (surfaceConn s)) @
        drop (Suc n) (surfaceConn s)"
    using n
    by (simp add: take_Suc_conv_app_nth list_update_append Cons_nth_drop_Suc [symmetric])
  then show ?case
    using Suc n by (simp add: RemapConn_def nth_append)
qed

lemma RemapSurfaceConn_eq:
  "RemapSurfaceConn s = s\<lparr>surfaceConn := map (\<lambda>c. meshToSurface s ! c) (surfaceConn s)\<rparr>"
  by (simp add: RemapSurfaceConn_def fold_RemapConn)

lemma CreateSurfaceCoor_Emit:
  fixes config mesh
  defines "s1 \<equiv> Emit (WallPoints config mesh) (WallConn config mesh) (WallElemIDs config mesh)
                    (WallVTK_Types config mesh) (WallMarkerIDs config mesh) (InitExtractor mesh)"
  shows "CreateSurfaceCoor s1 =
         s1\<lparr>meshToSurface := FinalMeshToSurface config mesh,
            surfaceCoor := concat (map (PointCoor mesh) (WallPointList config mesh)),
            nVertex_SolidWall := length (WallPointList config mesh)\<rparr>"
proof -
  define F where "F = meshToSurface s1"
  define N where "N = length (meshPoints mesh)"
  have this_s1: "this s1 = mesh"
    by (simp add: s1_def this_Emit InitExtractor_def)
  have F: "F = fold (\<lambda>p mts. mts[p := 1]) (WallPoints config mesh) (replicate N 0)"
    by (simp add: F_def s1_def Emit_def InitExtractor_def N_def)
  have len: "length F = N"
    by (simp add: F fold_flag_length)
  have flag: "F ! q \<noteq> 0 \<longleftrightarrow> OnWall config mesh q" if "q < N" for q
    using that by (simp add: F fold_flag_nth OnWall_def N_def)
  have filt: "filter (\<lambda>q. F ! q \<noteq> 0) [0..<p] = filter (OnWall config mesh) [0..<p]"
    if "p \<le> N" for p
  proof (rule filter_cong [OF refl])
    fix x assume "x \<in> set [0..<p]"
    with that have "x < N" by simp
    then show "(F ! x \<noteq> 0) = OnWall config mesh x" by (rule flag)
  qed
  have mts: "map (\<lambda>p. if p < N \<and> F ! p \<noteq> 0
                       then length (filter (\<lambda>q. F ! q \<noteq> 0) [0..<p]) else F ! p) [0..<N] =
             FinalMeshToSurface config mesh"
    unfolding FinalMeshToSurface_def N_def [symmetric] LocalIndex_def
  proof (rule map_cong [OF refl])
    fix p assume "p \<in> set [0..<N]"
    then have p: "p < N" by simp
    show "(if p < N \<and> F ! p \<noteq> 0 then length (filter (\<lambda>q. F ! q \<noteq> 0) [0..<p]) else F ! p) =
          (if OnWall config mesh p then length (filter (OnWall config mesh) [0..<p]) else 0)"
      using p flag [OF p] filt [of p] by auto
  qed
  have "fold NumberWallPoint [0..<N] s1 =
        s1\<lparr>meshToSurface :=
             map (\<lambda>p. if p < N \<and> meshToSurface s1 ! p \<noteq> 0
                      then length (filter (\<lambda>q. meshToSurface s1 ! q \<noteq> 0) [0..<p])
                      else meshToSurface s1 ! p) [0..<length (meshPoints (this s1))],
           surfaceCoor :=
             concat (map (PointCoor (this s1)) (filter (\<lambda>q. meshToSurface s1 ! q \<noteq> 0) [0..<N])),
           nVertex_SolidWall := length (filter (\<lambda>q. meshToSurface s1 ! q \<noteq> 0) [0..<N])\<rparr>"
    using len by (intro fold_NumberWallPoint)
      (simp_all add: this_s1 F_def [symmetric] N_def, simp_all add: s1_def Emit_def InitExtractor_def)
  then have "fold NumberWallPoint [0..<N] s1 =
        s1\<lparr>meshToSurface := FinalMeshToSurface config mesh,
           surfaceCoor := concat (map (PointCoor mesh) (filter (OnWall config mesh) [0..<N])),
           nVertex_SolidWall := length (filter (OnWall config mesh) [0..<N])\<rparr>"
    unfolding this_s1 F_def [symmetric] N_def [symmetric] mts filt [OF order_refl] .
  then show ?thesis
    unfolding CreateSurfaceCoor_def this_s1 N_def WallPointList_def .
qed

lemma Step1_eq:
  assumes "length (boundaries mesh) \<le> 65535"
  shows "Step1 config mesh = Some (Step1Result config mesh)"
proof -
  have "ExtractMarkers config 0 (InitExtractor mesh) =
        Some (fold (ExtractMarker config) [0..<length (boundaries mesh)] (InitExtractor mesh))"
    using ExtractMarkers_fold [of "InitExtractor mesh" 0 config] assms
    by (simp add: InitExtractor_def)
  also have "fold (ExtractMarker config) [0..<length (boundaries mesh)] (InitExtractor mesh) =
      Emit (WallPoints config mesh) (WallConn config mesh) (WallElemIDs config mesh)
           (WallVTK_Types config mesh) (WallMarkerIDs config mesh) (InitExtractor mesh)"
    by (rule fold_ExtractMarker) (simp add: InitExtractor_def)
  finally have markers: "ExtractMarkers config 0 (InitExtractor mesh) =
      Some (Emit (WallPoints config mesh) (WallConn config mesh) (WallElemIDs config mesh)
           (WallVTK_Types config mesh) (WallMarkerIDs config mesh) (InitExtractor mesh))" .
  show ?thesis
    unfolding Step1_def markers option.case CreateSurfaceCoor_Emit RemapSurfaceConn_eq
    by (simp add: Step1Result_def Emit_def InitExtractor_def)
qed

subsection \<open>Writing the distances of one entity\<close>

lemma fold_count: "fold (\<lambda>l n. n + f l) xs (a::nat) = a + sum_list (map f xs)"
  by (induction xs arbitrary: a) simp_all

lemma write_slice:
  assumes "off + n < length buf"
  shows "(take off buf @ map g [0..<n] @ drop (off + n) buf)[off + n := x] =
         take off buf @ (map g [0..<n] @ [x]) @ drop (off + Suc n) buf"
proof -
  have "drop (off + n) buf = buf ! (off + n) # drop (off + Suc n) buf"
    using assms by (simp add: Cons_nth_drop_Suc)
  then show ?thesis
    using assms by (simp add: list_update_append min_absorb2 del: upt_Suc)
qed

lemma SetZeroWallDistance_eq:
  "off + nInt \<le> length buf \<Longrightarrow>
   SetZeroWallDistance off nInt buf = take off buf @ replicate nInt 0 @ drop (off + nInt) buf"
proof (induction nInt)
  case 0
  then show ?case by (simp add: SetZeroWallDistance_def)
next
  case (Suc n)
  then have IH: "fold (SetZeroPoint off) [0..<n] buf =
                 take off buf @ map (\<lambda>i. 0) [0..<n] @ drop (off + n) buf"
    by (simp add: SetZeroWallDistance_def map_replicate_const)
  have "off + n < length buf" using Suc.prems by simp
  from write_slice [OF this, of "\<lambda>i. 0" 0]
  show ?case
    unfolding SetZeroWallDistance_def fold_upt_Suc IH SetZeroPoint_def
    by (simp add: map_replicate_const replicate_append_same)
qed

lemma QueryWallDistance_eq:
  "off + nInt \<le> length buf \<Longrightarrow>
   QueryWallDistance dne adt mesh ent lag nDOFs DOFs off nInt (buf, qlog) =
     (take off buf @
      map (\<lambda>i. dne adt (IntegrationPointCoor mesh lag nDOFs DOFs i)) [0..<nInt] @
      drop (off + nInt) buf,
      qlog @ map (\<lambda>i. (ent, i, IntegrationPointCoor mesh lag nDOFs DOFs i)) [0..<nInt])"
proof (induction nInt)
  case 0
  then show ?case by (simp add: QueryWallDistance_def)
next
  case (Suc n)
  then have IH: "fold (QueryPoint dne adt mesh ent lag nDOFs DOFs off) [0..<n] (buf, qlog) =
     (take off buf @
      map (\<lambda>i. dne adt (IntegrationPointCoor mesh lag nDOFs DOFs i)) [0..<n] @
      drop (off + n) buf,
      qlog @ map (\<lambda>i. (ent, i, IntegrationPointCoor mesh lag nDOFs DOFs i)) [0..<n])"
    by (simp add: QueryWallDistance_def)
  have "off + n < length buf" using Suc.prems by simp
  from write_slice [OF this]
  show ?case
    unfolding QueryWallDistance_def fold_upt_Suc IH QueryPoint.simps Let_def
    by simp
qed

lemma PopulateEntity_eq:
  "off + nInt \<le> length buf \<Longrightarrow>
   PopulateEntity dne adt mesh zero ent lag nDOFs DOFs off nInt (buf, qlog) =
     (take off buf @ EntityDistances dne adt mesh zero lag nDOFs DOFs nInt @
      drop (off + nInt) buf,
      qlog @ EntityQueries mesh zero ent lag nDOFs DOFs nInt)"
  by (simp add: PopulateEntity_def EntityDistances_def EntityQueries_def
      SetZeroWallDistance_eq QueryWallDistance_eq)

lemma length_EntityDistances [simp]:
  "length (EntityDistances dne adt mesh zero lag nDOFs DOFs nInt) = nInt"
  by (simp add: EntityDistances_def)

subsection \<open>Step 3\<close>

lemma sum_upt_mono:
  "a \<le> b \<Longrightarrow> sum_list (map f [0..<a]) \<le> sum_list (map (f::nat \<Rightarrow> nat) [0..<b])"
proof -
  assume "a \<le> b"
  then obtain c where "b = a + c" by (auto simp add: le_iff_add)
  then show ?thesis by (simp add: upt_add_eq_append [of 0 a c])
qed

lemma IntegrationPointCoor_cong:
  "nDim m' = nDim m \<Longrightarrow> meshPoints m' = meshPoints m \<Longrightarrow>
   IntegrationPointCoor m' = IntegrationPointCoor m"
  by (simp add: fun_eq_iff IntegrationPointCoor_def)

lemma EntityDistances_cong:
  "nDim m' = nDim m \<Longrightarrow> meshPoints m' = meshPoints m \<Longrightarrow>
   EntityDistances dne adt m' = EntityDistances dne adt m"
  using IntegrationPointCoor_cong [of m' m] by (simp add: fun_eq_iff EntityDistances_def)

lemma EntityQueries_cong:
  "nDim m' = nDim m \<Longrightarrow> meshPoints m' = meshPoints m \<Longrightarrow>
   EntityQueries m' = EntityQueries m"
  using IntegrationPointCoor_cong [of m' m] by (simp add: fun_eq_iff EntityQueries_def)

lemma VolElemBody_eq:
  "VolElemBody dne adt l (n, s) =
     (let mesh = thisMesh s;
          mesh1 = mesh\<lparr>volElem :=
                   (volElem mesh)[l := (volElem mesh ! l)\<lparr>elem_wallDistance := Some n\<rparr>]\<rparr>;
          bq = PopulateEntity dne adt mesh1 (IsEmpty adt) (VolumeElement l) (VolElemLag mesh l)
                 (elem_nDOFsGrid (volElem mesh1 ! l)) (nodeIDsGrid (volElem mesh1 ! l))
                 n (VolElemNInt mesh l) (VecWallDistanceElements mesh1, queryLog s)
      in (n + VolElemNInt mesh l,
          s\<lparr>thisMesh := mesh1\<lparr>VecWallDistanceElements := fst bq\<rparr>, queryLog := snd bq\<rparr>))"
  by (simp add: Let_def PopulateEntity_def VolElemLag_def VolElemNInt_def split: prod.split)

lemma VolElemPointers_0: "VolElemPointers m 0 = volElem m"
  by (simp add: VolElemPointers_def map_nth)

lemma VolElemPointers_Suc:
  "L < length (volElem m) \<Longrightarrow>
   (VolElemPointers m L)[L := (volElem m ! L)\<lparr>elem_wallDistance := Some (VolElemOffset m L)\<rparr>] =
   VolElemPointers m (Suc L)"
  by (intro nth_equalityI) (auto simp add: VolElemPointers_def nth_list_update less_Suc_eq)

lemma VolElemPointers_nth:
  "l < length (volElem m) \<Longrightarrow>
   VolElemPointers m L ! l =
     (if l < L then (volElem m ! l)\<lparr>elem_wallDistance := Some (VolElemOffset m l)\<rparr>
      else volElem m ! l)"
  by (simp add: VolElemPointers_def)

lemma VolElem_loop:
  assumes N: "nVolElemOwned m \<le> length (volElem m)"
    and B0: "length B0 = VolElemOffset m (nVolElemOwned m)"
    and L: "L \<le> nVolElemOwned m"
  shows "fold (VolElemBody dne adt) [0..<L]
           (0, \<lparr>thisMesh = m\<lparr>VecWallDistanceElements := B0\<rparr>, queryLog = q0\<rparr>) =
         (VolElemOffset m L,
          \<lparr>thisMesh = m\<lparr>volElem := VolElemPointers m L,
                         VecWallDistanceElements :=
                           concat (map (VolElemDistances dne adt m) [0..<L]) @
                           drop (VolElemOffset m L) B0\<rparr>,
           queryLog = q0 @ concat (map (VolElemQueries adt m) [0..<L])\<rparr>)"
  using L
proof (induction L)
  case 0
  then show ?case by (simp add: VolElemOffset_def VolElemPointers_0)
next
  case (Suc L)
  define X where "X = concat (map (VolElemDistances dne adt m) [0..<L])"
  define m1 where "m1 = m\<lparr>volElem := VolElemPointers m L,
                           VecWallDistanceElements := X @ drop (VolElemOffset m L) B0\<rparr>"
  have L: "L < length (volElem m)" "L < nVolElemOwned m" using Suc.prems N by simp_all
  have off: "VolElemOffset m (Suc L) = VolElemOffset m L + VolElemNInt m L"
    by (simp add: VolElemOffset_def)
  have "VolElemOffset m (Suc L) \<le> VolElemOffset m (nVolElemOwned m)"
    unfolding VolElemOffset_def using Suc.prems by (rule sum_upt_mono)
  then have fit: "VolElemOffset m L + VolElemNInt m L \<le> length B0"
    by (simp add: off B0)
  have lenX: "length X = VolElemOffset m L"
    by (simp add: X_def VolElemOffset_def VolElemDistances_def length_concat o_def)
  have nint: "VolElemNInt m1 L = VolElemNInt m L"
    using L by (simp add: m1_def VolElemNInt_def VolElemPointers_nth)
  have lag: "VolElemLag m1 L = VolElemLag m L"
    using L by (simp add: m1_def VolElemLag_def VolElemPointers_nth)
  have IH: "fold (VolElemBody dne adt) [0..<L]
              (0, \<lparr>thisMesh = m\<lparr>VecWallDistanceElements := B0\<rparr>, queryLog = q0\<rparr>) =
            (VolElemOffset m L,
             \<lparr>thisMesh = m1, queryLog = q0 @ concat (map (VolElemQueries adt m) [0..<L])\<rparr>)"
    using Suc by (simp add: m1_def X_def)
  have pop: "PopulateEntity dne adt mm (IsEmpty adt) (VolumeElement L) (VolElemLag m L)
               (elem_nDOFsGrid (volElem m ! L)) (nodeIDsGrid (volElem m ! L))
               (VolElemOffset m L) (VolElemNInt m L)
               (X @ drop (VolElemOffset m L) B0, q) =
             (X @ VolElemDistances dne adt m L @ drop (VolElemOffset m (Suc L)) B0,
              q @ VolElemQueries adt m L)"
    if "nDim mm = nDim m" "meshPoints mm = meshPoints m" for mm q
    using fit lenX
    by (subst PopulateEntity_eq)
      (simp_all add: VolElemDistances_def VolElemQueries_def off add.commute
        EntityDistances_cong [OF that] EntityQueries_cong [OF that])
  define m2 where "m2 = m1\<lparr>volElem := (volElem m1)
                     [L := (volElem m1 ! L)\<lparr>elem_wallDistance := Some (VolElemOffset m L)\<rparr>]\<rparr>"
  have m2: "m2 = m\<lparr>volElem := VolElemPointers m (Suc L),
                     VecWallDistanceElements := X @ drop (VolElemOffset m L) B0\<rparr>"
    using L by (simp add: m2_def m1_def VolElemPointers_nth VolElemPointers_Suc)
  have m2_L: "elem_nDOFsGrid (volElem m2 ! L) = elem_nDOFsGrid (volElem m ! L)"
    "nodeIDsGrid (volElem m2 ! L) = nodeIDsGrid (volElem m ! L)"
    using L by (simp_all add: m2 VolElemPointers_nth)
  have m2_buf: "VecWallDistanceElements m2 = X @ drop (VolElemOffset m L) B0"
    by (simp add: m2)
  have m2_geo: "nDim m2 = nDim m" "meshPoints m2 = meshPoints m"
    by (simp_all add: m2)
  have "VolElemBody dne adt L (VolElemOffset m L, \<lparr>thisMesh = m1, queryLog = q\<rparr>) =
        (VolElemOffset m (Suc L),
         \<lparr>thisMesh = m2\<lparr>VecWallDistanceElements :=
                          X @ VolElemDistances dne adt m L @ drop (VolElemOffset m (Suc L)) B0\<rparr>,
          queryLog = q @ VolElemQueries adt m L\<rparr>)" for q
    unfolding VolElemBody_eq Let_def PopulatorState.simps m2_def [symmetric] nint lag
      m2_L m2_buf pop [OF m2_geo]
    by (simp add: off)
  then show ?case
    unfolding fold_upt_Suc IH
    by (simp add: m2 X_def)
qed

lemma PopulatorState_eq: "\<lparr>thisMesh = thisMesh s, queryLog = queryLog s\<rparr> = s"
  by simp

lemma length_resize: "length (resize n buf) = n"
  by (simp add: resize_def)

lemma CountVolElemIntPoints_eq:
  "CountVolElemIntPoints m = VolElemOffset m (nVolElemOwned m)"
  by (simp add: CountVolElemIntPoints_def VolElemOffset_def fold_count)

lemma Step3_eq:
  assumes "nVolElemOwned (thisMesh s) \<le> length (volElem (thisMesh s))"
  shows "Step3 dne adt s =
         \<lparr>thisMesh = (thisMesh s)
            \<lparr>volElem := VolElemPointers (thisMesh s) (nVolElemOwned (thisMesh s)),
             VecWallDistanceElements :=
               concat (map (VolElemDistances dne adt (thisMesh s))
                           [0..<nVolElemOwned (thisMesh s)])\<rparr>,
          queryLog = queryLog s @
            concat (map (VolElemQueries adt (thisMesh s)) [0..<nVolElemOwned (thisMesh s)])\<rparr>"
proof -
  define m where "m = thisMesh s"
  define B0 where "B0 = resize (VolElemOffset m (nVolElemOwned m)) (VecWallDistanceElements m)"
  have B0: "length B0 = VolElemOffset m (nVolElemOwned m)"
    by (simp add: B0_def length_resize)
  have s1: "s\<lparr>thisMesh := m\<lparr>VecWallDistanceElements := B0\<rparr>\<rparr> =
            \<lparr>thisMesh = m\<lparr>VecWallDistanceElements := B0\<rparr>, queryLog = queryLog s\<rparr>"
    by simp
  show ?thesis
    unfolding Step3_def Let_def m_def [symmetric] CountVolElemIntPoints_eq B0_def [symmetric] s1
    using VolElem_loop [OF assms [folded m_def] B0 order_refl, of dne adt "queryLog s"] B0
    by simp
qed

subsection \<open>Step 4\<close>

lemma MatchingFaceBody_eq:
  "MatchingFaceBody dne adt l (n, s) =
     (let mesh = thisMesh s;
          mesh1 = mesh\<lparr>matchingFaces :=
                   (matchingFaces mesh)[l := (matchingFaces mesh ! l)\<lparr>face_wallDistance := Some n\<rparr>]\<rparr>;
          bq = PopulateEntity dne adt mesh1 (IsEmpty adt) (MatchingFace l)
                 (GetBasisFaceIntegrationSide0 (MatchingFaceStd mesh l))
                 (GetNDOFsFaceSide0 (MatchingFaceStd mesh l))
                 (DOFsGridFaceSide0 (matchingFaces mesh1 ! l))
                 n (MatchingFaceNInt mesh l)
                 (VecWallDistanceInternalMatchingFaces mesh1, queryLog s)
      in (n + MatchingFaceNInt mesh l,
          s\<lparr>thisMesh := mesh1\<lparr>VecWallDistanceInternalMatchingFaces := fst bq\<rparr>,
            queryLog := snd bq\<rparr>))"
  by (simp add: Let_def PopulateEntity_def MatchingFaceStd_def MatchingFaceNInt_def
      split: prod.split)

lemma MatchingFacePointers_0: "MatchingFacePointers m 0 = matchingFaces m"
  by (simp add: MatchingFacePointers_def map_nth)

lemma MatchingFacePointers_Suc:
  "L < length (matchingFaces m) \<Longrightarrow>
   (MatchingFacePointers m L)
     [L := (matchingFaces m ! L)\<lparr>face_wallDistance := Some (MatchingFaceOffset m L)\<rparr>] =
   MatchingFacePointers m (Suc L)"
  by (intro nth_equalityI) (auto simp add: MatchingFacePointers_def nth_list_update less_Suc_eq)

lemma MatchingFacePointers_nth:
  "l < length (matchingFaces m) \<Longrightarrow>
   MatchingFacePointers m L ! l =
     (if l < L then (matchingFaces m ! l)\<lparr>face_wallDistance := Some (MatchingFaceOffset m l)\<rparr>
      else matchingFaces m ! l)"
  by (simp add: MatchingFacePointers_def)

lemma MatchingFace_loop:
  assumes B0: "length B0 = MatchingFaceOffset m (length (matchingFaces m))"
    and L: "L \<le> length (matchingFaces m)"
  shows "fold (MatchingFaceBody dne adt) [0..<L]
           (0, \<lparr>thisMesh = m\<lparr>VecWallDistanceInternalMatchingFaces := B0\<rparr>, queryLog = q0\<rparr>) =
         (MatchingFaceOffset m L,
          \<lparr>thisMesh = m\<lparr>matchingFaces := MatchingFacePointers m L,
                         VecWallDistanceInternalMatchingFaces :=
                           concat (map (MatchingFaceDistances dne adt m) [0..<L]) @
                           drop (MatchingFaceOffset m L) B0\<rparr>,
           queryLog = q0 @ concat (map (MatchingFaceQueries adt m) [0..<L])\<rparr>)"
  using L
proof (induction L)
  case 0
  then show ?case by (simp add: MatchingFaceOffset_def MatchingFacePointers_0)
next
  case (Suc L)
  define X where "X = concat (map (MatchingFaceDistances dne adt m) [0..<L])"
  define m1 where "m1 = m\<lparr>matchingFaces := MatchingFacePointers m L,
                           VecWallDistanceInternalMatchingFaces :=
                             X @ drop (MatchingFaceOffset m L) B0\<rparr>"
  have L: "L < length (matchingFaces m)" using Suc.prems by simp
  have off: "MatchingFaceOffset m (Suc L) = MatchingFaceOffset m L + MatchingFaceNInt m L"
    by (simp add: MatchingFaceOffset_def)
  have "MatchingFaceOffset m (Suc L) \<le> MatchingFaceOffset m (length (matchingFaces m))"
    unfolding MatchingFaceOffset_def using Suc.prems by (rule sum_upt_mono)
  then have fit: "MatchingFaceOffset m L + MatchingFaceNInt m L \<le> length B0"
    by (simp add: off B0)
  have lenX: "length X = MatchingFaceOffset m L"
    by (simp add: X_def MatchingFaceOffset_def MatchingFaceDistances_def length_concat o_def)
  have nint: "MatchingFaceNInt m1 L = MatchingFaceNInt m L"
    using L by (simp add: m1_def MatchingFaceNInt_def MatchingFacePointers_nth)
  have std: "MatchingFaceStd m1 L = MatchingFaceStd m L"
    using L by (simp add: m1_def MatchingFaceStd_def MatchingFacePointers_nth)
  have IH: "fold (MatchingFaceBody dne adt) [0..<L]
              (0, \<lparr>thisMesh = m\<lparr>VecWallDistanceInternalMatchingFaces := B0\<rparr>, queryLog = q0\<rparr>) =
            (MatchingFaceOffset m L,
             \<lparr>thisMesh = m1, queryLog = q0 @ concat (map (MatchingFaceQueries adt m) [0..<L])\<rparr>)"
    using Suc by (simp add: m1_def X_def)
  have pop: "PopulateEntity dne adt mm (IsEmpty adt) (MatchingFace L)
               (GetBasisFaceIntegrationSide0 (MatchingFaceStd m L))
               (GetNDOFsFaceSide0 (MatchingFaceStd m L))
               (DOFsGridFaceSide0 (matchingFaces m ! L))
               (MatchingFaceOffset m L) (MatchingFaceNInt m L)
               (X @ drop (MatchingFaceOffset m L) B0, q) =
             (X @ MatchingFaceDistances dne adt m L @ drop (MatchingFaceOffset m (Suc L)) B0,
              q @ MatchingFaceQueries adt m L)"
    if "nDim mm = nDim m" "meshPoints mm = meshPoints m" for mm q
    using fit lenX
    by (subst PopulateEntity_eq)
      (simp_all add: MatchingFaceDistances_def MatchingFaceQueries_def off add.commute
        EntityDistances_cong [OF that] EntityQueries_cong [OF that])
  define m2 where "m2 = m1\<lparr>matchingFaces := (matchingFaces m1)
                     [L := (matchingFaces m1 ! L)
                             \<lparr>face_wallDistance := Some (MatchingFaceOffset m L)\<rparr>]\<rparr>"
  have m2: "m2 = m\<lparr>matchingFaces := MatchingFacePointers m (Suc L),
                     VecWallDistanceInternalMatchingFaces :=
                       X @ drop (MatchingFaceOffset m L) B0\<rparr>"
    using L by (simp add: m2_def m1_def MatchingFacePointers_nth MatchingFacePointers_Suc)
  have m2_L: "DOFsGridFaceSide0 (matchingFaces m2 ! L) = DOFsGridFaceSide0 (matchingFaces m ! L)"
    using L by (simp_all add: m2 MatchingFacePointers_nth)
  have m2_buf: "VecWallDistanceInternalMatchingFaces m2 = X @ drop (MatchingFaceOffset m L) B0"
    by (simp add: m2)
  have m2_geo: "nDim m2 = nDim m" "meshPoints m2 = meshPoints m"
    by (simp_all add: m2)
  have "MatchingFaceBody dne adt L (MatchingFaceOffset m L, \<lparr>thisMesh = m1, queryLog = q\<rparr>) =
        (MatchingFaceOffset m (Suc L),
         \<lparr>thisMesh = m2\<lparr>VecWallDistanceInternalMatchingFaces :=
              X @ MatchingFaceDistances dne adt m L @ drop (MatchingFaceOffset m (Suc L)) B0\<rparr>,
          queryLog = q @ MatchingFaceQueries adt m L\<rparr>)" for q
    unfolding MatchingFaceBody_eq Let_def PopulatorState.simps m2_def [symmetric] nint std
      m2_L m2_buf pop [OF m2_geo]
    by (simp add: off)
  then show ?case
    unfolding fold_upt_Suc IH
    by (simp add: m2 X_def)
qed

lemma CountMatchingFaceIntPoints_eq:
  "CountMatchingFaceIntPoints m = MatchingFaceOffset m (length (matchingFaces m))"
  by (simp add: CountMatchingFaceIntPoints_def MatchingFaceOffset_def fold_count)

lemma Step4_eq:
  "Step4 dne adt s =
         \<lparr>thisMesh = (thisMesh s)
            \<lparr>matchingFaces :=
               MatchingFacePointers (thisMesh s) (length (matchingFaces (thisMesh s))),
             VecWallDistanceInternalMatchingFaces :=
               concat (map (MatchingFaceDistances dne adt (thisMesh s))
                           [0..<length (matchingFaces (thisMesh s))])\<rparr>,
          queryLog = queryLog s @
            concat (map (MatchingFaceQueries adt (thisMesh s))
                        [0..<length (matchingFaces (thisMesh s))])\<rparr>"
proof -
  define m where "m = thisMesh s"
  define B0 where "B0 = resize (MatchingFaceOffset m (length (matchingFaces m)))
                          (VecWallDistanceInternalMatchingFaces m)"
  have B0: "length B0 = MatchingFaceOffset m (length (matchingFaces m))"
    by (simp add: B0_def length_resize)
  have s1: "s\<lparr>thisMesh := m\<lparr>VecWallDistanceInternalMatchingFaces := B0\<rparr>\<rparr> =
            \<lparr>thisMesh = m\<lparr>VecWallDistanceInternalMatchingFaces := B0\<rparr>, queryLog = queryLog s\<rparr>"
    by simp
  show ?thesis
    unfolding Step4_def Let_def m_def [symmetric] CountMatchingFaceIntPoints_eq
      B0_def [symmetric] s1
    using MatchingFace_loop [OF B0 order_refl, of dne adt "queryLog s"] B0
    by simp
qed

subsection \<open>Step 5\<close>

lemma SurfElemBody_eq:
  "SurfElemBody dne adt mesh iMarker vw l (n, bnd, q) =
     (let bnd1 = bnd\<lparr>surfElem :=
                   (surfElem bnd)[l := (surfElem bnd ! l)\<lparr>wallDistance := Some n\<rparr>]\<rparr>;
          bq = PopulateEntity dne adt mesh (IsEmpty adt \<or> vw) (BoundaryFace iMarker l)
                 (SurfElemLag mesh bnd l) (nDOFsGrid (surfElem bnd ! l))
                 (DOFsGridFace (surfElem bnd1 ! l)) n (SurfElemNInt mesh bnd l)
                 (VecWallDistanceBoundaryFaces bnd1, q)
      in (n + SurfElemNInt mesh bnd l, bnd1\<lparr>VecWallDistanceBoundaryFaces := fst bq\<rparr>, snd bq))"
  by (simp add: Let_def PopulateEntity_def SurfElemLag_def SurfElemNInt_def split: prod.split)

lemma SurfElemPointers_0: "SurfElemPointers mesh b 0 = surfElem b"
  by (simp add: SurfElemPointers_def map_nth)

lemma SurfElemPointers_Suc:
  "L < length (surfElem b) \<Longrightarrow>
   (SurfElemPointers mesh b L)
     [L := (surfElem b ! L)\<lparr>wallDistance := Some (SurfElemOffset mesh b L)\<rparr>] =
   SurfElemPointers mesh b (Suc L)"
  by (intro nth_equalityI) (auto simp add: SurfElemPointers_def nth_list_update less_Suc_eq)

lemma SurfElemPointers_nth:
  "l < length (surfElem b) \<Longrightarrow>
   SurfElemPointers mesh b L ! l =
     (if l < L then (surfElem b ! l)\<lparr>wallDistance := Some (SurfElemOffset mesh b l)\<rparr>
      else surfElem b ! l)"
  by (simp add: SurfElemPointers_def)

lemma SurfElem_loop:
  assumes B0: "length B0 = SurfElemOffset mesh b (length (surfElem b))"
    and L: "L \<le> length (surfElem b)"
  shows "fold (SurfElemBody dne adt mesh iMarker vw) [0..<L]
           (0, b\<lparr>VecWallDistanceBoundaryFaces := B0\<rparr>, q0) =
         (SurfElemOffset mesh b L,
          b\<lparr>surfElem := SurfElemPointers mesh b L,
            VecWallDistanceBoundaryFaces :=
              concat (map (SurfElemDistances dne adt mesh (IsEmpty adt \<or> vw) b) [0..<L]) @
              drop (SurfElemOffset mesh b L) B0\<rparr>,
          q0 @ concat (map (SurfElemQueries mesh iMarker (IsEmpty adt \<or> vw) b) [0..<L]))"
  using L
proof (induction L)
  case 0
  then show ?case by (simp add: SurfElemOffset_def SurfElemPointers_0)
next
  case (Suc L)
  define X where "X = concat (map (SurfElemDistances dne adt mesh (IsEmpty adt \<or> vw) b) [0..<L])"
  define b1 where "b1 = b\<lparr>surfElem := SurfElemPointers mesh b L,
                           VecWallDistanceBoundaryFaces := X @ drop (SurfElemOffset mesh b L) B0\<rparr>"
  have L: "L < length (surfElem b)" using Suc.prems by simp
  have off: "SurfElemOffset mesh b (Suc L) = SurfElemOffset mesh b L + SurfElemNInt mesh b L"
    by (simp add: SurfElemOffset_def)
  have "SurfElemOffset mesh b (Suc L) \<le> SurfElemOffset mesh b (length (surfElem b))"
    unfolding SurfElemOffset_def using Suc.prems by (rule sum_upt_mono)
  then have fit: "SurfElemOffset mesh b L + SurfElemNInt mesh b L \<le> length B0"
    by (simp add: off B0)
  have lenX: "length X = SurfElemOffset mesh b L"
    by (simp add: X_def SurfElemOffset_def SurfElemDistances_def length_concat o_def)
  have nint: "SurfElemNInt mesh b1 L = SurfElemNInt mesh b L"
    using L by (simp add: b1_def SurfElemNInt_def SurfElemPointers_nth)
  have lag: "SurfElemLag mesh b1 L = SurfElemLag mesh b L"
    using L by (simp add: b1_def SurfElemLag_def SurfElemPointers_nth)
  have ndofs: "nDOFsGrid (surfElem b1 ! L) = nDOFsGrid (surfElem b ! L)"
    using L by (simp add: b1_def SurfElemPointers_nth)
  have IH: "fold (SurfElemBody dne adt mesh iMarker vw) [0..<L]
              (0, b\<lparr>VecWallDistanceBoundaryFaces := B0\<rparr>, q0) =
            (SurfElemOffset mesh b L, b1,
             q0 @ concat (map (SurfElemQueries mesh iMarker (IsEmpty adt \<or> vw) b) [0..<L]))"
    using Suc by (simp add: b1_def X_def)
  have pop: "PopulateEntity dne adt mesh (IsEmpty adt \<or> vw) (BoundaryFace iMarker L)
               (SurfElemLag mesh b L) (nDOFsGrid (surfElem b ! L)) (DOFsGridFace (surfElem b ! L))
               (SurfElemOffset mesh b L) (SurfElemNInt mesh b L)
               (X @ drop (SurfElemOffset mesh b L) B0, q) =
             (X @ SurfElemDistances dne adt mesh (IsEmpty adt \<or> vw) b L @
                drop (SurfElemOffset mesh b (Suc L)) B0,
              q @ SurfElemQueries mesh iMarker (IsEmpty adt \<or> vw) b L)" for q
    using fit lenX
    by (subst PopulateEntity_eq)
      (simp_all add: SurfElemDistances_def SurfElemQueries_def off add.commute)
  define b2 where "b2 = b1\<lparr>surfElem := (surfElem b1)
                     [L := (surfElem b1 ! L)\<lparr>wallDistance := Some (SurfElemOffset mesh b L)\<rparr>]\<rparr>"
  have b2: "b2 = b\<lparr>surfElem := SurfElemPointers mesh b (Suc L),
                     VecWallDistanceBoundaryFaces := X @ drop (SurfElemOffset mesh b L) B0\<rparr>"
    using L by (simp add: b2_def b1_def SurfElemPointers_nth SurfElemPointers_Suc)
  have b2_L: "DOFsGridFace (surfElem b2 ! L) = DOFsGridFace (surfElem b ! L)"
    using L by (simp_all add: b2 SurfElemPointers_nth)
  have b2_buf: "VecWallDistanceBoundaryFaces b2 = X @ drop (SurfElemOffset mesh b L) B0"
    by (simp add: b2)
  have "SurfElemBody dne adt mesh iMarker vw L (SurfElemOffset mesh b L, b1, q) =
        (SurfElemOffset mesh b (Suc L),
         b2\<lparr>VecWallDistanceBoundaryFaces :=
              X @ SurfElemDistances dne adt mesh (IsEmpty adt \<or> vw) b L @
              drop (SurfElemOffset mesh b (Suc L)) B0\<rparr>,
         q @ SurfElemQueries mesh iMarker (IsEmpty adt \<or> vw) b L)" for q
    unfolding SurfElemBody_eq Let_def b2_def [symmetric] nint lag ndofs b2_L b2_buf pop
    by (simp add: off)
  then show ?case
    unfolding fold_upt_Suc IH
    by (simp add: b2 X_def)
qed

lemma CountSurfElemIntPoints_eq:
  "CountSurfElemIntPoints mesh b = SurfElemOffset mesh b (length (surfElem b))"
  by (simp add: CountSurfElemIntPoints_def SurfElemOffset_def fold_count)

lemma BoundaryMarkerBody_eq:
  "BoundaryMarkerBody dne adt config iMarker s =
     \<lparr>thisMesh = (thisMesh s)\<lparr>boundaries :=
         (boundaries (thisMesh s))[iMarker := BoundaryResult dne adt config (thisMesh s) iMarker]\<rparr>,
      queryLog = queryLog s @ BoundaryQueries adt config (thisMesh s) iMarker\<rparr>"
proof (cases "periodicBoundary (boundaries (thisMesh s) ! iMarker)")
  case True
  then show ?thesis
    by (simp add: BoundaryMarkerBody_def BoundaryResult_def BoundaryQueries_def)
next
  case False
  define m where "m = thisMesh s"
  define b where "b = boundaries m ! iMarker"
  define B0 where "B0 = resize (SurfElemOffset m b (length (surfElem b)))
                          (VecWallDistanceBoundaryFaces b)"
  have B0: "length B0 = SurfElemOffset m b (length (surfElem b))"
    by (simp add: B0_def length_resize)
  have len: "length (surfElem (b\<lparr>VecWallDistanceBoundaryFaces := B0\<rparr>)) = length (surfElem b)"
    by simp
  from False have np: "\<not> periodicBoundary b" by (simp add: b_def m_def)
  show ?thesis
    unfolding BoundaryMarkerBody_def Let_def m_def [symmetric] b_def [symmetric]
      CountSurfElemIntPoints_eq B0_def [symmetric] len BoundaryResult_def BoundaryQueries_def
      SurfElem_loop [OF B0 order_refl]
    using np B0 by (simp add: ZeroBoundary_def)
qed

subsection \<open>The function\<close>

lemma BoundaryResult_cong:
  assumes "nDim m' = nDim m" "meshPoints m' = meshPoints m"
    "standardBoundaryFacesGrid m' = standardBoundaryFacesGrid m"
    "boundaries m' ! i = boundaries m ! i"
  shows "BoundaryResult dne adt config m' i = BoundaryResult dne adt config m i"
    and "BoundaryQueries adt config m' i = BoundaryQueries adt config m i"
proof -
  have a: "SurfElemNInt m' = SurfElemNInt m"
    by (simp add: fun_eq_iff SurfElemNInt_def assms)
  have b: "SurfElemOffset m' = SurfElemOffset m"
    by (simp add: fun_eq_iff SurfElemOffset_def a)
  have c: "SurfElemLag m' = SurfElemLag m"
    by (simp add: fun_eq_iff SurfElemLag_def assms)
  have d: "SurfElemPointers m' = SurfElemPointers m"
    by (simp add: fun_eq_iff SurfElemPointers_def b)
  have e: "SurfElemDistances dne adt m' = SurfElemDistances dne adt m"
    by (simp add: fun_eq_iff SurfElemDistances_def a c EntityDistances_cong [OF assms(1,2)])
  have f: "SurfElemQueries m' = SurfElemQueries m"
    by (simp add: fun_eq_iff SurfElemQueries_def a c EntityQueries_cong [OF assms(1,2)])
  show "BoundaryResult dne adt config m' i = BoundaryResult dne adt config m i"
    by (simp add: BoundaryResult_def Let_def assms(4) d e)
  show "BoundaryQueries adt config m' i = BoundaryQueries adt config m i"
    by (simp add: BoundaryQueries_def Let_def assms(4) f)
qed

lemma MatchingFace_cong:
  assumes "nDim m' = nDim m" "meshPoints m' = meshPoints m"
    "standardMatchingFacesGrid m' = standardMatchingFacesGrid m"
    "matchingFaces m' = matchingFaces m"
  shows "MatchingFacePointers m' = MatchingFacePointers m"
    and "MatchingFaceDistances dne adt m' = MatchingFaceDistances dne adt m"
    and "MatchingFaceQueries adt m' = MatchingFaceQueries adt m"
proof -
  have a: "MatchingFaceNInt m' = MatchingFaceNInt m"
    by (simp add: fun_eq_iff MatchingFaceNInt_def assms)
  have b: "MatchingFaceOffset m' = MatchingFaceOffset m"
    by (simp add: fun_eq_iff MatchingFaceOffset_def a)
  have c: "MatchingFaceStd m' = MatchingFaceStd m"
    by (simp add: fun_eq_iff MatchingFaceStd_def assms)
  show "MatchingFacePointers m' = MatchingFacePointers m"
    by (simp add: fun_eq_iff MatchingFacePointers_def b assms)
  show "MatchingFaceDistances dne adt m' = MatchingFaceDistances dne adt m"
    by (simp add: fun_eq_iff MatchingFaceDistances_def a c assms(4)
        EntityDistances_cong [OF assms(1,2)])
  show "MatchingFaceQueries adt m' = MatchingFaceQueries adt m"
    by (simp add: fun_eq_iff MatchingFaceQueries_def a c assms(4)
        EntityQueries_cong [OF assms(1,2)])
qed

lemma length_boundaries_BoundaryMarkerBody:
  "length (boundaries (thisMesh (BoundaryMarkerBody dne adt config iMarker s))) =
   length (boundaries (thisMesh s))"
  by (simp add: BoundaryMarkerBody_eq)

lemma length_boundaries_fold:
  "length (boundaries (thisMesh (fold (BoundaryMarkerBody dne adt config) xs s))) =
   length (boundaries (thisMesh s))"
  by (induction xs arbitrary: s) (simp_all add: length_boundaries_BoundaryMarkerBody)

lemma Step5_fold:
  assumes "length (boundaries (thisMesh s)) \<le> 65535"
    and "iMarker \<le> length (boundaries (thisMesh s))"
  shows "Step5 dne adt config iMarker s =
         Some (fold (BoundaryMarkerBody dne adt config)
                 [iMarker..<length (boundaries (thisMesh s))] s)"
  using assms
proof (induction "length (boundaries (thisMesh s)) - iMarker" arbitrary: iMarker s)
  case 0
  then show ?case
    by (subst Step5.simps) simp
next
  case (Suc d)
  from Suc.hyps(2) have lt: "iMarker < length (boundaries (thisMesh s))" by simp
  with Suc.prems have wrap: "Suc iMarker mod 65536 = Suc iMarker" by simp
  have "Step5 dne adt config (Suc iMarker) (BoundaryMarkerBody dne adt config iMarker s) =
        Some (fold (BoundaryMarkerBody dne adt config)
                [Suc iMarker..<length (boundaries (thisMesh
                    (BoundaryMarkerBody dne adt config iMarker s)))]
                (BoundaryMarkerBody dne adt config iMarker s))"
    using Suc.hyps(2) Suc.prems lt
    by (intro Suc.hyps(1)) (simp_all add: length_boundaries_BoundaryMarkerBody)
  then show ?case
    using lt
    by (subst Step5.simps)
      (simp add: wrap length_boundaries_BoundaryMarkerBody upt_conv_Cons)
qed

lemma BoundaryMarker_loop:
  assumes "M \<le> length (boundaries m)"
  shows "fold (BoundaryMarkerBody dne adt config) [0..<M] \<lparr>thisMesh = m, queryLog = q0\<rparr> =
         \<lparr>thisMesh = m\<lparr>boundaries :=
             map (\<lambda>i. if i < M then BoundaryResult dne adt config m i else boundaries m ! i)
                 [0..<length (boundaries m)]\<rparr>,
          queryLog = q0 @ concat (map (BoundaryQueries adt config m) [0..<M])\<rparr>"
  using assms
proof (induction M)
  case 0
  then show ?case by (simp add: map_nth)
next
  case (Suc M)
  define BL where "BL = map (\<lambda>i. if i < M then BoundaryResult dne adt config m i
                                   else boundaries m ! i) [0..<length (boundaries m)]"
  define mc where "mc = m\<lparr>boundaries := BL\<rparr>"
  have M: "M < length (boundaries m)" using Suc.prems by simp
  have IH: "fold (BoundaryMarkerBody dne adt config) [0..<M] \<lparr>thisMesh = m, queryLog = q0\<rparr> =
            \<lparr>thisMesh = mc,
             queryLog = q0 @ concat (map (BoundaryQueries adt config m) [0..<M])\<rparr>"
    using Suc by (simp add: mc_def BL_def)
  have cur: "boundaries mc ! M = boundaries m ! M"
    using M by (simp add: mc_def BL_def)
  have res: "BoundaryResult dne adt config mc M = BoundaryResult dne adt config m M"
    "BoundaryQueries adt config mc M = BoundaryQueries adt config m M"
    by (rule BoundaryResult_cong; use cur in \<open>simp add: mc_def\<close>)+
  have upd: "BL[M := BoundaryResult dne adt config m M] =
             map (\<lambda>i. if i < Suc M then BoundaryResult dne adt config m i else boundaries m ! i)
                 [0..<length (boundaries m)]"
    using M by (intro nth_equalityI) (auto simp add: BL_def nth_list_update less_Suc_eq)
  have "BoundaryMarkerBody dne adt config M \<lparr>thisMesh = mc, queryLog = q\<rparr> =
        \<lparr>thisMesh = m\<lparr>boundaries := BL[M := BoundaryResult dne adt config m M]\<rparr>,
         queryLog = q @ BoundaryQueries adt config m M\<rparr>" for q
    unfolding BoundaryMarkerBody_eq PopulatorState.simps res
    by (simp add: mc_def)
  then show ?case
    unfolding fold_upt_Suc IH upd by simp
qed

lemma map_if_upt: "map (\<lambda>i. if i < n then f i else g i) [0..<n] = map f [0..<n]"
  by (rule map_cong) simp_all

lemma ComputeWall_Distance_eq:
  assumes "length (boundaries mesh) \<le> 65535"
    and "nVolElemOwned mesh \<le> length (volElem mesh)"
  shows "ComputeWall_Distance dne config mesh =
         Some (ComputeWall_DistanceResult dne config mesh)"
proof -
  define adt where "adt = WallADT_of config mesh"
  define s3 where "s3 = Step3 dne adt \<lparr>thisMesh = mesh, queryLog = []\<rparr>"
  define s4 where "s4 = Step4 dne adt s3"
  have s3: "s3 = \<lparr>thisMesh = mesh
            \<lparr>volElem := VolElemPointers mesh (nVolElemOwned mesh),
             VecWallDistanceElements :=
               concat (map (VolElemDistances dne adt mesh) [0..<nVolElemOwned mesh])\<rparr>,
          queryLog = concat (map (VolElemQueries adt mesh) [0..<nVolElemOwned mesh])\<rparr>"
    unfolding s3_def using assms(2) by (subst Step3_eq) simp_all
  define m3 where "m3 = thisMesh s3"
  have m3: "nDim m3 = nDim mesh" "meshPoints m3 = meshPoints mesh"
    "standardMatchingFacesGrid m3 = standardMatchingFacesGrid mesh"
    "matchingFaces m3 = matchingFaces mesh"
    "standardBoundaryFacesGrid m3 = standardBoundaryFacesGrid mesh"
    "boundaries m3 = boundaries mesh"
    by (simp_all add: m3_def s3)
  have s4: "s4 = \<lparr>thisMesh = m3
            \<lparr>matchingFaces := MatchingFacePointers mesh (length (matchingFaces mesh)),
             VecWallDistanceInternalMatchingFaces :=
               concat (map (MatchingFaceDistances dne adt mesh)
                           [0..<length (matchingFaces mesh)])\<rparr>,
          queryLog = queryLog s3 @
            concat (map (MatchingFaceQueries adt mesh) [0..<length (matchingFaces mesh)])\<rparr>"
    unfolding s4_def Step4_eq m3_def [symmetric] MatchingFace_cong [OF m3(1-4)] m3(4) ..
  define m4 where "m4 = thisMesh s4"
  have m4: "nDim m4 = nDim mesh" "meshPoints m4 = meshPoints mesh"
    "standardBoundaryFacesGrid m4 = standardBoundaryFacesGrid mesh"
    "boundaries m4 = boundaries mesh"
    by (simp_all add: m4_def s4 m3)
  have s4': "s4 = \<lparr>thisMesh = m4, queryLog = queryLog s4\<rparr>"
    by (simp add: m4_def)
  have res: "map (BoundaryResult dne adt config m4) [0..<length (boundaries mesh)] =
             map (BoundaryResult dne adt config mesh) [0..<length (boundaries mesh)]"
    "map (BoundaryQueries adt config m4) [0..<length (boundaries mesh)] =
     map (BoundaryQueries adt config mesh) [0..<length (boundaries mesh)]"
    by (rule map_cong [OF refl], rule BoundaryResult_cong; simp add: m4)+
  have "Step5 dne adt config 0 s4 =
        Some (fold (BoundaryMarkerBody dne adt config) [0..<length (boundaries mesh)] s4)"
    using Step5_fold [of s4 0 dne adt config] assms(1) m4(4) by (simp add: m4_def)
  also have "fold (BoundaryMarkerBody dne adt config) [0..<length (boundaries mesh)] s4 =
        \<lparr>thisMesh = m4\<lparr>boundaries :=
             map (BoundaryResult dne adt config mesh) [0..<length (boundaries mesh)]\<rparr>,
          queryLog = queryLog s4 @
             concat (map (BoundaryQueries adt config mesh) [0..<length (boundaries mesh)])\<rparr>"
    using BoundaryMarker_loop [of "length (boundaries mesh)" m4 dne adt config "queryLog s4"]
    by (subst s4') (simp add: m4(4) map_if_upt res)
  finally have s5: "Step5 dne adt config 0 s4 =
      Some \<lparr>thisMesh = m4\<lparr>boundaries :=
             map (BoundaryResult dne adt config mesh) [0..<length (boundaries mesh)]\<rparr>,
          queryLog = queryLog s4 @
             concat (map (BoundaryQueries adt config mesh) [0..<length (boundaries mesh)])\<rparr>" .
  have this_res: "this (Step1Result config mesh) = mesh"
    by (simp add: Step1Result_def)
  show ?thesis
    unfolding ComputeWall_Distance_def Step1_eq [OF assms(1)] option.case Let_def
      WallADT_of_def [symmetric] adt_def [symmetric] this_res s3_def [symmetric]
      s4_def [symmetric] s5 ComputeWall_DistanceResult_def
    by (simp add: m4_def s4 m3_def s3)
qed

subsection \<open>Reading a wall distance after the call\<close>

lemma concat_upt_split:
  "l < N \<Longrightarrow> concat (map vals [0..<N]) =
     concat (map vals [0..<l]) @ vals l @ concat (map vals [Suc l..<N])"
proof -
  assume "l < N"
  then have "[0..<N] = [0..<l] @ [l..<N]" "[l..<N] = l # [Suc l..<N]"
    using upt_add_eq_append [of 0 l "N - l"] by (simp_all add: upt_conv_Cons)
  then have "[0..<N] = [0..<l] @ l # [Suc l..<N]" by simp
  then show ?thesis by simp
qed

lemma length_concat_upt:
  "(\<And>l. length (vals l) = cnt l) \<Longrightarrow>
   length (concat (map vals [0..<n])) = sum_list (map cnt [0..<n])"
  by (simp add: length_concat o_def)

lemma concat_nth_offset:
  assumes len: "\<And>l. length (vals l) = cnt l" and l: "l < N" and i: "i < cnt l"
  shows "sum_list (map cnt [0..<l]) + i < length (concat (map vals [0..<N]))"
    and "concat (map vals [0..<N]) ! (sum_list (map cnt [0..<l]) + i) = vals l ! i"
proof -
  have A: "length (concat (map vals [0..<l])) = sum_list (map cnt [0..<l])"
    using len by (rule length_concat_upt)
  show "sum_list (map cnt [0..<l]) + i < length (concat (map vals [0..<N]))"
    unfolding concat_upt_split [OF l] using i by (simp add: A len)
  show "concat (map vals [0..<N]) ! (sum_list (map cnt [0..<l]) + i) = vals l ! i"
    unfolding concat_upt_split [OF l] using i by (simp add: A [symmetric] nth_append len)
qed

lemma WallDistanceAt_concat:
  assumes "\<And>l. length (vals l) = cnt l" and "l < N" and "i < cnt l"
  shows "WallDistanceAt (concat (map vals [0..<N])) (Some (sum_list (map cnt [0..<l]))) i =
         Some (vals l ! i)"
  using concat_nth_offset [of vals cnt l N i, OF assms]
  by (simp add: WallDistanceAt_def)

section \<open>The claims\<close>

subsection \<open>The channel\<close>

lemma ChannelMesh_sizes:
  "length (boundaries ChannelMesh) = 5" "nVolElemOwned ChannelMesh = 2"
  "length (volElem ChannelMesh) = 2" "length (matchingFaces ChannelMesh) = 1"
  "length (meshPoints ChannelMesh) = 6"
  by (simp_all add: ChannelMesh_def)

lemma upt_5: "[0..<5] = [0, 1, 2, 3, 4]"
  by (simp add: upt_conv_Cons)

lemma NoWall_empty: "WallVTK_Types NoWallConfig ChannelMesh = []"
  by (simp add: WallVTK_Types_def OverWalls_def OverWallElems_def WallMarker_def
      ViscousWall_def GetMarker_All_KindBC_def NoWallConfig_def)

lemma Wall_VTK: "WallVTK_Types WallConfig ChannelMesh = [3, 3]"
  by (simp add: WallVTK_Types_def OverWalls_def OverWallElems_def WallMarker_def
      ViscousWall_def GetMarker_All_KindBC_def WallConfig_def ChannelMesh_sizes upt_5)
    (simp add: ChannelMesh_def StdFace_def LineFace_def upt_conv_Cons)

subsection \<open>The empty tree\<close>

lemma IsEmpty_zero:
  assumes "IsEmpty adt"
  shows "VolElemDistances dne adt mesh l = replicate (VolElemNInt mesh l) 0"
    and "VolElemQueries adt mesh l = []"
    and "MatchingFaceDistances dne adt mesh l = replicate (MatchingFaceNInt mesh l) 0"
    and "MatchingFaceQueries adt mesh l = []"
    and "SurfElemDistances dne adt mesh (ZeroBoundary adt config iMarker) bnd l =
           replicate (SurfElemNInt mesh bnd l) 0"
    and "SurfElemQueries mesh iMarker (ZeroBoundary adt config iMarker) bnd l = []"
  using assms
  by (simp_all add: VolElemDistances_def VolElemQueries_def MatchingFaceDistances_def
      MatchingFaceQueries_def SurfElemDistances_def SurfElemQueries_def ZeroBoundary_def
      EntityDistances_def EntityQueries_def)

lemma concat_replicate_0:
  "(\<And>l. vals l = replicate (cnt l) (0::real)) \<Longrightarrow>
   concat (map vals xs) = replicate (sum_list (map cnt xs)) 0"
  by (induction xs) (simp_all add: replicate_add)

lemma concat_Nil: "(\<And>l. vals l = []) \<Longrightarrow> concat (map vals xs) = []"
  by (induction xs) simp_all

lemma Result_fields:
  "volElem (thisMesh (ComputeWall_DistanceResult dne config mesh)) =
     VolElemPointers mesh (nVolElemOwned mesh)"
  "VecWallDistanceElements (thisMesh (ComputeWall_DistanceResult dne config mesh)) =
     concat (map (VolElemDistances dne (WallADT_of config mesh) mesh) [0..<nVolElemOwned mesh])"
  "matchingFaces (thisMesh (ComputeWall_DistanceResult dne config mesh)) =
     MatchingFacePointers mesh (length (matchingFaces mesh))"
  "VecWallDistanceInternalMatchingFaces (thisMesh (ComputeWall_DistanceResult dne config mesh)) =
     concat (map (MatchingFaceDistances dne (WallADT_of config mesh) mesh)
                 [0..<length (matchingFaces mesh)])"
  "boundaries (thisMesh (ComputeWall_DistanceResult dne config mesh)) =
     map (BoundaryResult dne (WallADT_of config mesh) config mesh) [0..<length (boundaries mesh)]"
  "queryLog (ComputeWall_DistanceResult dne config mesh) =
     concat (map (VolElemQueries (WallADT_of config mesh) mesh) [0..<nVolElemOwned mesh]) @
     concat (map (MatchingFaceQueries (WallADT_of config mesh) mesh)
                 [0..<length (matchingFaces mesh)]) @
     concat (map (BoundaryQueries (WallADT_of config mesh) config mesh)
                 [0..<length (boundaries mesh)])"
  by (simp_all add: ComputeWall_DistanceResult_def Let_def)

lemma Result_geometry:
  "nDim (thisMesh (ComputeWall_DistanceResult dne config mesh)) = nDim mesh"
  "meshPoints (thisMesh (ComputeWall_DistanceResult dne config mesh)) = meshPoints mesh"
  by (simp_all add: ComputeWall_DistanceResult_def Let_def)

text \<open>The distance read through the pointer of an owned element, a matching face, a face of a
  boundary that is not periodic.\<close>

lemma VolElemWallDistance_Result:
  assumes "nVolElemOwned mesh \<le> length (volElem mesh)" "l < nVolElemOwned mesh"
    "i < VolElemNInt mesh l"
  shows "VolElemWallDistance (thisMesh (ComputeWall_DistanceResult dne config mesh)) l i =
         Some (VolElemDistances dne (WallADT_of config mesh) mesh l ! i)"
proof -
  have "length (VolElemDistances dne (WallADT_of config mesh) mesh l') = VolElemNInt mesh l'" for l'
    by (simp add: VolElemDistances_def)
  from WallDistanceAt_concat [of "VolElemDistances dne (WallADT_of config mesh) mesh"
      "VolElemNInt mesh", OF this assms(2,3)]
  show ?thesis
    using assms(1,2)
    by (simp add: VolElemWallDistance_def Result_fields VolElemPointers_nth VolElemOffset_def)
qed

lemma MatchingFaceWallDistance_Result:
  assumes "l < length (matchingFaces mesh)" "i < MatchingFaceNInt mesh l"
  shows "MatchingFaceWallDistance (thisMesh (ComputeWall_DistanceResult dne config mesh)) l i =
         Some (MatchingFaceDistances dne (WallADT_of config mesh) mesh l ! i)"
proof -
  have "length (MatchingFaceDistances dne (WallADT_of config mesh) mesh l') =
        MatchingFaceNInt mesh l'" for l'
    by (simp add: MatchingFaceDistances_def)
  from WallDistanceAt_concat [of "MatchingFaceDistances dne (WallADT_of config mesh) mesh"
      "MatchingFaceNInt mesh", OF this assms]
  show ?thesis
    using assms(1)
    by (simp add: MatchingFaceWallDistance_def Result_fields MatchingFacePointers_nth
        MatchingFaceOffset_def)
qed

lemma SurfElemWallDistance_Result:
  assumes "iMarker < length (boundaries mesh)"
    "\<not> periodicBoundary (boundaries mesh ! iMarker)"
    "l < length (surfElem (boundaries mesh ! iMarker))"
    "i < SurfElemNInt mesh (boundaries mesh ! iMarker) l"
  shows "SurfElemWallDistance (thisMesh (ComputeWall_DistanceResult dne config mesh)) iMarker l i =
         Some (SurfElemDistances dne (WallADT_of config mesh) mesh
                 (ZeroBoundary (WallADT_of config mesh) config iMarker)
                 (boundaries mesh ! iMarker) l ! i)"
proof -
  define bnd where "bnd = boundaries mesh ! iMarker"
  define adt where "adt = WallADT_of config mesh"
  have "length (SurfElemDistances dne adt mesh (ZeroBoundary adt config iMarker) bnd l') =
        SurfElemNInt mesh bnd l'" for l'
    by (simp add: SurfElemDistances_def)
  from WallDistanceAt_concat [of
      "SurfElemDistances dne adt mesh (ZeroBoundary adt config iMarker) bnd"
      "SurfElemNInt mesh bnd", OF this assms(3,4) [folded bnd_def]]
  show ?thesis
    using assms(1,2,3)
    by (simp add: SurfElemWallDistance_def Result_fields BoundaryResult_def Let_def
        bnd_def [symmetric] adt_def [symmetric] SurfElemPointers_nth SurfElemOffset_def)
qed

lemma BoundaryResult_periodic:
  "periodicBoundary (boundaries mesh ! iMarker) \<Longrightarrow>
   BoundaryResult dne adt config mesh iMarker = boundaries mesh ! iMarker"
  "periodicBoundary (boundaries mesh ! iMarker) \<Longrightarrow> BoundaryQueries adt config mesh iMarker = []"
  by (simp_all add: BoundaryResult_def BoundaryQueries_def)

lemma Step1_WallADT:
  assumes "length (boundaries mesh) \<le> 65535" "Step1 config mesh = Some e"
  shows "BuildWallADT e = WallADT_of config mesh"
  using assms by (simp add: Step1_eq WallADT_of_def)

text \<open>
  C1, as amended. If the tree is empty, the call returns, no query has been made, every wall
  distance of every integration point of the owned elements, of the matching faces and of
  the faces of the boundaries that are not periodic is 0, and so is every entry of the
  buffers written. For the faces of a periodic boundary no distance is stored, with an empty
  tree as with any other (line 291 encloses the zero loop of lines 325-329).
\<close>

theorem empty_tree_zero_distance:
  assumes "length (boundaries mesh) \<le> 65535"
    and "nVolElemOwned mesh \<le> length (volElem mesh)"
    and "Step1 config mesh = Some e"
    and "IsEmpty (BuildWallADT e)"
  shows "\<exists>s. ComputeWall_Distance DetermineNearestElement config mesh = Some s \<and>
           queryLog s = [] \<and>
           (\<forall>l<nVolElemOwned mesh. \<forall>i<VolElemNInt mesh l.
              VolElemWallDistance (thisMesh s) l i = Some 0) \<and>
           (\<forall>l<length (matchingFaces mesh). \<forall>i<MatchingFaceNInt mesh l.
              MatchingFaceWallDistance (thisMesh s) l i = Some 0) \<and>
           (\<forall>iMarker<length (boundaries mesh).
              \<not> periodicBoundary (boundaries mesh ! iMarker) \<longrightarrow>
              (\<forall>l<length (surfElem (boundaries mesh ! iMarker)).
                 \<forall>i<SurfElemNInt mesh (boundaries mesh ! iMarker) l.
                   SurfElemWallDistance (thisMesh s) iMarker l i = Some 0)) \<and>
           VecWallDistanceElements (thisMesh s) =
             replicate (CountVolElemIntPoints mesh) 0 \<and>
           VecWallDistanceInternalMatchingFaces (thisMesh s) =
             replicate (CountMatchingFaceIntPoints mesh) 0 \<and>
           (\<forall>iMarker<length (boundaries mesh).
              \<not> periodicBoundary (boundaries mesh ! iMarker) \<longrightarrow>
              VecWallDistanceBoundaryFaces (boundaries (thisMesh s) ! iMarker) =
                replicate (CountSurfElemIntPoints mesh (boundaries mesh ! iMarker)) 0)"
proof -
  define adt where "adt = WallADT_of config mesh"
  define s where "s = ComputeWall_DistanceResult DetermineNearestElement config mesh"
  have empty: "IsEmpty adt"
    using assms(4) Step1_WallADT [OF assms(1,3)] by (simp add: adt_def)
  note zero = IsEmpty_zero [OF empty]
  have ret: "ComputeWall_Distance DetermineNearestElement config mesh = Some s"
    unfolding s_def using assms(1,2) by (rule ComputeWall_Distance_eq)
  have bq: "BoundaryQueries adt config mesh iMarker = []" for iMarker
    by (simp add: BoundaryQueries_def Let_def concat_Nil [OF zero(6)])
  have log: "queryLog s = []"
    by (simp add: s_def Result_fields adt_def [symmetric] concat_Nil [OF zero(2)]
        concat_Nil [OF zero(4)] concat_Nil [OF bq])
  have vol: "VolElemWallDistance (thisMesh s) l i = Some 0"
    if "l < nVolElemOwned mesh" "i < VolElemNInt mesh l" for l i
    unfolding s_def using that
    by (simp add: VolElemWallDistance_Result [OF assms(2)] adt_def [symmetric] zero)
  have mf: "MatchingFaceWallDistance (thisMesh s) l i = Some 0"
    if "l < length (matchingFaces mesh)" "i < MatchingFaceNInt mesh l" for l i
    unfolding s_def using that
    by (simp add: MatchingFaceWallDistance_Result adt_def [symmetric] zero)
  have bnd: "SurfElemWallDistance (thisMesh s) iMarker l i = Some 0"
    if "iMarker < length (boundaries mesh)" "\<not> periodicBoundary (boundaries mesh ! iMarker)"
      "l < length (surfElem (boundaries mesh ! iMarker))"
      "i < SurfElemNInt mesh (boundaries mesh ! iMarker) l" for iMarker l i
    unfolding s_def using that
    by (simp add: SurfElemWallDistance_Result adt_def [symmetric] zero)
  have bufv: "VecWallDistanceElements (thisMesh s) = replicate (CountVolElemIntPoints mesh) 0"
    by (simp add: s_def Result_fields adt_def [symmetric] concat_replicate_0 [OF zero(1)]
        CountVolElemIntPoints_eq VolElemOffset_def)
  have bufm: "VecWallDistanceInternalMatchingFaces (thisMesh s) =
              replicate (CountMatchingFaceIntPoints mesh) 0"
    by (simp add: s_def Result_fields adt_def [symmetric] concat_replicate_0 [OF zero(3)]
        CountMatchingFaceIntPoints_eq MatchingFaceOffset_def)
  have bufb: "VecWallDistanceBoundaryFaces (boundaries (thisMesh s) ! iMarker) =
              replicate (CountSurfElemIntPoints mesh (boundaries mesh ! iMarker)) 0"
    if "iMarker < length (boundaries mesh)" "\<not> periodicBoundary (boundaries mesh ! iMarker)"
    for iMarker
    using that
    by (simp add: s_def Result_fields adt_def [symmetric] BoundaryResult_def Let_def
        concat_replicate_0 [OF zero(5)] CountSurfElemIntPoints_eq SurfElemOffset_def)
  from ret log vol mf bnd bufv bufm bufb show ?thesis by blast
qed

lemma ChannelMesh_counts:
  "CountVolElemIntPoints ChannelMesh = 2" "CountMatchingFaceIntPoints ChannelMesh = 1"
  "CountSurfElemIntPoints ChannelMesh (boundaries ChannelMesh ! 0) = 4"
  "VolElemNInt ChannelMesh (Suc 0) = 1"
  by (simp_all add: CountVolElemIntPoints_def CountMatchingFaceIntPoints_def
      CountSurfElemIntPoints_def VolElemNInt_def MatchingFaceNInt_def SurfElemNInt_def
      ChannelMesh_def LineFace_def upt_conv_Cons)

theorem empty_tree_zero_distance_witness:
  "length (boundaries ChannelMesh) \<le> 65535 \<and>
   nVolElemOwned ChannelMesh \<le> length (volElem ChannelMesh) \<and>
   Step1 NoWallConfig ChannelMesh = Some (Step1Result NoWallConfig ChannelMesh) \<and>
   IsEmpty (BuildWallADT (Step1Result NoWallConfig ChannelMesh)) \<and>
   (\<exists>s. ComputeWall_Distance ExampleQuery NoWallConfig ChannelMesh = Some s \<and>
        queryLog s = [] \<and>
        VolElemWallDistance (thisMesh s) 1 0 = Some 0 \<and>
        VecWallDistanceElements (thisMesh s) = [0, 0] \<and>
        VecWallDistanceInternalMatchingFaces (thisMesh s) = [0] \<and>
        VecWallDistanceBoundaryFaces (boundaries (thisMesh s) ! 0) = [0, 0, 0, 0])"
proof -
  have h1: "length (boundaries ChannelMesh) \<le> 65535"
    and h2: "nVolElemOwned ChannelMesh \<le> length (volElem ChannelMesh)"
    by (simp_all add: ChannelMesh_sizes)
  have h3: "Step1 NoWallConfig ChannelMesh = Some (Step1Result NoWallConfig ChannelMesh)"
    using h1 by (rule Step1_eq)
  have h4: "IsEmpty (BuildWallADT (Step1Result NoWallConfig ChannelMesh))"
    by (simp add: IsEmpty_def BuildWallADT_def Step1Result_def NoWall_empty)
  have np: "\<not> periodicBoundary (boundaries ChannelMesh ! 0)"
    by (simp add: ChannelMesh_def)
  from empty_tree_zero_distance [OF h1 h2 h3 h4, of ExampleQuery]
  obtain s where s: "ComputeWall_Distance ExampleQuery NoWallConfig ChannelMesh = Some s"
    "queryLog s = []"
    "\<forall>l<nVolElemOwned ChannelMesh. \<forall>i<VolElemNInt ChannelMesh l.
        VolElemWallDistance (thisMesh s) l i = Some 0"
    "VecWallDistanceElements (thisMesh s) = replicate (CountVolElemIntPoints ChannelMesh) 0"
    "VecWallDistanceInternalMatchingFaces (thisMesh s) =
       replicate (CountMatchingFaceIntPoints ChannelMesh) 0"
    "\<forall>iMarker<length (boundaries ChannelMesh).
        \<not> periodicBoundary (boundaries ChannelMesh ! iMarker) \<longrightarrow>
        VecWallDistanceBoundaryFaces (boundaries (thisMesh s) ! iMarker) =
          replicate (CountSurfElemIntPoints ChannelMesh (boundaries ChannelMesh ! iMarker)) 0"
    by blast
  have rep: "replicate 4 (0::real) = [0, 0, 0, 0]" "replicate 2 (0::real) = [0, 0]"
    by (simp_all add: eval_nat_numeral)
  have "VolElemWallDistance (thisMesh s) 1 0 = Some 0"
    using s(3) [rule_format, of 1 0] by (simp add: ChannelMesh_sizes ChannelMesh_counts)
  moreover have "VecWallDistanceBoundaryFaces (boundaries (thisMesh s) ! 0) = [0, 0, 0, 0]"
    using s(6) [rule_format, of 0] np
    by (simp add: ChannelMesh_sizes ChannelMesh_counts rep)
  ultimately show ?thesis
    using h1 h2 h3 h4 s(1,2,4,5) by (simp add: ChannelMesh_counts rep)
qed

subsection \<open>What the call leaves unchanged\<close>

lemma Step1_WallMarkerIDs: "WallMarkerIDs WallConfig ChannelMesh = [0, 0]"
  by (simp add: WallMarkerIDs_def OverWalls_def OverWallElems_def WallMarker_def
      ViscousWall_def GetMarker_All_KindBC_def WallConfig_def ChannelMesh_sizes upt_5)
    (simp add: ChannelMesh_def StdFace_def LineFace_def upt_conv_Cons)

text \<open>
  C9. With fewer than 65536 markers step 1 returns, and the mesh object it returns is the
  mesh object it was given: the boundaries with their surface elements, the standard
  elements and the mesh points are what they were. All the writes of step 1 go to the local
  vectors of the state.
\<close>

theorem extraction_leaves_mesh_unchanged:
  assumes "length (boundaries mesh) \<le> 65535"
  shows "\<exists>e. Step1 config mesh = Some e \<and> this e = mesh \<and>
           boundaries (this e) = boundaries mesh \<and>
           standardBoundaryFacesGrid (this e) = standardBoundaryFacesGrid mesh \<and>
           meshPoints (this e) = meshPoints mesh"
  using Step1_eq [OF assms, of config] by (simp add: Step1Result_def)

theorem extraction_leaves_mesh_unchanged_witness:
  "length (boundaries ChannelMesh) \<le> 65535 \<and>
   (\<exists>e. Step1 WallConfig ChannelMesh = Some e \<and> this e = ChannelMesh \<and>
        markerIDs e = [0, 0])"
proof -
  have h: "length (boundaries ChannelMesh) \<le> 65535"
    by (simp add: ChannelMesh_sizes)
  from extraction_leaves_mesh_unchanged [OF h, of WallConfig]
  obtain e where "Step1 WallConfig ChannelMesh = Some e" "this e = ChannelMesh"
    by blast
  moreover from this(1) have "markerIDs e = [0, 0]"
    by (auto simp add: Step1_eq [OF h] Step1Result_def Step1_WallMarkerIDs)
  ultimately show ?thesis using h by blast
qed

text \<open>
  C10. The loop of step 5 leaves a periodic boundary as it was: its buffer is not resized or
  written, the pointers of its surface elements are not set, whatever the number of
  integration points of its faces, and no query is made for its faces.
\<close>

theorem periodic_boundary_untouched:
  assumes "length (boundaries mesh) \<le> 65535"
    and "nVolElemOwned mesh \<le> length (volElem mesh)"
    and "iMarker < length (boundaries mesh)"
    and "periodicBoundary (boundaries mesh ! iMarker)"
  shows "\<exists>s. ComputeWall_Distance DetermineNearestElement config mesh = Some s \<and>
           boundaries (thisMesh s) ! iMarker = boundaries mesh ! iMarker \<and>
           VecWallDistanceBoundaryFaces (boundaries (thisMesh s) ! iMarker) =
             VecWallDistanceBoundaryFaces (boundaries mesh ! iMarker) \<and>
           map wallDistance (surfElem (boundaries (thisMesh s) ! iMarker)) =
             map wallDistance (surfElem (boundaries mesh ! iMarker)) \<and>
           filter (\<lambda>q. FromBoundary iMarker (fst q)) (queryLog s) = []"
proof -
  define adt where "adt = WallADT_of config mesh"
  have "FromBoundary iMarker (fst q) = False"
    if "q \<in> set (VolElemQueries adt mesh l)" for q l
    using that by (auto simp add: VolElemQueries_def EntityQueries_def FromBoundary_def
        split: if_splits)
  then have v: "filter (\<lambda>q. FromBoundary iMarker (fst q))
                  (concat (map (VolElemQueries adt mesh) xs)) = []" for xs
    by (auto simp add: filter_empty_conv)
  have "FromBoundary iMarker (fst q) = False"
    if "q \<in> set (MatchingFaceQueries adt mesh l)" for q l
    using that by (auto simp add: MatchingFaceQueries_def EntityQueries_def FromBoundary_def
        split: if_splits)
  then have m: "filter (\<lambda>q. FromBoundary iMarker (fst q))
                  (concat (map (MatchingFaceQueries adt mesh) xs)) = []" for xs
    by (auto simp add: filter_empty_conv)
  have "FromBoundary iMarker (fst q) = False"
    if "q \<in> set (BoundaryQueries adt config mesh k)" for q k
  proof (cases "k = iMarker")
    case True
    with that assms(4) show ?thesis
      by (simp add: BoundaryResult_periodic)
  next
    case False
    with that show ?thesis
      by (auto simp add: BoundaryQueries_def Let_def SurfElemQueries_def EntityQueries_def
          FromBoundary_def split: if_splits)
  qed
  then have b: "filter (\<lambda>q. FromBoundary iMarker (fst q))
                  (concat (map (BoundaryQueries adt config mesh) xs)) = []" for xs
    by (auto simp add: filter_empty_conv)
  show ?thesis
    using assms(3,4)
    by (simp add: ComputeWall_Distance_eq [OF assms(1,2)] Result_fields
        BoundaryResult_periodic adt_def [symmetric] v m b)
qed

theorem periodic_boundary_untouched_witness:
  "length (boundaries ChannelMesh) \<le> 65535 \<and>
   nVolElemOwned ChannelMesh \<le> length (volElem ChannelMesh) \<and>
   2 < length (boundaries ChannelMesh) \<and>
   periodicBoundary (boundaries ChannelMesh ! 2) \<and>
   CountSurfElemIntPoints ChannelMesh (boundaries ChannelMesh ! 2) = 2 \<and>
   (\<exists>s. ComputeWall_Distance ExampleQuery WallConfig ChannelMesh = Some s \<and>
        VecWallDistanceBoundaryFaces (boundaries (thisMesh s) ! 2) = [] \<and>
        map wallDistance (surfElem (boundaries (thisMesh s) ! 2)) = [None])"
proof -
  have h: "length (boundaries ChannelMesh) \<le> 65535"
    "nVolElemOwned ChannelMesh \<le> length (volElem ChannelMesh)"
    "2 < length (boundaries ChannelMesh)"
    by (simp_all add: ChannelMesh_sizes)
  have p: "periodicBoundary (boundaries ChannelMesh ! 2)"
    by (simp add: ChannelMesh_def)
  have c: "CountSurfElemIntPoints ChannelMesh (boundaries ChannelMesh ! 2) = 2"
    by (simp add: CountSurfElemIntPoints_def SurfElemNInt_def ChannelMesh_def LineFace_def)
  have i: "VecWallDistanceBoundaryFaces (boundaries ChannelMesh ! 2) = []"
    "map wallDistance (surfElem (boundaries ChannelMesh ! 2)) = [None]"
    by (simp_all add: ChannelMesh_def)
  from periodic_boundary_untouched [OF h p, of ExampleQuery WallConfig]
  show ?thesis using h p c i by auto
qed

subsection \<open>The faces of a viscous wall\<close>

lemma no_boundary_queries:
  assumes "periodicBoundary (boundaries mesh ! iMarker) \<or> ZeroBoundary adt config iMarker"
  shows "filter (\<lambda>q. FromBoundary iMarker (fst q))
           (concat (map (VolElemQueries adt mesh) xs) @
            concat (map (MatchingFaceQueries adt mesh) ys) @
            concat (map (BoundaryQueries adt config mesh) zs)) = []"
proof -
  have "FromBoundary iMarker (fst q) = False"
    if "q \<in> set (VolElemQueries adt mesh l)" for q l
    using that by (auto simp add: VolElemQueries_def EntityQueries_def FromBoundary_def
        split: if_splits)
  then have v: "filter (\<lambda>q. FromBoundary iMarker (fst q))
                  (concat (map (VolElemQueries adt mesh) xs)) = []"
    by (auto simp add: filter_empty_conv)
  have "FromBoundary iMarker (fst q) = False"
    if "q \<in> set (MatchingFaceQueries adt mesh l)" for q l
    using that by (auto simp add: MatchingFaceQueries_def EntityQueries_def FromBoundary_def
        split: if_splits)
  then have m: "filter (\<lambda>q. FromBoundary iMarker (fst q))
                  (concat (map (MatchingFaceQueries adt mesh) ys)) = []"
    by (auto simp add: filter_empty_conv)
  have "FromBoundary iMarker (fst q) = False"
    if "q \<in> set (BoundaryQueries adt config mesh k)" for q k
  proof (cases "k = iMarker")
    case True
    with that assms show ?thesis
      by (auto simp add: BoundaryQueries_def Let_def SurfElemQueries_def EntityQueries_def
          split: if_splits)
  next
    case False
    with that show ?thesis
      by (auto simp add: BoundaryQueries_def Let_def SurfElemQueries_def EntityQueries_def
          FromBoundary_def split: if_splits)
  qed
  then have b: "filter (\<lambda>q. FromBoundary iMarker (fst q))
                  (concat (map (BoundaryQueries adt config mesh) zs)) = []"
    by (auto simp add: filter_empty_conv)
  show ?thesis by (simp add: v m b)
qed

lemma Result_boundary_nth:
  "iMarker < length (boundaries mesh) \<Longrightarrow>
   boundaries (thisMesh (ComputeWall_DistanceResult dne config mesh)) ! iMarker =
   BoundaryResult dne (WallADT_of config mesh) config mesh iMarker"
  by (simp add: Result_fields)

text \<open>
  C2, as amended. For a marker that is not periodic and whose kind is \<open>HEAT_FLUX\<close> or
  \<open>ISOTHERMAL\<close>, the wall distance stored for every integration point of every face is 0,
  the buffer of the marker holds nothing but zeros, and no query is made for its faces.
\<close>

theorem viscous_wall_face_zero_distance:
  assumes "length (boundaries mesh) \<le> 65535"
    and "nVolElemOwned mesh \<le> length (volElem mesh)"
    and "iMarker < length (boundaries mesh)"
    and "\<not> periodicBoundary (boundaries mesh ! iMarker)"
    and "GetMarker_All_KindBC config iMarker = HEAT_FLUX \<or>
         GetMarker_All_KindBC config iMarker = ISOTHERMAL"
  shows "\<exists>s. ComputeWall_Distance DetermineNearestElement config mesh = Some s \<and>
           (\<forall>l<length (surfElem (boundaries mesh ! iMarker)).
              \<forall>i<SurfElemNInt mesh (boundaries mesh ! iMarker) l.
                SurfElemWallDistance (thisMesh s) iMarker l i = Some 0) \<and>
           VecWallDistanceBoundaryFaces (boundaries (thisMesh s) ! iMarker) =
             replicate (CountSurfElemIntPoints mesh (boundaries mesh ! iMarker)) 0 \<and>
           filter (\<lambda>q. FromBoundary iMarker (fst q)) (queryLog s) = []"
proof -
  define adt where "adt = WallADT_of config mesh"
  define s where "s = ComputeWall_DistanceResult DetermineNearestElement config mesh"
  have zb: "ZeroBoundary adt config iMarker"
    using assms(5) by (simp add: ZeroBoundary_def ViscousWall_def)
  have zero: "SurfElemDistances DetermineNearestElement adt mesh
                (ZeroBoundary adt config iMarker) bnd l = replicate (SurfElemNInt mesh bnd l) 0"
    for bnd l
    using zb by (simp add: SurfElemDistances_def EntityDistances_def)
  have ret: "ComputeWall_Distance DetermineNearestElement config mesh = Some s"
    unfolding s_def using assms(1,2) by (rule ComputeWall_Distance_eq)
  have bnd: "SurfElemWallDistance (thisMesh s) iMarker l i = Some 0"
    if "l < length (surfElem (boundaries mesh ! iMarker))"
      "i < SurfElemNInt mesh (boundaries mesh ! iMarker) l" for l i
    unfolding s_def using that assms(3,4)
    by (simp add: SurfElemWallDistance_Result adt_def [symmetric] zero)
  have buf: "VecWallDistanceBoundaryFaces (boundaries (thisMesh s) ! iMarker) =
             replicate (CountSurfElemIntPoints mesh (boundaries mesh ! iMarker)) 0"
    using assms(3,4)
    by (simp add: s_def Result_fields adt_def [symmetric] BoundaryResult_def Let_def
        concat_replicate_0 [OF zero] CountSurfElemIntPoints_eq SurfElemOffset_def)
  have log: "filter (\<lambda>q. FromBoundary iMarker (fst q)) (queryLog s) = []"
    unfolding s_def Result_fields adt_def [symmetric]
    by (rule no_boundary_queries) (simp add: zb)
  from ret bnd buf log show ?thesis by blast
qed

theorem viscous_wall_face_zero_distance_witness:
  "length (boundaries ChannelMesh) \<le> 65535 \<and>
   nVolElemOwned ChannelMesh \<le> length (volElem ChannelMesh) \<and>
   0 < length (boundaries ChannelMesh) \<and>
   \<not> periodicBoundary (boundaries ChannelMesh ! 0) \<and>
   GetMarker_All_KindBC WallConfig 0 = HEAT_FLUX \<and>
   (\<exists>s. ComputeWall_Distance ExampleQuery WallConfig ChannelMesh = Some s \<and>
        SurfElemWallDistance (thisMesh s) 0 1 1 = Some 0 \<and>
        VecWallDistanceBoundaryFaces (boundaries (thisMesh s) ! 0) = [0, 0, 0, 0] \<and>
        filter (\<lambda>q. FromBoundary 0 (fst q)) (queryLog s) = [])"
proof -
  have h: "length (boundaries ChannelMesh) \<le> 65535"
    "nVolElemOwned ChannelMesh \<le> length (volElem ChannelMesh)"
    "0 < length (boundaries ChannelMesh)"
    by (simp_all add: ChannelMesh_sizes)
  have np: "\<not> periodicBoundary (boundaries ChannelMesh ! 0)"
    by (simp add: ChannelMesh_def)
  have k: "GetMarker_All_KindBC WallConfig 0 = HEAT_FLUX"
    by (simp add: GetMarker_All_KindBC_def WallConfig_def)
  then have k': "GetMarker_All_KindBC WallConfig 0 = HEAT_FLUX \<or>
                 GetMarker_All_KindBC WallConfig 0 = ISOTHERMAL" ..
  have n: "length (surfElem (boundaries ChannelMesh ! 0)) = 2"
    "SurfElemNInt ChannelMesh (boundaries ChannelMesh ! 0) (Suc 0) = 2"
    by (simp_all add: SurfElemNInt_def ChannelMesh_def LineFace_def)
  have rep: "replicate 4 (0::real) = [0, 0, 0, 0]"
    by (simp add: eval_nat_numeral)
  from viscous_wall_face_zero_distance [OF h np k', of ExampleQuery]
  obtain s where s: "ComputeWall_Distance ExampleQuery WallConfig ChannelMesh = Some s"
    "\<forall>l<length (surfElem (boundaries ChannelMesh ! 0)).
       \<forall>i<SurfElemNInt ChannelMesh (boundaries ChannelMesh ! 0) l.
         SurfElemWallDistance (thisMesh s) 0 l i = Some 0"
    "VecWallDistanceBoundaryFaces (boundaries (thisMesh s) ! 0) =
       replicate (CountSurfElemIntPoints ChannelMesh (boundaries ChannelMesh ! 0)) 0"
    "filter (\<lambda>q. FromBoundary 0 (fst q)) (queryLog s) = []"
    by blast
  have "SurfElemWallDistance (thisMesh s) 0 1 1 = Some 0"
    using s(2) [rule_format, of 1 1] by (simp add: n)
  then show ?thesis
    using h np k s(1,3,4) by (simp add: ChannelMesh_counts rep)
qed

text \<open>
  C2 as stated fails for a marker that is periodic: marker 2 of the channel is periodic, its
  kind is \<open>HEAT_FLUX\<close>, its face has two integration points, and after the call no
  distance is stored for them (the pointer of the face is not set).
\<close>

theorem viscous_wall_face_zero_distance_counterexample:
  "GetMarker_All_KindBC PeriodicWallConfig 2 = HEAT_FLUX \<and>
   2 < length (boundaries ChannelMesh) \<and>
   0 < length (surfElem (boundaries ChannelMesh ! 2)) \<and>
   SurfElemNInt ChannelMesh (boundaries ChannelMesh ! 2) 0 = 2 \<and>
   ComputeWall_Distance ExampleQuery PeriodicWallConfig ChannelMesh \<noteq> None \<and>
   SurfElemWallDistance
     (thisMesh (the (ComputeWall_Distance ExampleQuery PeriodicWallConfig ChannelMesh))) 2 0 0 =
     None"
proof -
  have h: "length (boundaries ChannelMesh) \<le> 65535"
    "nVolElemOwned ChannelMesh \<le> length (volElem ChannelMesh)"
    by (simp_all add: ChannelMesh_sizes)
  have p: "periodicBoundary (boundaries ChannelMesh ! 2)"
    by (simp add: ChannelMesh_def)
  have b: "boundaries (thisMesh (ComputeWall_DistanceResult ExampleQuery PeriodicWallConfig
             ChannelMesh)) ! 2 = boundaries ChannelMesh ! 2"
    by (simp add: Result_boundary_nth ChannelMesh_sizes BoundaryResult_periodic(1) [OF p])
  have "SurfElemWallDistance
     (thisMesh (ComputeWall_DistanceResult ExampleQuery PeriodicWallConfig ChannelMesh)) 2 0 0 =
     None"
    unfolding SurfElemWallDistance_def b
    by (simp add: ChannelMesh_def WallDistanceAt_def)
  then show ?thesis
    by (simp add: ComputeWall_Distance_eq [OF h] GetMarker_All_KindBC_def
        PeriodicWallConfig_def ChannelMesh_sizes)
      (simp add: ChannelMesh_def SurfElemNInt_def LineFace_def)
qed

text \<open>
  C1 as stated fails for the faces of a periodic boundary: without a wall marker the tree
  of the channel is empty, the face of the periodic marker 2 has two integration points,
  and after the call no distance is stored for them (the buffer of the marker is empty and
  the pointer of the face is not set).
\<close>

theorem empty_tree_zero_distance_counterexample:
  "Step1 NoWallConfig ChannelMesh \<noteq> None \<and>
   IsEmpty (BuildWallADT (the (Step1 NoWallConfig ChannelMesh))) \<and>
   2 < length (boundaries ChannelMesh) \<and>
   periodicBoundary (boundaries ChannelMesh ! 2) \<and>
   0 < length (surfElem (boundaries ChannelMesh ! 2)) \<and>
   SurfElemNInt ChannelMesh (boundaries ChannelMesh ! 2) 0 = 2 \<and>
   ComputeWall_Distance ExampleQuery NoWallConfig ChannelMesh \<noteq> None \<and>
   SurfElemWallDistance
     (thisMesh (the (ComputeWall_Distance ExampleQuery NoWallConfig ChannelMesh))) 2 0 0 = None \<and>
   VecWallDistanceBoundaryFaces
     (boundaries (thisMesh (the (ComputeWall_Distance ExampleQuery NoWallConfig ChannelMesh))) ! 2) =
     []"
proof -
  have h: "length (boundaries ChannelMesh) \<le> 65535"
    "nVolElemOwned ChannelMesh \<le> length (volElem ChannelMesh)"
    by (simp_all add: ChannelMesh_sizes)
  have e: "Step1 NoWallConfig ChannelMesh = Some (Step1Result NoWallConfig ChannelMesh)"
    using h(1) by (rule Step1_eq)
  have t: "IsEmpty (BuildWallADT (Step1Result NoWallConfig ChannelMesh))"
    by (simp add: IsEmpty_def BuildWallADT_def Step1Result_def NoWall_empty)
  have p: "periodicBoundary (boundaries ChannelMesh ! 2)"
    by (simp add: ChannelMesh_def)
  have b: "boundaries (thisMesh (ComputeWall_DistanceResult ExampleQuery NoWallConfig
             ChannelMesh)) ! 2 = boundaries ChannelMesh ! 2"
    by (simp add: Result_boundary_nth ChannelMesh_sizes BoundaryResult_periodic(1) [OF p])
  have d: "SurfElemWallDistance
     (thisMesh (ComputeWall_DistanceResult ExampleQuery NoWallConfig ChannelMesh)) 2 0 0 = None"
    unfolding SurfElemWallDistance_def b
    by (simp add: ChannelMesh_def WallDistanceAt_def)
  have v: "VecWallDistanceBoundaryFaces
     (boundaries (thisMesh (ComputeWall_DistanceResult ExampleQuery NoWallConfig ChannelMesh)) ! 2) =
     []"
    unfolding b by (simp add: ChannelMesh_def)
  have n: "2 < length (boundaries ChannelMesh)"
    "0 < length (surfElem (boundaries ChannelMesh ! 2))"
    "SurfElemNInt ChannelMesh (boundaries ChannelMesh ! 2) 0 = 2"
    by (simp_all add: ChannelMesh_def SurfElemNInt_def LineFace_def)
  show ?thesis
    unfolding e ComputeWall_Distance_eq [OF h] option.sel
    using t p d v n by simp
qed

subsection \<open>The slices of the buffers\<close>

lemma sum_take_mono:
  "k \<le> l \<Longrightarrow> sum_list (take k cs) \<le> sum_list (take l (cs::nat list))"
proof -
  assume "k \<le> l"
  then obtain d where "l = k + d" by (auto simp add: le_iff_add)
  then show ?thesis by (simp add: take_add)
qed

lemma sum_take_Suc:
  "k < length cs \<Longrightarrow> sum_list (take (Suc k) cs) = sum_list (take k cs) + (cs::nat list) ! k"
  by (simp add: take_Suc_conv_app_nth)

lemma prefix_sums_cover:
  "x < sum_list cs \<Longrightarrow>
   \<exists>l<length cs. sum_list (take l cs) \<le> x \<and> x < sum_list (take l cs) + (cs::nat list) ! l"
proof (induction cs rule: rev_induct)
  case Nil
  then show ?case by simp
next
  case (snoc y ys)
  show ?case
  proof (cases "x < sum_list ys")
    case True
    with snoc.IH obtain l where "l < length ys" "sum_list (take l ys) \<le> x"
      "x < sum_list (take l ys) + ys ! l" by blast
    then show ?thesis
      by (intro exI [of _ l]) (simp add: nth_append)
  next
    case False
    with snoc.prems show ?thesis
      by (intro exI [of _ "length ys"]) simp
  qed
qed

lemma SlicesTile_prefix_sums:
  assumes "ptrs = map (\<lambda>l. Some (sum_list (take l counts))) [0..<length counts]"
  shows "SlicesTile counts ptrs (sum_list counts)"
proof -
  have ptr: "ptrs ! l = Some (sum_list (take l counts))" if "l < length counts" for l
    using that by (simp add: assms)
  have disj: "a + counts ! k \<le> b"
    if "l < length counts" "k < l" "ptrs ! k = Some a" "ptrs ! l = Some b" for l k a b
  proof -
    have "a = sum_list (take k counts)" "b = sum_list (take l counts)"
      using that ptr [of k] ptr [of l] by simp_all
    moreover have "sum_list (take (Suc k) counts) \<le> sum_list (take l counts)"
      using that by (intro sum_take_mono) simp
    ultimately show ?thesis
      using that by (simp add: sum_take_Suc)
  qed
  have cover: "\<exists>l<length counts. \<exists>a. ptrs ! l = Some a \<and> a \<le> x \<and> x < a + counts ! l"
    if "x < sum_list counts" for x
    using prefix_sums_cover [OF that] ptr by blast
  show ?thesis
    unfolding SlicesTile_def
  proof (intro conjI allI impI)
    show "length ptrs = length counts" by (simp add: assms)
    show "sum_list counts = sum_list counts" ..
    show "ptrs ! l = Some (sum_list (take l counts))" if "l < length counts" for l
      using that by (rule ptr)
    show "a + counts ! k \<le> b"
      if "l < length counts" "k < l" "ptrs ! k = Some a \<and> ptrs ! l = Some b" for l k a b
      using that disj by blast
    show "\<exists>l<length counts. \<exists>a. ptrs ! l = Some a \<and> a \<le> x \<and> x < a + counts ! l"
      if "x < sum_list counts" for x
      using that by (rule cover)
  qed
qed

lemma take_map_upt: "l \<le> n \<Longrightarrow> take l (map f [0..<n]) = map f [0..<l]"
  by (simp add: take_map min_absorb2)

lemma SlicesTile_offsets:
  assumes "\<And>l. l < n \<Longrightarrow> ptrs ! l = Some (sum_list (map cnt [0..<l]))"
    and "length ptrs = n" and "len = sum_list (map cnt [0..<n])"
  shows "SlicesTile (map cnt [0..<n]) ptrs len"
proof -
  have "ptrs = map (\<lambda>l. Some (sum_list (take l (map cnt [0..<n])))) [0..<length (map cnt [0..<n])]"
    using assms(1,2) by (intro nth_equalityI) (simp_all add: take_map_upt)
  from SlicesTile_prefix_sums [OF this] show ?thesis
    by (simp add: assms(3))
qed

text \<open>
  C4, as amended. For the owned volume elements, for the internal matching faces and for the
  faces of every boundary that is not periodic: the buffer has as many entries as the
  entities have integration points, the pointer of an entity is the buffer plus the number
  of integration points of the entities before it, two entities do not overlap, and every
  entry of the buffer belongs to an entity.
\<close>

theorem buffers_tiled_by_entities:
  assumes "length (boundaries mesh) \<le> 65535"
    and "nVolElemOwned mesh \<le> length (volElem mesh)"
  shows "\<exists>s. ComputeWall_Distance DetermineNearestElement config mesh = Some s \<and>
           SlicesTile (map (VolElemNInt mesh) [0..<nVolElemOwned mesh])
             (map (\<lambda>l. elem_wallDistance (volElem (thisMesh s) ! l)) [0..<nVolElemOwned mesh])
             (length (VecWallDistanceElements (thisMesh s))) \<and>
           SlicesTile (map (MatchingFaceNInt mesh) [0..<length (matchingFaces mesh)])
             (map face_wallDistance (matchingFaces (thisMesh s)))
             (length (VecWallDistanceInternalMatchingFaces (thisMesh s))) \<and>
           (\<forall>iMarker<length (boundaries mesh).
              \<not> periodicBoundary (boundaries mesh ! iMarker) \<longrightarrow>
              SlicesTile
                (map (SurfElemNInt mesh (boundaries mesh ! iMarker))
                     [0..<length (surfElem (boundaries mesh ! iMarker))])
                (map wallDistance (surfElem (boundaries (thisMesh s) ! iMarker)))
                (length (VecWallDistanceBoundaryFaces (boundaries (thisMesh s) ! iMarker))))"
proof -
  define adt where "adt = WallADT_of config mesh"
  define s where "s = ComputeWall_DistanceResult DetermineNearestElement config mesh"
  have ret: "ComputeWall_Distance DetermineNearestElement config mesh = Some s"
    unfolding s_def using assms by (rule ComputeWall_Distance_eq)
  have vol: "SlicesTile (map (VolElemNInt mesh) [0..<nVolElemOwned mesh])
             (map (\<lambda>l. elem_wallDistance (volElem (thisMesh s) ! l)) [0..<nVolElemOwned mesh])
             (length (VecWallDistanceElements (thisMesh s)))"
    using assms(2)
    by (intro SlicesTile_offsets)
      (simp_all add: s_def Result_fields VolElemPointers_nth VolElemOffset_def
        VolElemDistances_def length_concat o_def)
  have mf: "SlicesTile (map (MatchingFaceNInt mesh) [0..<length (matchingFaces mesh)])
             (map face_wallDistance (matchingFaces (thisMesh s)))
             (length (VecWallDistanceInternalMatchingFaces (thisMesh s)))"
    by (intro SlicesTile_offsets)
      (simp_all add: s_def Result_fields MatchingFacePointers_def MatchingFaceOffset_def
        MatchingFaceDistances_def length_concat o_def)
  have bnd: "SlicesTile
                (map (SurfElemNInt mesh (boundaries mesh ! iMarker))
                     [0..<length (surfElem (boundaries mesh ! iMarker))])
                (map wallDistance (surfElem (boundaries (thisMesh s) ! iMarker)))
                (length (VecWallDistanceBoundaryFaces (boundaries (thisMesh s) ! iMarker)))"
    if "iMarker < length (boundaries mesh)" "\<not> periodicBoundary (boundaries mesh ! iMarker)"
    for iMarker
    using that
    by (intro SlicesTile_offsets)
      (simp_all add: s_def Result_boundary_nth BoundaryResult_def Let_def SurfElemPointers_def
        SurfElemOffset_def SurfElemDistances_def length_concat o_def)
  from ret vol mf bnd show ?thesis by blast
qed

lemma ChannelMesh_NInt:
  "map (VolElemNInt ChannelMesh) [0..<nVolElemOwned ChannelMesh] = [1, 1]"
  "map (SurfElemNInt ChannelMesh (boundaries ChannelMesh ! 0))
       [0..<length (surfElem (boundaries ChannelMesh ! 0))] = [2, 2]"
  by (simp_all add: VolElemNInt_def SurfElemNInt_def ChannelMesh_def LineFace_def upt_conv_Cons)

lemma SlicesTileD:
  assumes "SlicesTile counts ptrs len"
  shows "len = sum_list counts" and "length ptrs = length counts"
    and "l < length counts \<Longrightarrow> ptrs ! l = Some (sum_list (take l counts))"
  using assms by (simp_all add: SlicesTile_def)

theorem buffers_tiled_by_entities_witness:
  "length (boundaries ChannelMesh) \<le> 65535 \<and>
   nVolElemOwned ChannelMesh \<le> length (volElem ChannelMesh) \<and>
   (\<exists>s. ComputeWall_Distance ExampleQuery WallConfig ChannelMesh = Some s \<and>
        length (VecWallDistanceElements (thisMesh s)) = 2 \<and>
        elem_wallDistance (volElem (thisMesh s) ! 1) = Some 1 \<and>
        length (VecWallDistanceBoundaryFaces (boundaries (thisMesh s) ! 0)) = 4 \<and>
        wallDistance (surfElem (boundaries (thisMesh s) ! 0) ! 1) = Some 2)"
proof -
  have h: "length (boundaries ChannelMesh) \<le> 65535"
    "nVolElemOwned ChannelMesh \<le> length (volElem ChannelMesh)"
    by (simp_all add: ChannelMesh_sizes)
  have np: "0 < length (boundaries ChannelMesh)"
    "\<not> periodicBoundary (boundaries ChannelMesh ! 0)"
    by (simp_all add: ChannelMesh_def)
  from buffers_tiled_by_entities [OF h, of ExampleQuery WallConfig]
  obtain s where s: "ComputeWall_Distance ExampleQuery WallConfig ChannelMesh = Some s"
    and vol: "SlicesTile (map (VolElemNInt ChannelMesh) [0..<nVolElemOwned ChannelMesh])
             (map (\<lambda>l. elem_wallDistance (volElem (thisMesh s) ! l))
                  [0..<nVolElemOwned ChannelMesh])
             (length (VecWallDistanceElements (thisMesh s)))"
    and bnd: "\<forall>iMarker<length (boundaries ChannelMesh).
              \<not> periodicBoundary (boundaries ChannelMesh ! iMarker) \<longrightarrow>
              SlicesTile
                (map (SurfElemNInt ChannelMesh (boundaries ChannelMesh ! iMarker))
                     [0..<length (surfElem (boundaries ChannelMesh ! iMarker))])
                (map wallDistance (surfElem (boundaries (thisMesh s) ! iMarker)))
                (length (VecWallDistanceBoundaryFaces (boundaries (thisMesh s) ! iMarker)))"
    by blast
  have v: "length (VecWallDistanceElements (thisMesh s)) = 2"
    "map (\<lambda>l. elem_wallDistance (volElem (thisMesh s) ! l)) [0..<nVolElemOwned ChannelMesh] ! 1 =
       Some 1"
    using SlicesTileD(1) [OF vol] SlicesTileD(3) [OF vol, of 1]
    unfolding ChannelMesh_NInt by simp_all
  from bnd np have "SlicesTile
                (map (SurfElemNInt ChannelMesh (boundaries ChannelMesh ! 0))
                     [0..<length (surfElem (boundaries ChannelMesh ! 0))])
                (map wallDistance (surfElem (boundaries (thisMesh s) ! 0)))
                (length (VecWallDistanceBoundaryFaces (boundaries (thisMesh s) ! 0)))"
    by blast
  then have bt: "SlicesTile [2, 2]
                (map wallDistance (surfElem (boundaries (thisMesh s) ! 0)))
                (length (VecWallDistanceBoundaryFaces (boundaries (thisMesh s) ! 0)))"
    unfolding ChannelMesh_NInt .
  have b: "length (VecWallDistanceBoundaryFaces (boundaries (thisMesh s) ! 0)) = 4"
    "map wallDistance (surfElem (boundaries (thisMesh s) ! 0)) ! 1 = Some 2"
    "length (map wallDistance (surfElem (boundaries (thisMesh s) ! 0))) = 2"
    using SlicesTileD(1,2) [OF bt] SlicesTileD(3) [OF bt, of 1] by simp_all
  from v(2) have "elem_wallDistance (volElem (thisMesh s) ! 1) = Some 1"
    by (simp add: ChannelMesh_sizes)
  moreover from b(2,3) have "wallDistance (surfElem (boundaries (thisMesh s) ! 0) ! 1) = Some 2"
    by simp
  ultimately show ?thesis
    using h s v(1) b(1) by blast
qed

text \<open>
  C4 as stated fails for a periodic marker: the face of marker 2 of the channel has two
  integration points, and after the call the buffer of the marker is empty and the pointer
  of the face is not set.
\<close>

theorem buffers_tiled_by_entities_counterexample:
  "2 < length (boundaries ChannelMesh) \<and>
   periodicBoundary (boundaries ChannelMesh ! 2) \<and>
   CountSurfElemIntPoints ChannelMesh (boundaries ChannelMesh ! 2) = 2 \<and>
   ComputeWall_Distance ExampleQuery WallConfig ChannelMesh \<noteq> None \<and>
   length (VecWallDistanceBoundaryFaces
     (boundaries (thisMesh (the (ComputeWall_Distance ExampleQuery WallConfig ChannelMesh))) ! 2))
     = 0 \<and>
   wallDistance (surfElem
     (boundaries (thisMesh (the (ComputeWall_Distance ExampleQuery WallConfig ChannelMesh))) ! 2)
     ! 0) = None"
proof -
  have h: "length (boundaries ChannelMesh) \<le> 65535"
    "nVolElemOwned ChannelMesh \<le> length (volElem ChannelMesh)"
    by (simp_all add: ChannelMesh_sizes)
  have p: "periodicBoundary (boundaries ChannelMesh ! 2)"
    by (simp add: ChannelMesh_def)
  have b: "boundaries (thisMesh (ComputeWall_DistanceResult ExampleQuery WallConfig
             ChannelMesh)) ! 2 = boundaries ChannelMesh ! 2"
    by (simp add: Result_boundary_nth ChannelMesh_sizes BoundaryResult_periodic(1) [OF p])
  have c: "CountSurfElemIntPoints ChannelMesh (boundaries ChannelMesh ! 2) = 2"
    by (simp add: CountSurfElemIntPoints_def SurfElemNInt_def ChannelMesh_def LineFace_def)
  show ?thesis
    unfolding ComputeWall_Distance_eq [OF h] option.sel b
    using p c by (simp add: ChannelMesh_sizes) (simp add: ChannelMesh_def)
qed

subsection \<open>The markers of the sub-elements\<close>

lemma filter_own_block:
  assumes "\<And>m. set (g m) \<subseteq> {m}"
  shows "filter (\<lambda>x. x = k) (concat (map g [0..<n])) = (if k < n then g k else [])"
proof (induction n)
  case 0
  then show ?case by simp
next
  case (Suc n)
  have own: "filter (\<lambda>x. x = k) (g k) = g k"
    using assms [of k] by (auto simp add: filter_id_conv)
  have other: "filter (\<lambda>x. x = k) (g n) = []" if "k \<noteq> n"
    using assms [of n] that by (auto simp add: filter_empty_conv)
  show ?case
    using Suc own other by (cases "k = n") (simp_all add: less_Suc_eq)
qed

lemma sum_list_map_nth:
  "sum_list (map (\<lambda>i. f (xs ! i)) [0..<length xs]) = sum_list (map (f::'a \<Rightarrow> nat) xs)"
proof -
  have "map (\<lambda>i. f (xs ! i)) [0..<length xs] = map f xs"
    by (intro nth_equalityI) simp_all
  then show ?thesis by simp
qed

lemma sum_list_pos_iff:
  "0 < sum_list (map f xs) \<longleftrightarrow> (\<exists>x \<in> set xs. 0 < (f x :: nat))"
  by (induction xs) auto

lemma concat_replicate_same:
  "concat (map (\<lambda>i. replicate (c i) m) xs) = replicate (sum_list (map c xs)) m"
  by (induction xs) (simp_all add: replicate_add)

lemma WallMarkerIDs_block:
  "OverWallElems config mesh (\<lambda>iMarker i e. replicate (GetNSubFaces (StdFace mesh e)) iMarker) m =
   replicate (if WallMarker config mesh m
              then sum_list (map (\<lambda>e. GetNSubFaces (StdFace mesh e))
                                 (surfElem (boundaries mesh ! m)))
              else 0) m"
  by (simp add: OverWallElems_def concat_replicate_same
      sum_list_map_nth [of "\<lambda>e. GetNSubFaces (StdFace mesh e)"])

lemma filter_WallMarkerIDs:
  assumes "iMarker < length (boundaries mesh)"
  shows "filter (\<lambda>m. m = iMarker) (WallMarkerIDs config mesh) =
         replicate (if WallMarker config mesh iMarker
                    then sum_list (map (\<lambda>e. GetNSubFaces (StdFace mesh e))
                                       (surfElem (boundaries mesh ! iMarker)))
                    else 0) iMarker"
  unfolding WallMarkerIDs_def OverWalls_def
  using assms
  by (subst filter_own_block) (auto simp add: WallMarkerIDs_block)

text \<open>
  C3, as amended. Step 1 emits sub-elements with the number of a marker if and only if the
  marker is not periodic, its kind is \<open>HEAT_FLUX\<close> or \<open>ISOTHERMAL\<close>, and one of its
  surface elements has a linear sub-face; the number of sub-elements it emits for such a
  marker is the number of sub-faces of its surface elements, and none for any other marker.
\<close>

theorem subelements_from_wall_markers_only:
  assumes "length (boundaries mesh) \<le> 65535"
    and "iMarker < length (boundaries mesh)"
  shows "\<exists>e. Step1 config mesh = Some e \<and>
           (iMarker \<in> set (markerIDs e) \<longleftrightarrow>
              \<not> periodicBoundary (boundaries mesh ! iMarker) \<and>
              (GetMarker_All_KindBC config iMarker = HEAT_FLUX \<or>
               GetMarker_All_KindBC config iMarker = ISOTHERMAL) \<and>
              (\<exists>el \<in> set (surfElem (boundaries mesh ! iMarker)).
                 0 < GetNSubFaces (standardBoundaryFacesGrid mesh ! indStandardElement el))) \<and>
           length (filter (\<lambda>m. m = iMarker) (markerIDs e)) =
             (if \<not> periodicBoundary (boundaries mesh ! iMarker) \<and>
                 (GetMarker_All_KindBC config iMarker = HEAT_FLUX \<or>
                  GetMarker_All_KindBC config iMarker = ISOTHERMAL)
              then sum_list (map (\<lambda>el. GetNSubFaces (standardBoundaryFacesGrid mesh !
                                          indStandardElement el))
                                 (surfElem (boundaries mesh ! iMarker)))
              else 0)"
proof -
  define n where "n = (if WallMarker config mesh iMarker
                    then sum_list (map (\<lambda>e. GetNSubFaces (StdFace mesh e))
                                       (surfElem (boundaries mesh ! iMarker)))
                    else 0)"
  have f: "filter (\<lambda>m. m = iMarker) (WallMarkerIDs config mesh) = replicate n iMarker"
    unfolding n_def using assms(2) by (rule filter_WallMarkerIDs)
  have "iMarker \<in> set (WallMarkerIDs config mesh) \<longleftrightarrow>
        filter (\<lambda>m. m = iMarker) (WallMarkerIDs config mesh) \<noteq> []"
    by (auto simp add: filter_empty_conv)
  also have "\<dots> \<longleftrightarrow> 0 < n"
    by (simp add: f)
  also have "\<dots> \<longleftrightarrow> WallMarker config mesh iMarker \<and>
      (\<exists>el \<in> set (surfElem (boundaries mesh ! iMarker)). 0 < GetNSubFaces (StdFace mesh el))"
    by (simp add: n_def sum_list_pos_iff)
  finally have mem: "iMarker \<in> set (WallMarkerIDs config mesh) \<longleftrightarrow>
      WallMarker config mesh iMarker \<and>
      (\<exists>el \<in> set (surfElem (boundaries mesh ! iMarker)). 0 < GetNSubFaces (StdFace mesh el))" .
  have len: "length (filter (\<lambda>m. m = iMarker) (WallMarkerIDs config mesh)) = n"
    by (simp add: f)
  show ?thesis
    using mem len
    by (simp add: Step1_eq [OF assms(1)] Step1Result_def n_def WallMarker_def ViscousWall_def
        StdFace_def)
qed

theorem subelements_from_wall_markers_only_witness:
  "length (boundaries ChannelMesh) \<le> 65535 \<and> 0 < length (boundaries ChannelMesh) \<and>
   (\<exists>e. Step1 WallConfig ChannelMesh = Some e \<and> 0 \<in> set (markerIDs e) \<and>
        length (filter (\<lambda>m. m = 0) (markerIDs e)) = 2)"
proof -
  have h: "length (boundaries ChannelMesh) \<le> 65535" "0 < length (boundaries ChannelMesh)"
    by (simp_all add: ChannelMesh_sizes)
  have w: "\<not> periodicBoundary (boundaries ChannelMesh ! 0)"
    "GetMarker_All_KindBC WallConfig 0 = HEAT_FLUX"
    "\<exists>el \<in> set (surfElem (boundaries ChannelMesh ! 0)).
        0 < GetNSubFaces (standardBoundaryFacesGrid ChannelMesh ! indStandardElement el)"
    "sum_list (map (\<lambda>el. GetNSubFaces (standardBoundaryFacesGrid ChannelMesh !
                              indStandardElement el))
                   (surfElem (boundaries ChannelMesh ! 0))) = 2"
    by (simp_all add: ChannelMesh_def LineFace_def GetMarker_All_KindBC_def WallConfig_def)
  from subelements_from_wall_markers_only [OF h, of WallConfig]
  show ?thesis using h w by auto
qed

text \<open>
  C3 as stated fails for a wall marker without sub-faces: marker 4 of the channel is not
  periodic, its kind is \<open>ISOTHERMAL\<close>, it has no surface element on this mesh, and no
  sub-element carries its number.
\<close>

theorem subelements_from_wall_markers_only_counterexample:
  "4 < length (boundaries ChannelMesh) \<and>
   periodicBoundary (boundaries ChannelMesh ! 4) = False \<and>
   GetMarker_All_KindBC WallConfig 4 = ISOTHERMAL \<and>
   Step1 WallConfig ChannelMesh \<noteq> None \<and>
   markerIDs (the (Step1 WallConfig ChannelMesh)) = [0, 0]"
proof -
  have h: "length (boundaries ChannelMesh) \<le> 65535"
    by (simp add: ChannelMesh_sizes)
  have e: "Step1 WallConfig ChannelMesh = Some (Step1Result WallConfig ChannelMesh)"
    using h by (rule Step1_eq)
  have m: "markerIDs (Step1Result WallConfig ChannelMesh) = [0, 0]"
    by (simp add: Step1Result_def Step1_WallMarkerIDs)
  have p: "periodicBoundary (boundaries ChannelMesh ! 4) = False"
    by (simp add: ChannelMesh_def)
  have k: "GetMarker_All_KindBC WallConfig 4 = ISOTHERMAL"
    by (simp add: GetMarker_All_KindBC_def WallConfig_def)
  show ?thesis
    unfolding e option.sel m using p k by (simp add: ChannelMesh_sizes)
qed

subsection \<open>The wall vertices\<close>

lemma set_OverWalls:
  "x \<in> set (OverWalls config mesh f) \<longleftrightarrow>
   (\<exists>iMarker<length (boundaries mesh). WallMarker config mesh iMarker \<and>
      (\<exists>i<length (surfElem (boundaries mesh ! iMarker)).
         x \<in> set (f iMarker i (surfElem (boundaries mesh ! iMarker) ! i))))"
proof -
  have "x \<in> set (OverWallElems config mesh f iMarker) \<longleftrightarrow>
        WallMarker config mesh iMarker \<and>
        (\<exists>i<length (surfElem (boundaries mesh ! iMarker)).
           x \<in> set (f iMarker i (surfElem (boundaries mesh ! iMarker) ! i)))" for iMarker
    by (auto simp add: OverWallElems_def)
  then show ?thesis
    by (auto simp add: OverWalls_def)
qed

lemma OnWall_iff:
  "OnWall config mesh p \<longleftrightarrow>
   p < length (meshPoints mesh) \<and>
   (\<exists>iMarker<length (boundaries mesh).
      \<not> periodicBoundary (boundaries mesh ! iMarker) \<and>
      (GetMarker_All_KindBC config iMarker = HEAT_FLUX \<or>
       GetMarker_All_KindBC config iMarker = ISOTHERMAL) \<and>
      (\<exists>e \<in> set (surfElem (boundaries mesh ! iMarker)).
         \<exists>j<nDOFsGrid e. DOFsGridFace e ! j = p))"
proof -
  have pts: "x \<in> set (ElemPoints e) \<longleftrightarrow> (\<exists>j<nDOFsGrid e. DOFsGridFace e ! j = x)" for x e
    by (auto simp add: ElemPoints_def)
  have ex: "(\<exists>i<length xs. Q (xs ! i)) \<longleftrightarrow> (\<exists>e \<in> set xs. Q e)"
    for xs :: "CSurfaceElementFEM list" and Q
    by (metis in_set_conv_nth)
  show ?thesis
    unfolding OnWall_def WallPoints_def set_OverWalls pts WallMarker_def ViscousWall_def
    using ex [of "surfElem (boundaries mesh ! iMarker)"
                 "\<lambda>e. \<exists>j<nDOFsGrid e. DOFsGridFace e ! j = p" for iMarker]
    by simp
qed

lemma WallConn_OnWall:
  assumes "WellFormedWalls config mesh" "c \<in> set (WallConn config mesh)"
  shows "OnWall config mesh c"
proof -
  from assms(2) obtain iMarker i where m: "iMarker < length (boundaries mesh)"
    "WallMarker config mesh iMarker" "i < length (surfElem (boundaries mesh ! iMarker))"
    "c \<in> set (ElemConn mesh (surfElem (boundaries mesh ! iMarker) ! i))"
    unfolding WallConn_def set_OverWalls by blast
  define e where "e = surfElem (boundaries mesh ! iMarker) ! i"
  have wf: "WellFormedSurfElem mesh e"
    using assms(1) m(1,2,3) by (auto simp add: WellFormedWalls_def e_def)
  from m(4) obtain t where t: "t < GetNSubFaces (StdFace mesh e) * GetNDOFsPerSubFace (StdFace mesh e)"
    "c = DOFsGridFace e ! (GetSubFaceConn (StdFace mesh e) ! (t mod 65536))"
    by (auto simp add: ElemConn_def e_def [symmetric])
  define j where "j = GetSubFaceConn (StdFace mesh e) ! (t mod 65536)"
  have j: "j < nDOFsGrid e"
    using wf t(1) by (simp add: WellFormedSurfElem_def j_def)
  then have "c < length (meshPoints mesh)"
    using wf t(2) by (simp add: WellFormedSurfElem_def j_def)
  moreover have "c \<in> set (ElemPoints e)"
    using j t(2) by (auto simp add: ElemPoints_def j_def)
  then have "c \<in> set (WallPoints config mesh)"
    unfolding WallPoints_def set_OverWalls using m(1,2,3) e_def by blast
  ultimately show ?thesis by (simp add: OnWall_def)
qed

lemma filter_upt_split:
  assumes "p < N" "P p"
  shows "filter P [0..<N] = filter P [0..<p] @ p # filter P [Suc p..<N]"
proof -
  have "[0..<N] = [0..<p] @ p # [Suc p..<N]"
    using assms(1) upt_add_eq_append [of 0 p "N - p"] by (simp add: upt_conv_Cons)
  then show ?thesis using assms(2) by simp
qed

lemma LocalIndex_less:
  assumes "OnWall config mesh p"
  shows "LocalIndex config mesh p < length (WallPointList config mesh)"
    and "WallPointList config mesh ! LocalIndex config mesh p = p"
proof -
  have p: "p < length (meshPoints mesh)" using assms by (simp add: OnWall_def)
  note split = filter_upt_split [of p "length (meshPoints mesh)" "OnWall config mesh", OF p assms]
  show "LocalIndex config mesh p < length (WallPointList config mesh)"
    unfolding WallPointList_def LocalIndex_def split by simp
  show "WallPointList config mesh ! LocalIndex config mesh p = p"
    unfolding WallPointList_def LocalIndex_def split by (simp add: nth_append)
qed

lemma FinalMeshToSurface_nth:
  "OnWall config mesh p \<Longrightarrow> FinalMeshToSurface config mesh ! p = LocalIndex config mesh p"
  by (simp add: FinalMeshToSurface_def OnWall_def)

lemma length_PointCoor: "length (PointCoor mesh p) = nDim mesh"
  by (simp add: PointCoor_def)

lemma length_concat_blocks:
  "(\<And>x. length (g x) = d) \<Longrightarrow> length (concat (map g xs)) = d * length xs"
  by (induction xs) simp_all

lemma length_surfaceCoor:
  "length (concat (map (PointCoor mesh) xs)) = nDim mesh * length xs"
  by (rule length_concat_blocks) (rule length_PointCoor)

text \<open>
  C5. On a mesh whose wall elements are well formed (the grid DOFs of a wall element are
  mesh points, and the connectivity of its standard face refers to grid DOFs of the
  element), every entry of the connectivity that step 1 hands to the tree is less than the
  number of wall vertices, and so the \<open>nDim\<close> coordinates it refers to are entries of
  \<open>surfaceCoor\<close>.
\<close>

theorem connectivity_within_coordinate_buffer:
  assumes "length (boundaries mesh) \<le> 65535"
    and "WellFormedWalls config mesh"
  shows "\<exists>e. Step1 config mesh = Some e \<and>
           (\<forall>c \<in> set (surfaceConn e). c < nVertex_SolidWall e) \<and>
           length (surfaceCoor e) = nDim mesh * nVertex_SolidWall e \<and>
           (\<forall>c \<in> set (surfaceConn e). \<forall>k<nDim mesh. c * nDim mesh + k < length (surfaceCoor e))"
proof -
  define e where "e = Step1Result config mesh"
  have ret: "Step1 config mesh = Some e"
    unfolding e_def using assms(1) by (rule Step1_eq)
  have conn: "c < nVertex_SolidWall e" if "c \<in> set (surfaceConn e)" for c
  proof -
    from that obtain c0 where c0: "c0 \<in> set (WallConn config mesh)"
      "c = FinalMeshToSurface config mesh ! c0"
      by (auto simp add: e_def Step1Result_def)
    have "OnWall config mesh c0"
      using assms(2) c0(1) by (rule WallConn_OnWall)
    then show ?thesis
      using LocalIndex_less(1) [of config mesh c0]
      by (simp add: c0(2) FinalMeshToSurface_nth e_def Step1Result_def)
  qed
  have len: "length (surfaceCoor e) = nDim mesh * nVertex_SolidWall e"
    by (simp add: e_def Step1Result_def length_surfaceCoor)
  have idx: "c * nDim mesh + k < length (surfaceCoor e)"
    if "c \<in> set (surfaceConn e)" "k < nDim mesh" for c k
  proof -
    have "c * nDim mesh + k < Suc c * nDim mesh" using that(2) by simp
    also have "\<dots> \<le> nVertex_SolidWall e * nDim mesh"
      using conn [OF that(1)] by (intro mult_le_mono1) simp
    finally show ?thesis by (simp add: len mult.commute)
  qed
  from ret conn len idx show ?thesis by blast
qed

lemma all_less_2: "(\<forall>j<2. P j) \<longleftrightarrow> P 0 \<and> P (Suc 0)"
  by (auto simp add: less_Suc_eq numeral_2_eq_2)

lemma ChannelMesh_WallMarker:
  "WallMarker WallConfig ChannelMesh iMarker \<longleftrightarrow> iMarker = 0 \<or> iMarker = 4"
  by (simp add: WallMarker_def ViscousWall_def GetMarker_All_KindBC_def WallConfig_def)
    (auto simp add: ChannelMesh_def)

lemma ChannelMesh_WellFormed: "WellFormedWalls WallConfig ChannelMesh"
  unfolding WellFormedWalls_def ChannelMesh_WallMarker
  by (auto simp add: WellFormedSurfElem_def StdFace_def ChannelMesh_def LineFace_def all_less_2)

lemma ChannelMesh_WallPoints: "WallPoints WallConfig ChannelMesh = [0, 1, 1, 2]"
  by (simp add: WallPoints_def OverWalls_def OverWallElems_def ChannelMesh_WallMarker
      ChannelMesh_sizes upt_5)
    (simp add: ChannelMesh_def ElemPoints_def upt_conv_Cons)

lemma ChannelMesh_WallConn: "WallConn WallConfig ChannelMesh = [0, 1, 1, 2]"
  by (simp add: WallConn_def OverWalls_def OverWallElems_def ChannelMesh_WallMarker
      ChannelMesh_sizes upt_5)
    (simp add: ChannelMesh_def ElemConn_def StdFace_def LineFace_def upt_conv_Cons)

lemma ChannelMesh_OnWall: "OnWall WallConfig ChannelMesh p \<longleftrightarrow> p = 0 \<or> p = 1 \<or> p = 2"
  by (auto simp add: OnWall_def ChannelMesh_WallPoints ChannelMesh_sizes)

lemma ChannelMesh_WallPointList: "WallPointList WallConfig ChannelMesh = [0, 1, 2]"
  by (simp add: WallPointList_def ChannelMesh_OnWall ChannelMesh_sizes upt_conv_Cons)

lemma ChannelMesh_FinalMeshToSurface:
  "FinalMeshToSurface WallConfig ChannelMesh = [0, 1, 2, 0, 0, 0]"
  by (simp add: FinalMeshToSurface_def LocalIndex_def ChannelMesh_OnWall ChannelMesh_sizes
      upt_conv_Cons)

theorem connectivity_within_coordinate_buffer_witness:
  "length (boundaries ChannelMesh) \<le> 65535 \<and> WellFormedWalls WallConfig ChannelMesh \<and>
   (\<exists>e. Step1 WallConfig ChannelMesh = Some e \<and> surfaceConn e = [0, 1, 1, 2] \<and>
        nVertex_SolidWall e = 3 \<and> length (surfaceCoor e) = 6 \<and>
        list_all (\<lambda>c. c < nVertex_SolidWall e) (surfaceConn e))"
proof -
  have h: "length (boundaries ChannelMesh) \<le> 65535"
    by (simp add: ChannelMesh_sizes)
  from connectivity_within_coordinate_buffer [OF h ChannelMesh_WellFormed]
  obtain e where e: "Step1 WallConfig ChannelMesh = Some e"
    "\<forall>c \<in> set (surfaceConn e). c < nVertex_SolidWall e"
    "length (surfaceCoor e) = nDim ChannelMesh * nVertex_SolidWall e"
    by blast
  from e(1) have v: "surfaceConn e = [0, 1, 1, 2]" "nVertex_SolidWall e = 3"
    by (auto simp add: Step1_eq [OF h] Step1Result_def ChannelMesh_WallConn
        ChannelMesh_FinalMeshToSurface ChannelMesh_WallPointList)
  have "length (surfaceCoor e) = 6"
    using e(3) v(2) by (simp add: ChannelMesh_def)
  moreover have "list_all (\<lambda>c. c < nVertex_SolidWall e) (surfaceConn e)"
    using e(2) by (simp add: list_all_iff)
  ultimately show ?thesis
    using h ChannelMesh_WellFormed e(1) v by blast
qed

lemma set_WallPointList: "set (WallPointList config mesh) = {p. OnWall config mesh p}"
  by (auto simp add: WallPointList_def OnWall_def)

lemma distinct_WallPointList: "distinct (WallPointList config mesh)"
  by (simp add: WallPointList_def)

lemma card_OnWall: "card {p. OnWall config mesh p} = length (WallPointList config mesh)"
  using distinct_card [OF distinct_WallPointList, of config mesh]
  by (simp add: set_WallPointList)

lemma LocalIndex_bij:
  "bij_betw (LocalIndex config mesh) {p. OnWall config mesh p}
     {0..<length (WallPointList config mesh)}"
proof -
  have inj: "inj_on (LocalIndex config mesh) {p. OnWall config mesh p}"
  proof (rule inj_onI)
    fix p q assume pq: "p \<in> {p. OnWall config mesh p}" "q \<in> {p. OnWall config mesh p}"
      and eq: "LocalIndex config mesh p = LocalIndex config mesh q"
    from pq have on: "OnWall config mesh p" "OnWall config mesh q" by simp_all
    have "p = WallPointList config mesh ! LocalIndex config mesh p"
      using LocalIndex_less(2) [OF on(1)] by (rule sym)
    also have "\<dots> = WallPointList config mesh ! LocalIndex config mesh q"
      unfolding eq ..
    also have "\<dots> = q"
      by (rule LocalIndex_less(2) [OF on(2)])
    finally show "p = q" .
  qed
  have sub: "LocalIndex config mesh ` {p. OnWall config mesh p} \<subseteq>
             {0..<length (WallPointList config mesh)}"
    by (auto simp add: LocalIndex_less)
  have "card (LocalIndex config mesh ` {p. OnWall config mesh p}) =
        card {0..<length (WallPointList config mesh)}"
    by (simp add: card_image [OF inj] card_OnWall)
  with sub have "LocalIndex config mesh ` {p. OnWall config mesh p} =
                 {0..<length (WallPointList config mesh)}"
    by (intro card_subset_eq) simp_all
  with inj show ?thesis by (simp add: bij_betw_def)
qed

lemma concat_blocks_nth:
  assumes "\<And>x. length (g x) = d" "v < length xs" "k < d"
  shows "concat (map g xs) ! (v * d + k) = g (xs ! v) ! k"
  using assms(2)
proof (induction xs arbitrary: v)
  case Nil
  then show ?case by simp
next
  case (Cons x xs)
  show ?case
  proof (cases v)
    case 0
    then show ?thesis using assms(1,3) by (simp add: nth_append)
  next
    case (Suc w)
    with Cons.prems have w: "w < length xs" by simp
    have "d + (w * d + k) - d = w * d + k" by simp
    then show ?thesis
      using Cons.IH [OF w] Suc assms(1) by (simp add: nth_append add.assoc)
  qed
qed

text \<open>
  C6, as amended. The wall points are the mesh points that are a grid DOF of a surface
  element of a marker that is not periodic and of kind \<open>HEAT_FLUX\<close> or \<open>ISOTHERMAL\<close>.
  There are as many wall vertices as wall points, \<open>surfaceCoor\<close> holds \<open>nDim\<close>
  coordinates for each, \<open>meshToSurface\<close> maps the wall points one to one onto
  \<open>0..nVertex_SolidWall-1\<close>, and the coordinates stored for the local index of a wall
  point are those of the point. On well-formed wall elements every vertex of a sub-element
  is the local index of a wall point.
\<close>

theorem one_wall_vertex_per_wall_point:
  assumes "length (boundaries mesh) \<le> 65535"
  shows "\<exists>e. Step1 config mesh = Some e \<and>
           (\<forall>p. OnWall config mesh p \<longleftrightarrow>
              p < length (meshPoints mesh) \<and>
              (\<exists>iMarker<length (boundaries mesh).
                 \<not> periodicBoundary (boundaries mesh ! iMarker) \<and>
                 (GetMarker_All_KindBC config iMarker = HEAT_FLUX \<or>
                  GetMarker_All_KindBC config iMarker = ISOTHERMAL) \<and>
                 (\<exists>el \<in> set (surfElem (boundaries mesh ! iMarker)).
                    \<exists>j<nDOFsGrid el. DOFsGridFace el ! j = p))) \<and>
           nVertex_SolidWall e = card {p. OnWall config mesh p} \<and>
           length (surfaceCoor e) = nDim mesh * nVertex_SolidWall e \<and>
           bij_betw (\<lambda>p. meshToSurface e ! p) {p. OnWall config mesh p}
             {0..<nVertex_SolidWall e} \<and>
           (\<forall>p. OnWall config mesh p \<longrightarrow>
              (\<forall>k<nDim mesh.
                 surfaceCoor e ! (meshToSurface e ! p * nDim mesh + k) =
                 coor (meshPoints mesh ! p) ! k)) \<and>
           (WellFormedWalls config mesh \<longrightarrow>
              set (surfaceConn e) \<subseteq> (\<lambda>p. meshToSurface e ! p) ` {p. OnWall config mesh p})"
proof -
  define e where "e = Step1Result config mesh"
  have ret: "Step1 config mesh = Some e"
    unfolding e_def using assms(1) by (rule Step1_eq)
  have nv: "nVertex_SolidWall e = card {p. OnWall config mesh p}"
    by (simp add: e_def Step1Result_def card_OnWall)
  have len: "length (surfaceCoor e) = nDim mesh * nVertex_SolidWall e"
    by (simp add: e_def Step1Result_def length_surfaceCoor)
  have mts: "meshToSurface e ! p = LocalIndex config mesh p" if "OnWall config mesh p" for p
    using that by (simp add: e_def Step1Result_def FinalMeshToSurface_nth)
  have "bij_betw (LocalIndex config mesh) {p. OnWall config mesh p} {0..<nVertex_SolidWall e}"
    using LocalIndex_bij [of config mesh] by (simp add: e_def Step1Result_def)
  then have bij: "bij_betw (\<lambda>p. meshToSurface e ! p) {p. OnWall config mesh p}
                    {0..<nVertex_SolidWall e}"
    by (rule bij_betw_cong [THEN iffD2, rotated]) (simp add: mts)
  have co: "surfaceCoor e ! (meshToSurface e ! p * nDim mesh + k) = coor (meshPoints mesh ! p) ! k"
    if "OnWall config mesh p" "k < nDim mesh" for p k
  proof -
    have "concat (map (PointCoor mesh) (WallPointList config mesh)) !
            (LocalIndex config mesh p * nDim mesh + k) =
          PointCoor mesh (WallPointList config mesh ! LocalIndex config mesh p) ! k"
      using that by (intro concat_blocks_nth) (simp_all add: length_PointCoor LocalIndex_less)
    then show ?thesis
      using that
      by (simp add: e_def Step1Result_def FinalMeshToSurface_nth LocalIndex_less PointCoor_def)
  qed
  have conn: "set (surfaceConn e) \<subseteq> (\<lambda>p. meshToSurface e ! p) ` {p. OnWall config mesh p}"
    if "WellFormedWalls config mesh"
  proof
    fix c assume "c \<in> set (surfaceConn e)"
    then obtain c0 where c0: "c0 \<in> set (WallConn config mesh)" "c = meshToSurface e ! c0"
      by (auto simp add: e_def Step1Result_def)
    from that c0(1) have "OnWall config mesh c0" by (rule WallConn_OnWall)
    with c0(2) show "c \<in> (\<lambda>p. meshToSurface e ! p) ` {p. OnWall config mesh p}" by blast
  qed
  from ret nv len bij co conn OnWall_iff [of config mesh] show ?thesis by blast
qed

lemma ChannelMesh_surfaceCoor:
  "PointCoor ChannelMesh 0 @ PointCoor ChannelMesh (Suc 0) @ PointCoor ChannelMesh 2 =
   [0, 0, 1, 0, 2, 0]"
  by (simp add: PointCoor_def ChannelMesh_def upt_conv_Cons)

theorem one_wall_vertex_per_wall_point_witness:
  "length (boundaries ChannelMesh) \<le> 65535 \<and>
   (\<exists>e. Step1 WallConfig ChannelMesh = Some e \<and>
        card {p. OnWall WallConfig ChannelMesh p} = 3 \<and>
        nVertex_SolidWall e = 3 \<and>
        meshToSurface e = [0, 1, 2, 0, 0, 0] \<and>
        surfaceCoor e = [0, 0, 1, 0, 2, 0] \<and>
        bij_betw (\<lambda>p. meshToSurface e ! p) {p. OnWall WallConfig ChannelMesh p} {0..<3})"
proof -
  have h: "length (boundaries ChannelMesh) \<le> 65535"
    by (simp add: ChannelMesh_sizes)
  from one_wall_vertex_per_wall_point [OF h, of WallConfig]
  obtain e where e: "Step1 WallConfig ChannelMesh = Some e"
    "nVertex_SolidWall e = card {p. OnWall WallConfig ChannelMesh p}"
    "bij_betw (\<lambda>p. meshToSurface e ! p) {p. OnWall WallConfig ChannelMesh p}
       {0..<nVertex_SolidWall e}"
    by blast
  from e(1) have v: "nVertex_SolidWall e = 3" "meshToSurface e = [0, 1, 2, 0, 0, 0]"
    "surfaceCoor e = [0, 0, 1, 0, 2, 0]"
    by (auto simp add: Step1_eq [OF h] Step1Result_def ChannelMesh_FinalMeshToSurface
        ChannelMesh_WallPointList ChannelMesh_surfaceCoor)
  show ?thesis
    using h e v by auto
qed

lemma CoarseWallMesh_WallMarker:
  "WallMarker WallConfig CoarseWallMesh 0"
  by (simp add: WallMarker_def ViscousWall_def GetMarker_All_KindBC_def WallConfig_def
      CoarseWallMesh_def)

lemma CoarseWallMesh_WallPoints: "WallPoints WallConfig CoarseWallMesh = [0, 1, 2]"
proof -
  have "length (boundaries CoarseWallMesh) = 1" by (simp add: CoarseWallMesh_def)
  then show ?thesis
    by (simp add: WallPoints_def OverWalls_def OverWallElems_def CoarseWallMesh_WallMarker)
      (simp add: CoarseWallMesh_def ElemPoints_def upt_conv_Cons)
qed

lemma CoarseWallMesh_WallConn: "WallConn WallConfig CoarseWallMesh = [0, 2]"
proof -
  have "length (boundaries CoarseWallMesh) = 1" by (simp add: CoarseWallMesh_def)
  then show ?thesis
    by (simp add: WallConn_def OverWalls_def OverWallElems_def CoarseWallMesh_WallMarker)
      (simp add: CoarseWallMesh_def ElemConn_def StdFace_def CoarseLineFace_def upt_conv_Cons)
qed

lemma CoarseWallMesh_OnWall:
  "OnWall WallConfig CoarseWallMesh p \<longleftrightarrow> p = 0 \<or> p = 1 \<or> p = 2"
  by (auto simp add: OnWall_def CoarseWallMesh_WallPoints) (simp_all add: CoarseWallMesh_def)

lemma CoarseWallMesh_WallPointList: "WallPointList WallConfig CoarseWallMesh = [0, 1, 2]"
proof -
  have "length (meshPoints CoarseWallMesh) = 3" by (simp add: CoarseWallMesh_def)
  then show ?thesis
    by (simp add: WallPointList_def CoarseWallMesh_OnWall upt_conv_Cons)
qed

lemma CoarseWallMesh_FinalMeshToSurface:
  "FinalMeshToSurface WallConfig CoarseWallMesh = [0, 1, 2]"
proof -
  have "length (meshPoints CoarseWallMesh) = 3" by (simp add: CoarseWallMesh_def)
  then show ?thesis
    by (simp add: FinalMeshToSurface_def LocalIndex_def CoarseWallMesh_OnWall upt_conv_Cons)
qed

text \<open>
  C6 as stated fails when the sub-faces of a wall element do not use all its grid DOFs: the
  wall element of this mesh has the grid DOFs 0, 1 and 2 and one linear sub-face between
  the DOFs 0 and 2. All three points get a wall vertex, and the vertex of mesh point 1
  belongs to no sub-element.
\<close>

theorem one_wall_vertex_per_wall_point_counterexample:
  "Step1 WallConfig CoarseWallMesh \<noteq> None \<and>
   nVertex_SolidWall (the (Step1 WallConfig CoarseWallMesh)) = 3 \<and>
   meshToSurface (the (Step1 WallConfig CoarseWallMesh)) = [0, 1, 2] \<and>
   surfaceConn (the (Step1 WallConfig CoarseWallMesh)) = [0, 2] \<and>
   1 \<notin> set (surfaceConn (the (Step1 WallConfig CoarseWallMesh)))"
proof -
  have h: "length (boundaries CoarseWallMesh) \<le> 65535"
    by (simp add: CoarseWallMesh_def)
  have e: "Step1 WallConfig CoarseWallMesh = Some (Step1Result WallConfig CoarseWallMesh)"
    using h by (rule Step1_eq)
  have v: "nVertex_SolidWall (Step1Result WallConfig CoarseWallMesh) = 3"
    "meshToSurface (Step1Result WallConfig CoarseWallMesh) = [0, 1, 2]"
    "surfaceConn (Step1Result WallConfig CoarseWallMesh) = [0, 2]"
    by (simp_all add: Step1Result_def CoarseWallMesh_WallPointList
        CoarseWallMesh_FinalMeshToSurface CoarseWallMesh_WallConn)
  show ?thesis
    unfolding e option.sel v by simp
qed

subsection \<open>The coordinates of an integration point\<close>

lemma fold_add_sum:
  "fold (\<lambda>k c. c + f k) [0..<n] (a::real) = a + (\<Sum>k<n. f k)"
  by (induction n) simp_all

lemma IntegrationPointCoor_sum:
  "IntegrationPointCoor mesh lag nDOFs DOFs i =
     map (\<lambda>j. \<Sum>k<nDOFs. lag ! ((i * nDOFs) mod 65536 + k) *
                              coor (meshPoints mesh ! (DOFs ! k)) ! j)
         [0..<nDim mesh]"
  by (simp add: IntegrationPointCoor_def fold_add_sum)

lemma HexLag_length: "length HexLag = 512 * 216"
  by (simp add: HexLag_def)

lemma HexLag_nth:
  "t < 110592 \<Longrightarrow> HexLag ! t = (if t mod 216 = (t div 216) mod 216 then 1 else 0)"
  by (simp add: HexLag_def)

lemma HexLag_entry:
  assumes "i < 512" "k < 216"
  shows "HexLag ! (i * 216 + k) = (if k = i mod 216 then 1 else 0)"
proof -
  from assms have "i * 216 + k < 110592" by simp
  moreover from assms have "(i * 216 + k) mod 216 = k" "(i * 216 + k) div 216 = i"
    by simp_all
  ultimately show ?thesis by (simp add: HexLag_nth)
qed

lemma HexLag_wrapped: "k < 216 \<Longrightarrow> HexLag ! (128 + k) = (if k = 89 then 1 else 0)"
proof -
  assume k: "k < 216"
  show ?thesis
  proof (cases "k < 88")
    case True
    then show ?thesis using HexLag_entry [of 0 "128 + k"] by simp
  next
    case False
    then obtain m where m: "k = 88 + m" by (auto simp add: not_less le_iff_add)
    with k have "m < 216" by simp
    then have "HexLag ! (216 + m) = (if m = 1 then 1 else 0)"
      using HexLag_entry [of 1 m] by simp
    moreover have "128 + k = 216 + m" using m by simp
    ultimately show ?thesis using m by simp
  qed
qed

lemma HexLag_row: "k < 216 \<Longrightarrow> HexLag ! (65664 + k) = (if k = 88 then 1 else 0)"
  using HexLag_entry [of 304 k] by simp

lemma HexLag_sum_to_one: "i < 512 \<Longrightarrow> (\<Sum>k<216. HexLag ! (i * 216 + k)) = 1"
proof -
  assume i: "i < 512"
  then have "(\<Sum>k<216. HexLag ! (i * 216 + k)) =
             (\<Sum>k\<in>{..<216::nat}. if k = i mod 216 then 1 else 0)"
    by (intro sum.cong) (simp_all add: HexLag_entry)
  also have "\<dots> = 1"
    by (simp add: sum.delta')
  finally show ?thesis .
qed

lemma HexMesh_point: "p < 216 \<Longrightarrow> coor (meshPoints HexMesh ! p) = [1 + real p, 2, 3]"
  by (simp add: HexMesh_def)

lemma HexMesh_code_coor:
  "IntegrationPointCoor HexMesh HexLag 216 [0..<216] 304 = [90, 2, 3]"
proof -
  have "(\<Sum>k<216. HexLag ! (128 + k) * coor (meshPoints HexMesh ! ([0..<216] ! k)) ! j) =
        (\<Sum>k\<in>{..<216::nat}. if k = 89 then coor (meshPoints HexMesh ! 89) ! j else 0)" for j
    by (rule sum.cong [OF refl]) (simp add: HexLag_wrapped)
  moreover have "(\<Sum>k\<in>{..<216::nat}. if k = 89 then coor (meshPoints HexMesh ! 89) ! j else 0) =
                 coor (meshPoints HexMesh ! 89) ! j" for j
    by (simp add: sum.delta')
  moreover have "nDim HexMesh = 3" by (simp add: HexMesh_def)
  ultimately show ?thesis
    by (simp add: IntegrationPointCoor_sum HexMesh_point upt_conv_Cons)
qed

lemma HexMesh_claimed_coor:
  "map (\<lambda>j. \<Sum>k<216. HexLag ! (304 * 216 + k) *
                      coor (meshPoints HexMesh ! (nodeIDsGrid (volElem HexMesh ! 0) ! k)) ! j)
       [0..<3] = [89, 2, 3]"
proof -
  have n: "nodeIDsGrid (volElem HexMesh ! 0) = [0..<216]"
    by (simp add: HexMesh_def)
  have "(\<Sum>k<216. HexLag ! (304 * 216 + k) * coor (meshPoints HexMesh ! ([0..<216] ! k)) ! j) =
        (\<Sum>k\<in>{..<216::nat}. if k = 88 then coor (meshPoints HexMesh ! 88) ! j else 0)" for j
    by (rule sum.cong [OF refl]) (simp add: HexLag_row)
  moreover have "(\<Sum>k\<in>{..<216::nat}. if k = 88 then coor (meshPoints HexMesh ! 88) ! j else 0) =
                 coor (meshPoints HexMesh ! 88) ! j" for j
    by (simp add: sum.delta')
  ultimately show ?thesis
    unfolding n by (simp add: HexMesh_point upt_conv_Cons)
qed

lemma HexMesh_not_empty: "\<not> IsEmpty (WallADT_of WallConfig HexMesh)"
proof -
  have "length (boundaries HexMesh) = 1" by (simp add: HexMesh_def)
  moreover have "WallMarker WallConfig HexMesh 0"
    by (simp add: WallMarker_def ViscousWall_def GetMarker_All_KindBC_def WallConfig_def
        HexMesh_def)
  ultimately have "WallVTK_Types WallConfig HexMesh = [9]"
    by (simp add: WallVTK_Types_def OverWalls_def OverWallElems_def)
      (simp add: HexMesh_def StdFace_def)
  then show ?thesis
    by (simp add: IsEmpty_def WallADT_of_def BuildWallADT_def Step1Result_def)
qed

text \<open>
  C7. The source computes the row offset as \<^verbatim>\<open>const unsigned short jj = i*nDOFs\<close>, so the
  weights it reads are \<open>lag[(i*nDOFs) mod 65536 + k]\<close>. A hexahedron of polynomial degree
  5 has 216 grid DOFs and, integrated with 8 points in each direction, 512 integration
  points: for integration point 304 the offset is 65664, and the source reads the weights
  at offset 128, which are the end of row 0 and the beginning of row 1. On \<open>HexMesh\<close>,
  whose weights sum to 1 at every integration point, the call returns and the query for
  integration point 304 is made at \<open>[90, 2, 3]\<close> (node 89), where the sum of the claim
  gives \<open>[89, 2, 3]\<close> (node 88).
\<close>

theorem integration_point_row_offset_wraps:
  "ComputeWall_Distance ExampleQuery WallConfig HexMesh \<noteq> None \<and>
   queryLog (the (ComputeWall_Distance ExampleQuery WallConfig HexMesh)) ! 304 =
     (VolumeElement 0, 304, [90, 2, 3]) \<and>
   map (\<lambda>j. \<Sum>k<216. GetBasisFunctionsIntegration (standardElementsGrid HexMesh ! 0) !
                        (304 * 216 + k) *
                      coor (meshPoints HexMesh ! (nodeIDsGrid (volElem HexMesh ! 0) ! k)) ! j)
       [0..<3] = [89, 2, 3] \<and>
   (\<Sum>k<216. GetBasisFunctionsIntegration (standardElementsGrid HexMesh ! 0) ! (304 * 216 + k)) = 1"
proof -
  have h: "length (boundaries HexMesh) \<le> 65535" "nVolElemOwned HexMesh \<le> length (volElem HexMesh)"
    by (simp_all add: HexMesh_def)
  have lag: "GetBasisFunctionsIntegration (standardElementsGrid HexMesh ! 0) = HexLag"
    by (simp add: HexMesh_def)
  have q: "VolElemQueries (WallADT_of WallConfig HexMesh) HexMesh 0 =
           map (\<lambda>i. (VolumeElement 0, i, IntegrationPointCoor HexMesh HexLag 216 [0..<216] i))
               [0..<512]"
    using HexMesh_not_empty
    by (simp add: VolElemQueries_def EntityQueries_def VolElemLag_def VolElemNInt_def)
      (simp add: HexMesh_def)
  have n: "nVolElemOwned HexMesh = 1" by (simp add: HexMesh_def)
  have "queryLog (ComputeWall_DistanceResult ExampleQuery WallConfig HexMesh) ! 304 =
        (VolumeElement 0, 304, [90, 2, 3])"
    unfolding Result_fields n by (simp add: q nth_append HexMesh_code_coor)
  moreover have "(\<Sum>k<216. HexLag ! (304 * 216 + k)) = 1"
    by (rule HexLag_sum_to_one) simp
  ultimately show ?thesis
    unfolding ComputeWall_Distance_eq [OF h] option.sel lag
    using HexMesh_claimed_coor by simp
qed

text \<open>
  Where \<open>i*nDOFs\<close> fits into 16 bits the coordinates are the sum over the weights of
  row \<open>i\<close>.
\<close>

lemma IntegrationPointCoor_in_range:
  assumes "i * nDOFs < 65536" "j < nDim mesh"
  shows "IntegrationPointCoor mesh lag nDOFs DOFs i ! j =
         (\<Sum>k<nDOFs. lag ! (i * nDOFs + k) * coor (meshPoints mesh ! (DOFs ! k)) ! j)"
  using assms by (simp add: IntegrationPointCoor_sum)

subsection \<open>The distances stored\<close>

lemma EntityDistances_zero_or_query:
  assumes "d \<in> set (EntityDistances dne adt mesh zero lag nDOFs DOFs nInt)"
  shows "d = 0 \<or>
         (\<exists>q \<in> set (EntityQueries mesh zero ent lag nDOFs DOFs nInt). d = dne adt (snd (snd q)))"
  using assms by (auto simp add: EntityDistances_def EntityQueries_def split: if_splits)

text \<open>
  Every wall distance in the buffers of the elements, of the matching faces and of the
  boundaries that are not periodic is 0 or the distance that a recorded query returned.
  What the query returns is not decided in this file.
\<close>

lemma stored_distance_zero_or_query:
  assumes "length (boundaries mesh) \<le> 65535"
    and "nVolElemOwned mesh \<le> length (volElem mesh)"
    and "Step1 config mesh = Some e"
  shows "\<exists>s. ComputeWall_Distance DetermineNearestElement config mesh = Some s \<and>
           (\<forall>d \<in> set (VecWallDistanceElements (thisMesh s)).
              d = 0 \<or> (\<exists>q \<in> set (queryLog s).
                          d = DetermineNearestElement (BuildWallADT e) (snd (snd q)))) \<and>
           (\<forall>d \<in> set (VecWallDistanceInternalMatchingFaces (thisMesh s)).
              d = 0 \<or> (\<exists>q \<in> set (queryLog s).
                          d = DetermineNearestElement (BuildWallADT e) (snd (snd q)))) \<and>
           (\<forall>iMarker<length (boundaries mesh).
              \<not> periodicBoundary (boundaries mesh ! iMarker) \<longrightarrow>
              (\<forall>d \<in> set (VecWallDistanceBoundaryFaces (boundaries (thisMesh s) ! iMarker)).
                 d = 0 \<or> (\<exists>q \<in> set (queryLog s).
                             d = DetermineNearestElement (BuildWallADT e) (snd (snd q)))))"
proof -
  define adt where "adt = WallADT_of config mesh"
  define s where "s = ComputeWall_DistanceResult DetermineNearestElement config mesh"
  have adt: "BuildWallADT e = adt"
    unfolding adt_def using assms(1,3) by (rule Step1_WallADT)
  have ret: "ComputeWall_Distance DetermineNearestElement config mesh = Some s"
    unfolding s_def using assms(1,2) by (rule ComputeWall_Distance_eq)
  have log: "queryLog s =
     concat (map (VolElemQueries adt mesh) [0..<nVolElemOwned mesh]) @
     concat (map (MatchingFaceQueries adt mesh) [0..<length (matchingFaces mesh)]) @
     concat (map (BoundaryQueries adt config mesh) [0..<length (boundaries mesh)])"
    by (simp add: s_def Result_fields adt_def)
  have vol: "d = 0 \<or> (\<exists>q \<in> set (queryLog s). d = DetermineNearestElement adt (snd (snd q)))"
    if "d \<in> set (VecWallDistanceElements (thisMesh s))" for d
  proof -
    from that obtain l where l: "l < nVolElemOwned mesh"
      "d \<in> set (VolElemDistances DetermineNearestElement adt mesh l)"
      by (auto simp add: s_def Result_fields adt_def)
    from EntityDistances_zero_or_query [OF l(2) [unfolded VolElemDistances_def],
        of "VolumeElement l"]
    have "d = 0 \<or> (\<exists>q \<in> set (VolElemQueries adt mesh l).
                       d = DetermineNearestElement adt (snd (snd q)))"
      by (simp add: VolElemQueries_def)
    moreover have "set (VolElemQueries adt mesh l) \<subseteq> set (queryLog s)"
      unfolding log using l(1) by auto
    ultimately show ?thesis by blast
  qed
  have mf: "d = 0 \<or> (\<exists>q \<in> set (queryLog s). d = DetermineNearestElement adt (snd (snd q)))"
    if "d \<in> set (VecWallDistanceInternalMatchingFaces (thisMesh s))" for d
  proof -
    from that obtain l where l: "l < length (matchingFaces mesh)"
      "d \<in> set (MatchingFaceDistances DetermineNearestElement adt mesh l)"
      by (auto simp add: s_def Result_fields adt_def)
    from EntityDistances_zero_or_query [OF l(2) [unfolded MatchingFaceDistances_def],
        of "MatchingFace l"]
    have "d = 0 \<or> (\<exists>q \<in> set (MatchingFaceQueries adt mesh l).
                       d = DetermineNearestElement adt (snd (snd q)))"
      by (simp add: MatchingFaceQueries_def)
    moreover have "set (MatchingFaceQueries adt mesh l) \<subseteq> set (queryLog s)"
      unfolding log using l(1) by auto
    ultimately show ?thesis by blast
  qed
  have bnd: "d = 0 \<or> (\<exists>q \<in> set (queryLog s). d = DetermineNearestElement adt (snd (snd q)))"
    if m: "iMarker < length (boundaries mesh)" "\<not> periodicBoundary (boundaries mesh ! iMarker)"
      and d: "d \<in> set (VecWallDistanceBoundaryFaces (boundaries (thisMesh s) ! iMarker))"
    for iMarker d
  proof -
    define b where "b = boundaries mesh ! iMarker"
    from d m obtain l where l: "l < length (surfElem b)"
      "d \<in> set (SurfElemDistances DetermineNearestElement adt mesh
                   (ZeroBoundary adt config iMarker) b l)"
      by (auto simp add: s_def Result_boundary_nth BoundaryResult_def Let_def adt_def b_def)
    from EntityDistances_zero_or_query [OF l(2) [unfolded SurfElemDistances_def],
        of "BoundaryFace iMarker l"]
    have "d = 0 \<or> (\<exists>q \<in> set (SurfElemQueries mesh iMarker (ZeroBoundary adt config iMarker) b l).
                       d = DetermineNearestElement adt (snd (snd q)))"
      by (simp add: SurfElemQueries_def)
    moreover have "set (SurfElemQueries mesh iMarker (ZeroBoundary adt config iMarker) b l) \<subseteq>
                   set (BoundaryQueries adt config mesh iMarker)"
      using l(1) m(2) by (auto simp add: BoundaryQueries_def Let_def b_def)
    moreover have "set (BoundaryQueries adt config mesh iMarker) \<subseteq> set (queryLog s)"
      unfolding log using m(1) by auto
    ultimately show ?thesis by blast
  qed
  from ret vol mf bnd show ?thesis unfolding adt by blast
qed

end
